theory Spec2Isabelle
  imports Main "HOL-Library.Word"
begin

section \<open>Toast notification: embedding of ToastWindow.cpp\<close>

text \<open>
  Conventions of the embedding.
  \<^item> C \<open>int\<close>/\<open>LONG\<close> screen coordinates are HOL \<open>int\<close>. A sum of a coordinate and a
    window height is taken as exact: the rectangles of a desktop are far from the
    32-bit limits. Where the source multiplies a difference of coordinates
    (\<open>AnimateToPosition\<close>), every operation on \<open>int\<close> is followed by the reduction
    \<open>int32\<close> to the 32-bit two's complement range, which is what the machine computes
    where C++ leaves the overflow undefined. Division is C's (truncation towards
    zero), written out as \<open>c_div\<close>.
  \<^item> A window handle is a 64-bit word; \<open>NULL\<close> is 0.
  \<^item> Narrow and wide strings are both \<open>string\<close>: the UTF-8/UTF-16 conversions of the
    C runtime are read as one character per character. A file is the text written to
    it: the translation between line feed and carriage return plus line feed that the
    text mode of the C runtime does on the way to the disk and back is not modelled.
  \<^item> What the operating system answers (the window enumeration, the foreground
    window, the temporary directory) is an explicit argument of each function.
  \<^item> Every instance is a process of its own. A function of the source that reads or
    writes the global variables takes and returns the record \<open>globals\<close>; the peers are
    seen only through the window enumeration and reached only by posted messages.
  \<^item> Logging, drawing, fonts, icons and sound are left out.
\<close>

subsection \<open>Windows, rectangles, taskbar edges\<close>

type_synonym HWND = "64 word"

text \<open>The fields of \<open>RECT\<close> carry the prefix \<open>r_\<close>: \<open>top\<close> is a constant of HOL.\<close>

record RECT =
  r_left :: int
  r_top :: int
  r_right :: int
  r_bottom :: int

datatype edge = ABE_LEFT | ABE_TOP | ABE_RIGHT | ABE_BOTTOM

text \<open>One tab of a terminal window as UI Automation reports it.\<close>

record tab =
  runtimeId :: "int list"
  hasSelectionPattern :: bool
  isSelected :: bool

text \<open>A top-level window as \<open>EnumWindows\<close>, \<open>GetClassNameW\<close>, \<open>IsWindowVisible\<close>,
  \<open>GetWindowRect\<close>, \<open>IsIconic\<close> and UI Automation report it.\<close>

record window =
  hwnd :: HWND
  className :: string
  visible :: bool
  rect :: RECT
  iconic :: bool
  tabs :: "tab list"

definition TOAST_CLASS_NAME :: string where
  "TOAST_CLASS_NAME = ''ClaudeCodeToast''"

definition g_windowWidth :: int where "g_windowWidth = 300"
definition g_windowHeight :: int where "g_windowHeight = 80"
definition g_fadeMs :: int where "g_fadeMs = 1000"

definition CLOSE_BUTTON_SIZE :: int where "CLOSE_BUTTON_SIZE = 20"
definition CLOSE_BUTTON_MARGIN :: int where "CLOSE_BUTTON_MARGIN = 6"

datatype timer_id = TIMER_FADE | TIMER_START_FADE | TIMER_REPOSITION | TIMER_CHECK_BOTTOM

text \<open>C integer division: the quotient is truncated towards zero.\<close>

definition c_div :: "int \<Rightarrow> int \<Rightarrow> int" where
  "c_div a b = sgn a * sgn b * (\<bar>a\<bar> div \<bar>b\<bar>)"

text \<open>The value of a 32-bit \<open>int\<close> that holds the low 32 bits of \<open>x\<close>; the range of
  \<open>int\<close>; and \<open>abs\<close> on \<open>int\<close>, which returns \<open>INT_MIN\<close> for \<open>INT_MIN\<close>.\<close>

definition int32 :: "int \<Rightarrow> int" where
  "int32 x = (x + 2147483648) mod 4294967296 - 2147483648"

definition in_int32 :: "int \<Rightarrow> bool" where
  "in_int32 x \<longleftrightarrow> - 2147483648 \<le> x \<and> x \<le> 2147483647"

definition c_abs :: "int \<Rightarrow> int" where
  "c_abs x = int32 \<bar>x\<bar>"

subsection \<open>Peer discovery and stacking geometry\<close>

text \<open>\<open>EnumToastWindows\<close>: the callback keeps a window that is not our own, has the
  toast class name and is visible.\<close>

definition EnumToastWindows :: "HWND \<Rightarrow> window \<Rightarrow> bool" where
  "EnumToastWindows g_hwnd w =
     (hwnd w \<noteq> g_hwnd \<and> className w = TOAST_CLASS_NAME \<and> visible w)"

text \<open>\<open>GetOtherToasts\<close>: enumerate, then sort towards the taskbar first: ascending
  \<open>top\<close> for a top taskbar, descending \<open>bottom\<close> otherwise. (\<open>std::sort\<close> leaves the
  order of equal keys open; the insertion sort used here fixes one.)\<close>

definition GetOtherToasts :: "edge \<Rightarrow> HWND \<Rightarrow> window list \<Rightarrow> window list" where
  "GetOtherToasts g_taskbarEdge g_hwnd ws =
     (let g_otherToasts = filter (EnumToastWindows g_hwnd) ws in
      if g_taskbarEdge = ABE_TOP
      then sort_key (\<lambda>t. r_top (rect t)) g_otherToasts
      else sort_key (\<lambda>t. - r_bottom (rect t)) g_otherToasts)"

definition GetBaseY :: "edge \<Rightarrow> RECT \<Rightarrow> int" where
  "GetBaseY g_taskbarEdge g_workArea =
     (if g_taskbarEdge = ABE_TOP then r_top g_workArea
      else r_bottom g_workArea - g_windowHeight)"

definition CalculateStackedY :: "edge \<Rightarrow> RECT \<Rightarrow> HWND \<Rightarrow> window list \<Rightarrow> int" where
  "CalculateStackedY g_taskbarEdge g_workArea g_hwnd ws =
     (let toasts = GetOtherToasts g_taskbarEdge g_hwnd ws in
      if toasts = [] then GetBaseY g_taskbarEdge g_workArea
      else if g_taskbarEdge = ABE_TOP
      then foldl (\<lambda>lowestBottom t.
                    if r_bottom (rect t) > lowestBottom then r_bottom (rect t) else lowestBottom)
                 (r_top g_workArea) toasts
      else foldl (\<lambda>highestTop t.
                    if r_top (rect t) < highestTop then r_top (rect t) else highestTop)
                 (r_bottom g_workArea) toasts - g_windowHeight)"

definition IsBottomToast :: "edge \<Rightarrow> HWND \<Rightarrow> RECT \<Rightarrow> window list \<Rightarrow> bool" where
  "IsBottomToast g_taskbarEdge g_hwnd myRect ws =
     (let toasts = GetOtherToasts g_taskbarEdge g_hwnd ws in
      if toasts = [] then True
      else if g_taskbarEdge = ABE_TOP
      then \<not> list_ex (\<lambda>t. r_top (rect t) < r_top myRect) toasts
      else \<not> list_ex (\<lambda>t. r_bottom (rect t) > r_bottom myRect) toasts)"

subsection \<open>Strings, decimal numbers and the line-oriented state file\<close>

definition LF :: char where "LF = CHR 0x0A"
definition CR :: char where "CR = CHR 0x0D"
definition DQUOTE :: char where "DQUOTE = CHR 0x22"
definition BACKSLASH :: char where "BACKSLASH = CHR 0x5C"

text \<open>\<open>std::string::find\<close>: the first position at or after \<open>pos\<close> where the needle
  starts, \<open>None\<close> for \<open>npos\<close>.\<close>

fun find_sub :: "string \<Rightarrow> string \<Rightarrow> nat option" where
  "find_sub needle [] = (if needle = [] then Some 0 else None)"
| "find_sub needle (c # cs) =
     (if take (length needle) (c # cs) = needle then Some 0
      else map_option Suc (find_sub needle cs))"

definition string_find :: "string \<Rightarrow> string \<Rightarrow> nat \<Rightarrow> nat option" where
  "string_find s needle pos =
     (if pos > length s then None
      else map_option (\<lambda>i. pos + i) (find_sub needle (drop pos s)))"

definition is_json_space :: "char \<Rightarrow> bool" where
  "is_json_space c = (c = CHR '' '' \<or> c = CHR 0x09 \<or> c = LF \<or> c = CR)"

definition escape_char :: "char \<Rightarrow> char" where
  "escape_char c =
     (if c = CHR ''n'' then LF
      else if c = CHR ''r'' then CR
      else if c = CHR ''t'' then CHR 0x09
      else c)"

text \<open>The loop of \<open>ExtractJsonStringValue\<close> that collects the value up to the closing
  quote. A backslash that is the last character is kept as it is.\<close>

fun unescape_value :: "string \<Rightarrow> string" where
  "unescape_value [] = []"
| "unescape_value [c] = (if c = DQUOTE then [] else [c])"
| "unescape_value (c # e # cs) =
     (if c = BACKSLASH then escape_char e # unescape_value cs
      else if c = DQUOTE then []
      else c # unescape_value (e # cs))"

text \<open>\<open>MultiByteToWideChar\<close> with length \<open>-1\<close> converts up to the first NUL.\<close>

definition MultiByteToWideChar :: "string \<Rightarrow> string" where
  "MultiByteToWideChar v = takeWhile (\<lambda>c. c \<noteq> CHR 0x00) v"

definition ExtractJsonStringValue :: "string \<Rightarrow> string \<Rightarrow> string" where
  "ExtractJsonStringValue json key =
     (let searchKey = [DQUOTE] @ key @ [DQUOTE] in
      case string_find json searchKey 0 of
        None \<Rightarrow> []
      | Some keyPos \<Rightarrow>
          (case string_find json '':'' (keyPos + length searchKey) of
             None \<Rightarrow> []
           | Some colonPos \<Rightarrow>
               (case dropWhile is_json_space (drop (colonPos + 1) json) of
                  [] \<Rightarrow> []
                | c # body \<Rightarrow>
                    if c \<noteq> DQUOTE then []
                    else MultiByteToWideChar (unescape_value body))))"

text \<open>\<open>%lld\<close> and \<open>std::to_wstring\<close>: a signed decimal numeral.\<close>

definition digit_char :: "nat \<Rightarrow> char" where
  "digit_char d = char_of (48 + d)"

fun to_decimal :: "nat \<Rightarrow> string" where
  "to_decimal n =
     (if n < 10 then [digit_char n] else to_decimal (n div 10) @ [digit_char (n mod 10)])"

declare to_decimal.simps [simp del]

definition print_lld :: "int \<Rightarrow> string" where
  "print_lld i = (if i < 0 then CHR ''-'' # to_decimal (nat (- i)) else to_decimal (nat i))"

text \<open>\<open>_wtoi64\<close>: leading white space, an optional sign, then the digits up to the
  first other character; a value out of range is \<open>LLONG_MAX\<close> or \<open>LLONG_MIN\<close>.\<close>

definition LLONG_MAX :: int where "LLONG_MAX = 2 ^ 63 - 1"
definition LLONG_MIN :: int where "LLONG_MIN = - (2 ^ 63)"

definition is_space :: "char \<Rightarrow> bool" where
  "is_space c = (c = CHR '' '' \<or> (9 \<le> (of_char c :: nat) \<and> (of_char c :: nat) \<le> 13))"

definition is_digit :: "char \<Rightarrow> bool" where
  "is_digit c = (48 \<le> (of_char c :: nat) \<and> (of_char c :: nat) \<le> 57)"

definition digit_val :: "char \<Rightarrow> int" where
  "digit_val c = int (of_char c) - 48"

definition parse_digits :: "string \<Rightarrow> int" where
  "parse_digits s = foldl (\<lambda>acc c. acc * 10 + digit_val c) 0 (takeWhile is_digit s)"

definition wtoi64 :: "string \<Rightarrow> int" where
  "wtoi64 s =
     (case dropWhile is_space s of
        [] \<Rightarrow> 0
      | c # cs \<Rightarrow>
          if c = CHR ''-'' then max LLONG_MIN (- parse_digits cs)
          else if c = CHR ''+'' then min LLONG_MAX (parse_digits cs)
          else min LLONG_MAX (parse_digits (c # cs)))"

text \<open>\<open>fgetws (line, count, f)\<close> reads at most \<open>count - 1\<close> characters and stops after a
  line feed; at the end of the file it returns \<open>NULL\<close>. The result is the line read and
  the rest of the stream.\<close>

fun fgetws_chars :: "nat \<Rightarrow> string \<Rightarrow> string \<times> string" where
  "fgetws_chars n [] = ([], [])"
| "fgetws_chars n (c # cs) =
     (if n = 0 then ([], c # cs)
      else if c = LF then ([c], cs)
      else (case fgetws_chars (n - 1) cs of (l, r) \<Rightarrow> (c # l, r)))"

definition fgetws :: "nat \<Rightarrow> string \<Rightarrow> (string \<times> string) option" where
  "fgetws count stream =
     (if stream = [] then None else Some (fgetws_chars (count - 1) stream))"

text \<open>The loop \<open>while (len > 0 && (line[len-1] == '\n' || line[len-1] == '\r'))\<close>
  that cuts the line's end.\<close>

definition strip_eol :: "string \<Rightarrow> string" where
  "strip_eol line = rev (dropWhile (\<lambda>c. c = LF \<or> c = CR) (rev line))"

definition read_line :: "string \<Rightarrow> (string \<times> string) option" where
  "read_line stream =
     (case fgetws 2048 stream of
        None \<Rightarrow> None
      | Some (line, rest) \<Rightarrow> Some (strip_eol line, rest))"

subsection \<open>The desktop and the machine as one process sees them\<close>

record desktop =
  windows :: "window list"
  foreground :: HWND
  uiaAvailable :: bool

text \<open>What the machine answers to one process: \<open>GetTempPathW\<close>, \<open>GetModuleFileNameW\<close>,
  the foreground window at the first instruction of \<open>WinMain\<close>, the result of
  \<open>FindCallerExePath\<close>, whether \<open>_wfopen\<close> opens the state file for writing, the handle
  \<open>CreateWindowExW\<close> returns (\<open>NULL\<close> on failure), the work area of the monitor under the
  cursor and the taskbar edge \<open>SHAppBarMessage\<close> reports (if it answers).\<close>

record machine =
  tempPath :: string
  exePath :: string
  immediateForeground :: HWND
  callerExePath :: string
  stateFileWritable :: bool
  createdWindow :: HWND
  monitorWorkArea :: RECT
  taskbarPos :: "edge option"

text \<open>The temporary directory's files: a path is mapped to the text of the file.\<close>

type_synonym files = "string \<rightharpoonup> string"

definition find_window :: "desktop \<Rightarrow> HWND \<Rightarrow> window option" where
  "find_window d h = find (\<lambda>w. hwnd w = h) (windows d)"

definition IsWindow :: "desktop \<Rightarrow> HWND \<Rightarrow> bool" where
  "IsWindow d h = (find_window d h \<noteq> None)"

definition IsIconic :: "desktop \<Rightarrow> HWND \<Rightarrow> bool" where
  "IsIconic d h = (case find_window d h of None \<Rightarrow> False | Some w \<Rightarrow> iconic w)"

definition IsWindowsTerminalWindow :: "desktop \<Rightarrow> HWND \<Rightarrow> bool" where
  "IsWindowsTerminalWindow d h =
     (if h = 0 then False
      else case find_window d h of
             None \<Rightarrow> False
           | Some w \<Rightarrow> className w = ''CASCADIA_HOSTING_WINDOW_CLASS'')"

text \<open>The tab items that UI Automation finds below a window (none if the window is
  gone).\<close>

definition window_tabs :: "desktop \<Rightarrow> HWND \<Rightarrow> tab list" where
  "window_tabs d h = (case find_window d h of None \<Rightarrow> [] | Some w \<Rightarrow> tabs w)"

text \<open>\<open>GetRuntimeIdString\<close>: the integers of the runtime id, joined by dots.\<close>

definition GetRuntimeIdString :: "int list \<Rightarrow> string" where
  "GetRuntimeIdString ids =
     foldl (\<lambda>result v. (if result \<noteq> [] then result @ ''.'' else result) @ print_lld v) [] ids"

definition GetStateFilePath :: "machine \<Rightarrow> string \<Rightarrow> string" where
  "GetStateFilePath m sessionId = tempPath m @ ''claude-notify-'' @ sessionId @ ''.txt''"

text \<open>The loop of \<open>SaveState\<close> over the tabs: the runtime id of the first tab that has
  the selection pattern and is selected.\<close>

fun selected_tab :: "tab list \<Rightarrow> string" where
  "selected_tab [] = []"
| "selected_tab (t # ts) =
     (if hasSelectionPattern t \<and> isSelected t then GetRuntimeIdString (runtimeId t)
      else selected_tab ts)"

definition saved_runtimeId :: "desktop \<Rightarrow> HWND \<Rightarrow> string" where
  "saved_runtimeId d h =
     (if IsWindowsTerminalWindow d h \<and> uiaAvailable d
      then selected_tab (window_tabs d h)
      else [])"

text \<open>The window that \<open>SaveState\<close> records: the one captured at program start, or
  the current foreground window if that one is \<open>NULL\<close> or no window any more.\<close>

definition captured_hwnd :: "machine \<Rightarrow> desktop \<Rightarrow> HWND" where
  "captured_hwnd m d =
     (let h0 = immediateForeground m in
      if h0 = 0 \<or> \<not> IsWindow d h0 then foreground d else h0)"

text \<open>\<open>SaveState\<close>: nothing is written without a session id, or when the file cannot be
  opened; otherwise the four lines replace the file.\<close>

definition SaveState :: "machine \<Rightarrow> desktop \<Rightarrow> string \<Rightarrow> files \<Rightarrow> files" where
  "SaveState m d jsonInput fs =
     (let sessionId = ExtractJsonStringValue jsonInput ''session_id'';
          userPrompt = ExtractJsonStringValue jsonInput ''prompt''
      in if sessionId = [] then fs
         else
           let h = captured_hwnd m d;
               stateFile = GetStateFilePath m sessionId
           in if \<not> stateFileWritable m then fs
              else fs(stateFile \<mapsto>
                     print_lld (sint h) @ [LF] @
                     saved_runtimeId d h @ [LF] @
                     callerExePath m @ [LF] @
                     userPrompt @ [LF]))"

subsection \<open>The process state\<close>

text \<open>The messages \<open>WndProc\<close> handles. The \<open>wParam\<close> of \<open>WM_TOAST_CHECK_POSITION\<close> is
  the sender's \<open>myRect.top\<close>, cast to \<open>WPARAM\<close> and back to \<open>int\<close>; \<open>WM_LBUTTONUP\<close>
  carries \<open>LOWORD (lParam)\<close> and \<open>HIWORD (lParam)\<close>.\<close>

datatype message =
    WM_TIMER timer_id
  | WM_TOAST_CHECK_POSITION int
  | WM_TOAST_PAUSE_TIMER int
  | WM_LBUTTONUP int int
  | WM_RBUTTONUP
  | WM_MOUSEMOVE
  | WM_MOUSELEAVE

text \<open>The calls by which \<open>ActivateWindow\<close> and \<open>SwitchToWindowsTerminalTab\<close> act on
  other windows, in the order they are made. \<open>AttachThreadInput h b\<close> attaches (or
  detaches) the calling thread to the thread of window \<open>h\<close>.\<close>

datatype os_call =
    AllowSetForegroundWindow
  | ShowWindowRestore HWND
  | TryAltKeyTrick
  | AttachThreadInput HWND bool
  | SetWindowPosTop HWND
  | BringWindowToTop HWND
  | SwitchToThisWindow HWND
  | SetForegroundWindow HWND
  | SelectTab HWND string

text \<open>The global variables of the process, with the state of its own window
  (\<open>myRect\<close> is what \<open>GetWindowRect (g_hwnd)\<close> returns, \<open>shown\<close> what \<open>IsWindowVisible\<close>
  returns, \<open>destroyed\<close> is set by \<open>DestroyWindow\<close>, \<open>timers\<close> are the timers that
  \<open>SetTimer\<close> started and \<open>KillTimer\<close> has not stopped) and the trace of what it sent:
  \<open>posted\<close> for \<open>PostMessage\<close>, \<open>calls\<close> for the activation calls.\<close>

record globals =
  g_title :: string
  g_message :: string
  g_userPrompt :: string
  g_sessionId :: string
  g_savedIconPath :: string
  g_debug :: bool
  g_inputMode :: bool
  g_clicked :: bool
  g_alpha :: int
  g_fadeStep :: int
  g_isFading :: bool
  g_mouseInside :: bool
  g_isBottomToast :: bool
  g_targetY :: int
  g_workArea :: RECT
  g_taskbarEdge :: edge
  g_hwnd :: HWND
  g_targetWindowHandle :: HWND
  g_wtWindowHandle :: HWND
  g_wtSavedRuntimeId :: string
  myRect :: RECT
  shown :: bool
  destroyed :: bool
  timers :: "timer_id set"
  posted :: "(HWND \<times> message) list"
  calls :: "os_call list"

definition initial_globals :: globals where
  "initial_globals =
     \<lparr> g_title = ''Claude Code'', g_message = ''Task completed'', g_userPrompt = [],
       g_sessionId = [], g_savedIconPath = [], g_debug = False, g_inputMode = False,
       g_clicked = False, g_alpha = 230, g_fadeStep = 15, g_isFading = False,
       g_mouseInside = False, g_isBottomToast = False, g_targetY = 0,
       g_workArea = \<lparr> r_left = 0, r_top = 0, r_right = 0, r_bottom = 0 \<rparr>,
       g_taskbarEdge = ABE_BOTTOM, g_hwnd = 0, g_targetWindowHandle = 0,
       g_wtWindowHandle = 0, g_wtSavedRuntimeId = [],
       myRect = \<lparr> r_left = 0, r_top = 0, r_right = 0, r_bottom = 0 \<rparr>,
       shown = False, destroyed = False, timers = {}, posted = [], calls = [] \<rparr>"

definition SetTimer :: "timer_id \<Rightarrow> globals \<Rightarrow> globals" where
  "SetTimer t g = g\<lparr>timers := insert t (timers g)\<rparr>"

definition KillTimer :: "timer_id \<Rightarrow> globals \<Rightarrow> globals" where
  "KillTimer t g = g\<lparr>timers := timers g - {t}\<rparr>"

definition DestroyWindow :: "globals \<Rightarrow> globals" where
  "DestroyWindow g = g\<lparr>destroyed := True, shown := False, timers := {}\<rparr>"

text \<open>\<open>SetWindowPos\<close> with \<open>SWP_NOSIZE\<close>: the window keeps its left edge and its size.\<close>

definition SetWindowPosY :: "int \<Rightarrow> globals \<Rightarrow> globals" where
  "SetWindowPosY newY g =
     g\<lparr>myRect := (myRect g)\<lparr> r_top := newY,
                               r_bottom := newY + (r_bottom (myRect g) - r_top (myRect g)) \<rparr>\<rparr>"

subsection \<open>Loading the state\<close>

definition load_hwnd :: "desktop \<Rightarrow> string \<Rightarrow> globals \<Rightarrow> globals" where
  "load_hwnd d line g =
     (let h = (word_of_int (wtoi64 line) :: HWND) in
      if h \<noteq> 0 \<and> IsWindow d h
      then (let g1 = g\<lparr>g_targetWindowHandle := h\<rparr> in
            if IsWindowsTerminalWindow d h then g1\<lparr>g_wtWindowHandle := h\<rparr> else g1)
      else g)"

definition load_runtimeId :: "string \<Rightarrow> globals \<Rightarrow> globals" where
  "load_runtimeId line g = (if length line > 0 then g\<lparr>g_wtSavedRuntimeId := line\<rparr> else g)"

definition load_iconPath :: "string \<Rightarrow> globals \<Rightarrow> globals" where
  "load_iconPath line g = (if length line > 0 then g\<lparr>g_savedIconPath := line\<rparr> else g)"

definition load_userPrompt :: "string \<Rightarrow> globals \<Rightarrow> globals" where
  "load_userPrompt line g = (if length line > 0 then g\<lparr>g_userPrompt := line\<rparr> else g)"

text \<open>One \<open>if (fgetws (line, 2048, f)) { ... }\<close> block of \<open>LoadState\<close>.\<close>

definition with_line :: "(string \<Rightarrow> globals \<Rightarrow> globals) \<Rightarrow> globals \<times> string \<Rightarrow> globals \<times> string" where
  "with_line f gs =
     (case read_line (snd gs) of
        None \<Rightarrow> (fst gs, [])
      | Some (line, rest) \<Rightarrow> (f line (fst gs), rest))"

definition LoadState :: "machine \<Rightarrow> desktop \<Rightarrow> files \<Rightarrow> string \<Rightarrow> globals \<Rightarrow> globals" where
  "LoadState m d fs sessionId g =
     (case fs (GetStateFilePath m sessionId) of
        None \<Rightarrow> g
      | Some f \<Rightarrow>
          fst (with_line load_userPrompt
              (with_line load_iconPath
              (with_line load_runtimeId
              (with_line (load_hwnd d) (g, f))))))"

subsection \<open>Window activation\<close>

text \<open>The calls that bring window \<open>h\<close> to the front, between attaching and detaching
  the thread input.\<close>

definition force_foreground :: "desktop \<Rightarrow> HWND \<Rightarrow> os_call list" where
  "force_foreground d h =
     [AttachThreadInput (foreground d) True, AttachThreadInput h True,
      SetWindowPosTop h, BringWindowToTop h, SwitchToThisWindow h, SetForegroundWindow h,
      AttachThreadInput h False, AttachThreadInput (foreground d) False]"

text \<open>The loop of \<open>SwitchToWindowsTerminalTab\<close> over the tabs: the first tab with the
  saved runtime id is selected if it has the selection pattern, and the loop ends.\<close>

fun select_saved_tab :: "HWND \<Rightarrow> string \<Rightarrow> tab list \<Rightarrow> os_call list" where
  "select_saved_tab h rid [] = []"
| "select_saved_tab h rid (t # ts) =
     (if GetRuntimeIdString (runtimeId t) = rid
      then (if hasSelectionPattern t then [SelectTab h rid] else [])
      else select_saved_tab h rid ts)"

definition SwitchToWindowsTerminalTab :: "desktop \<Rightarrow> globals \<Rightarrow> os_call list" where
  "SwitchToWindowsTerminalTab d g =
     (if g_wtSavedRuntimeId g = [] \<or> g_wtWindowHandle g = 0 then []
      else if \<not> IsWindow d (g_wtWindowHandle g) then []
      else
        (if IsIconic d (g_wtWindowHandle g) then [ShowWindowRestore (g_wtWindowHandle g)] else []) @
        [AllowSetForegroundWindow, TryAltKeyTrick] @
        force_foreground d (g_wtWindowHandle g) @
        (if \<not> uiaAvailable d then []
         else select_saved_tab (g_wtWindowHandle g) (g_wtSavedRuntimeId g)
                (window_tabs d (g_wtWindowHandle g))))"

definition ActivateWindow :: "desktop \<Rightarrow> globals \<Rightarrow> os_call list" where
  "ActivateWindow d g =
     (if g_wtWindowHandle g \<noteq> 0 \<and> g_wtSavedRuntimeId g \<noteq> [] then SwitchToWindowsTerminalTab d g
      else if g_targetWindowHandle g = 0 \<or> \<not> IsWindow d (g_targetWindowHandle g) then []
      else
        [AllowSetForegroundWindow] @
        (if IsIconic d (g_targetWindowHandle g) then [ShowWindowRestore (g_targetWindowHandle g)]
         else []) @
        [TryAltKeyTrick] @
        force_foreground d (g_targetWindowHandle g))"

subsection \<open>The window procedure\<close>

definition IsPointInCloseButton :: "int \<Rightarrow> int \<Rightarrow> bool" where
  "IsPointInCloseButton x y =
     (let btnLeft = g_windowWidth - CLOSE_BUTTON_MARGIN - CLOSE_BUTTON_SIZE;
          btnTop = CLOSE_BUTTON_MARGIN
      in x \<ge> btnLeft \<and> x \<le> btnLeft + CLOSE_BUTTON_SIZE \<and>
         y \<ge> btnTop \<and> y \<le> btnTop + CLOSE_BUTTON_SIZE)"

definition my_peers :: "desktop \<Rightarrow> globals \<Rightarrow> window list" where
  "my_peers d g = GetOtherToasts (g_taskbarEdge g) (g_hwnd g) (windows d)"

definition am_bottom :: "desktop \<Rightarrow> globals \<Rightarrow> bool" where
  "am_bottom d g = IsBottomToast (g_taskbarEdge g) (g_hwnd g) (myRect g) (windows d)"

definition NotifyOtherToastsClosing :: "desktop \<Rightarrow> globals \<Rightarrow> globals" where
  "NotifyOtherToastsClosing d g =
     g\<lparr>posted := posted g @
          map (\<lambda>t. (hwnd t, WM_TOAST_CHECK_POSITION (r_top (myRect g)))) (my_peers d g)\<rparr>"

definition NotifyAllToastsPauseTimer :: "bool \<Rightarrow> desktop \<Rightarrow> globals \<Rightarrow> globals" where
  "NotifyAllToastsPauseTimer pause d g =
     g\<lparr>posted := posted g @
          [(g_hwnd g, WM_TOAST_PAUSE_TIMER (if pause then 1 else 0))] @
          map (\<lambda>t. (hwnd t, WM_TOAST_PAUSE_TIMER (if pause then 1 else 0))) (my_peers d g)\<rparr>"

text \<open>The step of one animation tick: \<open>diff * 2 / 5\<close> on 32-bit \<open>int\<close>, and 2 or -2
  where that is 0.\<close>

definition anim_step :: "int \<Rightarrow> int" where
  "anim_step diff =
     (let step0 = c_div (int32 (diff * 2)) 5 in
      if step0 = 0 then (if diff > 0 then 2 else - 2) else step0)"

definition AnimateToPosition :: "globals \<Rightarrow> globals" where
  "AnimateToPosition g =
     (let currentY = r_top (myRect g) in
      if currentY = g_targetY g then KillTimer TIMER_REPOSITION g
      else
        let diff = int32 (g_targetY g - currentY);
            step = anim_step diff;
            newY0 = int32 (currentY + step);
            newY = (if c_abs (int32 (g_targetY g - newY0)) < 4 then g_targetY g else newY0);
            g1 = SetWindowPosY newY g
        in if newY = g_targetY g then KillTimer TIMER_REPOSITION g1 else g1)"

text \<open>The check made by the poll timer and on a closing broadcast: promoted to the
  bottom toast, the instance stops polling and starts its display timer.\<close>

definition check_became_bottom :: "desktop \<Rightarrow> globals \<Rightarrow> globals" where
  "check_became_bottom d g =
     (if am_bottom d g \<and> \<not> g_isBottomToast g
      then SetTimer TIMER_START_FADE (KillTimer TIMER_CHECK_BOTTOM (g\<lparr>g_isBottomToast := True\<rparr>))
      else g)"

definition on_timer :: "desktop \<Rightarrow> timer_id \<Rightarrow> globals \<Rightarrow> globals" where
  "on_timer d t g =
     (if t = TIMER_START_FADE
      then SetTimer TIMER_FADE ((KillTimer TIMER_START_FADE g)\<lparr>g_isFading := True\<rparr>)
      else if t = TIMER_FADE
      then (if g_alpha g > g_fadeStep g
            then g\<lparr>g_alpha := (g_alpha g - g_fadeStep g) mod 256\<rparr>
            else DestroyWindow
                   (NotifyOtherToastsClosing d (KillTimer TIMER_FADE (g\<lparr>g_isFading := False\<rparr>))))
      else if t = TIMER_REPOSITION then AnimateToPosition g
      else check_became_bottom d g)"

definition on_check_position :: "desktop \<Rightarrow> int \<Rightarrow> globals \<Rightarrow> globals" where
  "on_check_position d closedToastY g =
     (let g1 =
        (if g_taskbarEdge g = ABE_TOP
         then (if r_top (myRect g) > closedToastY
               then SetTimer TIMER_REPOSITION (g\<lparr>g_targetY := r_top (myRect g) - g_windowHeight\<rparr>)
               else g)
         else (if r_top (myRect g) < closedToastY
               then SetTimer TIMER_REPOSITION (g\<lparr>g_targetY := r_top (myRect g) + g_windowHeight\<rparr>)
               else g))
      in check_became_bottom d g1)"

definition on_pause_timer :: "int \<Rightarrow> globals \<Rightarrow> globals" where
  "on_pause_timer wParam g =
     (if wParam \<noteq> 0
      then KillTimer TIMER_START_FADE
             (if g_isFading g
              then (KillTimer TIMER_FADE g)\<lparr>g_isFading := False, g_alpha := 230\<rparr>
              else g)
      else (if g_isBottomToast g \<and> \<not> g_mouseInside g then SetTimer TIMER_START_FADE g else g))"

definition close_toast :: "desktop \<Rightarrow> globals \<Rightarrow> globals" where
  "close_toast d g =
     DestroyWindow (NotifyOtherToastsClosing d (KillTimer TIMER_FADE (KillTimer TIMER_START_FADE g)))"

definition on_lbuttonup :: "desktop \<Rightarrow> int \<Rightarrow> int \<Rightarrow> globals \<Rightarrow> globals" where
  "on_lbuttonup d x y g =
     (if IsPointInCloseButton x y then close_toast d g
      else
        let g1 = NotifyOtherToastsClosing d
                   (KillTimer TIMER_FADE (KillTimer TIMER_START_FADE (g\<lparr>g_clicked := True\<rparr>)));
            g2 = g1\<lparr>shown := False\<rparr>;
            g3 = g2\<lparr>calls := calls g2 @ ActivateWindow d g2\<rparr>
        in DestroyWindow g3)"

definition on_mousemove :: "desktop \<Rightarrow> globals \<Rightarrow> globals" where
  "on_mousemove d g =
     (if \<not> g_mouseInside g
      then NotifyAllToastsPauseTimer True d (g\<lparr>g_mouseInside := True\<rparr>)
      else g)"

definition on_mouseleave :: "desktop \<Rightarrow> globals \<Rightarrow> globals" where
  "on_mouseleave d g = NotifyAllToastsPauseTimer False d (g\<lparr>g_mouseInside := False\<rparr>)"

text \<open>\<open>WndProc\<close>, with the desktop as it is when the message is handled.\<close>

fun WndProc :: "desktop \<Rightarrow> message \<Rightarrow> globals \<Rightarrow> globals" where
  "WndProc d (WM_TIMER t) g = on_timer d t g"
| "WndProc d (WM_TOAST_CHECK_POSITION closedToastY) g = on_check_position d closedToastY g"
| "WndProc d (WM_TOAST_PAUSE_TIMER wParam) g = on_pause_timer wParam g"
| "WndProc d (WM_LBUTTONUP x y) g = on_lbuttonup d x y g"
| "WndProc d WM_RBUTTONUP g = close_toast d g"
| "WndProc d WM_MOUSEMOVE g = on_mousemove d g"
| "WndProc d WM_MOUSELEAVE g = on_mouseleave d g"

subsection \<open>Showing the toast\<close>

text \<open>An event is a message together with the desktop at the time it is handled.\<close>

type_synonym event = "desktop \<times> message"

text \<open>The message loop of \<open>ShowToast\<close> dispatches the messages until the window has
  been destroyed (\<open>WM_DESTROY\<close> posts the quit message); what is queued after that is
  not handled. \<open>dispatch_all\<close> is the state after the given events; \<open>message_loop\<close> is
  \<open>None\<close> when the events are used up and the process is still waiting in
  \<open>GetMessageW\<close>.\<close>

fun dispatch_all :: "event list \<Rightarrow> globals \<Rightarrow> globals" where
  "dispatch_all [] g = g"
| "dispatch_all (ev # evs) g =
     (if destroyed g then g else dispatch_all evs (WndProc (fst ev) (snd ev) g))"

definition message_loop :: "event list \<Rightarrow> globals \<Rightarrow> globals option" where
  "message_loop evs g =
     (let g1 = dispatch_all evs g in if destroyed g1 then Some g1 else None)"

text \<open>The part of \<open>ShowToast\<close> before the message loop: the fade step, the work area
  and the taskbar edge, the stacked position, the window, and the display timer for the
  bottom toast or the poll timer for the others. Fonts, icon and sound are left out.\<close>

definition create_toast :: "machine \<Rightarrow> desktop \<Rightarrow> globals \<Rightarrow> globals" where
  "create_toast m d g =
     (let fadeTicks0 = c_div g_fadeMs 16;
          fadeTicks = (if fadeTicks0 < 1 then 1 else fadeTicks0);
          g1 = g\<lparr>g_fadeStep := c_div 230 fadeTicks + 1,
                  g_workArea := monitorWorkArea m,
                  g_taskbarEdge := (case taskbarPos m of None \<Rightarrow> ABE_BOTTOM | Some e \<Rightarrow> e)\<rparr>;
          x = (if g_taskbarEdge g1 = ABE_LEFT then r_left (g_workArea g1)
               else r_right (g_workArea g1) - g_windowWidth);
          y = CalculateStackedY (g_taskbarEdge g1) (g_workArea g1) (g_hwnd g1) (windows d);
          g2 = g1\<lparr>g_targetY := y, g_hwnd := createdWindow m\<rparr>
      in if g_hwnd g2 = 0 then g2
         else
           let g3 = g2\<lparr>myRect := \<lparr> r_left = x, r_top = y, r_right = x + g_windowWidth,
                                     r_bottom = y + g_windowHeight \<rparr>\<rparr>;
               g4 = g3\<lparr>g_isBottomToast := am_bottom d g3\<rparr>;
               g5 = (if g_isBottomToast g4 then SetTimer TIMER_START_FADE g4
                     else SetTimer TIMER_CHECK_BOTTOM g4)
           in g5\<lparr>shown := True\<rparr>)"

definition ShowToast :: "machine \<Rightarrow> desktop \<Rightarrow> event list \<Rightarrow> globals \<Rightarrow> globals option" where
  "ShowToast m d evs g =
     (let g1 = create_toast m d g in
      if g_hwnd g1 = 0 then Some g1 else message_loop evs g1)"

subsection \<open>The entry point\<close>

record modes =
  saveMode :: bool
  notifyMode :: bool
  inputMode :: bool
  notifyShowMode :: bool

text \<open>The argument loop of \<open>WinMain\<close> (the log file that \<open>--debug\<close> opens is left
  out). \<open>set_flag\<close> is the chain of comparisons for an argument that takes no value;
  \<open>--session\<close> consumes the argument after it, if there is one.\<close>

definition set_flag :: "string \<Rightarrow> modes \<times> globals \<Rightarrow> modes \<times> globals" where
  "set_flag arg mg =
     (if arg = ''--save'' then ((fst mg)\<lparr>saveMode := True\<rparr>, snd mg)
      else if arg = ''--notify'' then ((fst mg)\<lparr>notifyMode := True\<rparr>, snd mg)
      else if arg = ''--input'' then ((fst mg)\<lparr>inputMode := True\<rparr>, snd mg)
      else if arg = ''--notify-show'' then ((fst mg)\<lparr>notifyShowMode := True\<rparr>, snd mg)
      else if arg = ''--input-mode'' then (fst mg, (snd mg)\<lparr>g_inputMode := True\<rparr>)
      else if arg = ''--debug'' \<or> arg = ''-d'' then (fst mg, (snd mg)\<lparr>g_debug := True\<rparr>)
      else mg)"

fun parse_args :: "string list \<Rightarrow> modes \<times> globals \<Rightarrow> modes \<times> globals" where
  "parse_args [] mg = mg"
| "parse_args [arg] mg = set_flag arg mg"
| "parse_args (arg # nxt # rest) mg =
     (if arg = ''--session'' then parse_args rest (fst mg, (snd mg)\<lparr>g_sessionId := nxt\<rparr>)
      else parse_args (nxt # rest) (set_flag arg mg))"

text \<open>The command line of the detached second-phase process.\<close>

definition child_cmdLine :: "machine \<Rightarrow> bool \<Rightarrow> globals \<Rightarrow> string" where
  "child_cmdLine m inputStyle g =
     [DQUOTE] @ exePath m @ [DQUOTE] @
     (if inputStyle then '' --notify-show --input-mode --session '' else '' --notify-show --session '') @
     [DQUOTE] @ g_sessionId g @ [DQUOTE] @
     (if g_debug g then '' --debug'' else [])"

text \<open>The arguments of the second-phase process as \<open>CommandLineToArgvW\<close> splits that
  command line (for a session id that needs no quoting).\<close>

definition second_phase_argv :: "bool \<Rightarrow> string \<Rightarrow> string list" where
  "second_phase_argv inputStyle sessionId =
     [''ToastWindow.exe'', ''--notify-show''] @
     (if inputStyle then [''--input-mode''] else []) @
     [''--session'', sessionId]"

text \<open>The title and the message of the second-phase process: the loaded prompt or the
  default of the mode, line breaks replaced by spaces, cut to 35 characters with three
  dots.\<close>

definition choose_message :: "globals \<Rightarrow> globals" where
  "choose_message g =
     (if g_inputMode g
      then g\<lparr>g_title := ''Input Required'',
              g_message := (if g_userPrompt g = [] then ''Claude needs your input''
                            else g_userPrompt g)\<rparr>
      else g\<lparr>g_title := ''Claude Code'',
              g_message := (if g_userPrompt g = [] then ''Task completed''
                            else g_userPrompt g)\<rparr>)"

definition maxLen :: nat where "maxLen = 35"

definition replace_newlines :: "string \<Rightarrow> string" where
  "replace_newlines s = map (\<lambda>c. if c = LF \<or> c = CR then CHR '' '' else c) s"

definition truncate_ellipsis :: "string \<Rightarrow> string" where
  "truncate_ellipsis s = (if length s > maxLen then take maxLen s @ ''...'' else s)"

definition normalize_message :: "globals \<Rightarrow> globals" where
  "normalize_message g = g\<lparr>g_message := truncate_ellipsis (replace_newlines (g_message g))\<rparr>"

text \<open>What an invocation leaves behind: its exit code, the files, the command line of
  the process it started (if any) and its globals at exit.\<close>

record outcome =
  exitCode :: int
  filesAfter :: files
  spawned :: "string option"
  atExit :: globals

text \<open>\<open>WinMain\<close>: \<open>argv\<close> is the command line as \<open>CommandLineToArgvW\<close> splits it, the
  program name first. \<open>None\<close>: the message loop has not ended on the given events.\<close>

definition WinMain ::
  "machine \<Rightarrow> desktop \<Rightarrow> string list \<Rightarrow> string \<Rightarrow> event list \<Rightarrow> files \<Rightarrow> outcome option" where
  "WinMain m d argv stdin evs fs =
     (case parse_args (tl argv)
             (\<lparr> saveMode = False, notifyMode = False, inputMode = False,
                notifyShowMode = False \<rparr>, initial_globals) of
        (md, g) \<Rightarrow>
          if saveMode md
          then Some \<lparr> exitCode = 0, filesAfter = SaveState m d stdin fs, spawned = None,
                      atExit = g\<lparr>g_sessionId := ExtractJsonStringValue stdin ''session_id''\<rparr> \<rparr>
          else if notifyMode md \<or> inputMode md
          then
            (let g1 = g\<lparr>g_sessionId := ExtractJsonStringValue stdin ''session_id''\<rparr> in
             if g_sessionId g1 = []
             then Some \<lparr> exitCode = 1, filesAfter = fs, spawned = None, atExit = g1 \<rparr>
             else Some \<lparr> exitCode = 0, filesAfter = fs,
                         spawned = Some (child_cmdLine m (\<not> notifyMode md) g1), atExit = g1 \<rparr>)
          else if notifyShowMode md
          then
            (if g_sessionId g = []
             then Some \<lparr> exitCode = 1, filesAfter = fs, spawned = None, atExit = g \<rparr>
             else
               let g1 = normalize_message (choose_message (LoadState m d fs (g_sessionId g) g)) in
               case ShowToast m d evs g1 of
                 None \<Rightarrow> None
               | Some g2 \<Rightarrow>
                   Some \<lparr> exitCode = 0,
                          filesAfter = fs((GetStateFilePath m (g_sessionId g)) := None),
                          spawned = None, atExit = g2 \<rparr>)
          else Some \<lparr> exitCode = 1, filesAfter = fs, spawned = None, atExit = g \<rparr>)"

subsection \<open>The reposition animation as a loop\<close>

text \<open>The reposition timer fires until it is killed: \<open>animate_run n\<close> handles its ticks
  one after the other, with no other message in between, and at most \<open>n\<close> of them. The
  result is \<open>None\<close> when the timer still runs after \<open>n\<close> ticks.\<close>

fun animate_run :: "nat \<Rightarrow> globals \<Rightarrow> globals option" where
  "animate_run 0 g = (if TIMER_REPOSITION \<in> timers g then None else Some g)"
| "animate_run (Suc n) g =
     (if TIMER_REPOSITION \<in> timers g then animate_run n (AnimateToPosition g) else Some g)"

subsection \<open>Notions used to state the properties\<close>

text \<open>What the instance shows and what a click activates: the fields that are set
  before the window is created and that no message changes.\<close>

definition settings :: "globals \<Rightarrow> string \<times> string \<times> HWND \<times> HWND \<times> string \<times> bool" where
  "settings g =
     (g_title g, g_message g, g_targetWindowHandle g, g_wtWindowHandle g,
      g_wtSavedRuntimeId g, g_inputMode g)"

text \<open>The globals of the second-phase process after its argument loop.\<close>

definition second_phase_globals :: "bool \<Rightarrow> string \<Rightarrow> globals" where
  "second_phase_globals inputStyle sessionId =
     (if inputStyle then initial_globals\<lparr>g_inputMode := True, g_sessionId := sessionId\<rparr>
      else initial_globals\<lparr>g_sessionId := sessionId\<rparr>)"

text \<open>The live instances of a desktop are its visible windows of the toast class; an
  anchor is a live instance for which \<open>IsBottomToast\<close>, evaluated in its own process
  against the same desktop, holds. \<open>edge_coordinate\<close> is the coordinate that
  \<open>IsBottomToast\<close> compares.\<close>

definition live_toasts :: "window list \<Rightarrow> window list" where
  "live_toasts ws = filter (\<lambda>w. className w = TOAST_CLASS_NAME \<and> visible w) ws"

definition anchors :: "edge \<Rightarrow> window list \<Rightarrow> window list" where
  "anchors e ws = filter (\<lambda>w. IsBottomToast e (hwnd w) (rect w) ws) (live_toasts ws)"

definition edge_coordinate :: "edge \<Rightarrow> window \<Rightarrow> int" where
  "edge_coordinate e w = (if e = ABE_TOP then - r_top (rect w) else r_bottom (rect w))"

text \<open>The first line of a text: what precedes its first line feed.\<close>

definition first_line :: "string \<Rightarrow> string" where
  "first_line s = takeWhile (\<lambda>c. c \<noteq> LF) s"

subsection \<open>Example data\<close>

text \<open>A desktop with one work area of 1920 by 1040 pixels above a bottom taskbar, a
  terminal window, and toasts of the standard size at the right edge.\<close>

definition ex_rect :: "int \<Rightarrow> int \<Rightarrow> RECT" where
  "ex_rect x y = \<lparr> r_left = x, r_top = y, r_right = x + 300, r_bottom = y + 80 \<rparr>"

definition ex_toast :: "HWND \<Rightarrow> int \<Rightarrow> int \<Rightarrow> window" where
  "ex_toast h x y =
     \<lparr> hwnd = h, className = ''ClaudeCodeToast'', visible = True, rect = ex_rect x y,
       iconic = False, tabs = [] \<rparr>"

definition ex_workArea :: RECT where
  "ex_workArea = \<lparr> r_left = 0, r_top = 0, r_right = 1920, r_bottom = 1040 \<rparr>"

text \<open>An instance at \<open>y = 800\<close> whose reposition timer runs towards \<open>y = 880\<close>.\<close>

definition ex_moving :: globals where
  "ex_moving =
     initial_globals\<lparr> g_hwnd := 7, myRect := ex_rect 1620 800, shown := True,
                       g_workArea := ex_workArea, g_targetY := 880,
                       timers := {TIMER_REPOSITION} \<rparr>"

text \<open>An instance at \<open>y = 0\<close> whose reposition timer runs towards \<open>y = 2147483644\<close>.\<close>

definition ex_far :: globals where
  "ex_far =
     initial_globals\<lparr> g_hwnd := 7, myRect := ex_rect 1620 0, shown := True,
                       g_workArea := ex_workArea, g_targetY := 2147483644,
                       timers := {TIMER_REPOSITION} \<rparr>"

text \<open>A terminal window in the foreground, and the machine of a process started from
  it.\<close>

definition ex_terminal :: window where
  "ex_terminal =
     \<lparr> hwnd = 4242, className = ''ConsoleWindowClass'', visible = True,
       rect = \<lparr> r_left = 100, r_top = 100, r_right = 900, r_bottom = 700 \<rparr>,
       iconic = False, tabs = [] \<rparr>"

definition ex_desktop :: desktop where
  "ex_desktop = \<lparr> windows = [ex_terminal], foreground = 4242, uiaAvailable = True \<rparr>"

definition ex_machine :: machine where
  "ex_machine =
     \<lparr> tempPath = ''C:/Temp/'', exePath = ''C:/bin/ToastWindow.exe'',
       immediateForeground = 4242, callerExePath = ''C:/bin/code.exe'',
       stateFileWritable = True, createdWindow = 77, monitorWorkArea = ex_workArea,
       taskbarPos = Some ABE_BOTTOM \<rparr>"

text \<open>A second toast that was created above another one (so it polls and is not
  flagged as the bottom toast), on a desktop where that other toast has gone.\<close>

definition ex_waiting :: globals where
  "ex_waiting =
     initial_globals\<lparr> g_hwnd := 8, myRect := ex_rect 1620 880, shown := True,
                       g_workArea := ex_workArea, g_targetY := 880,
                       timers := {TIMER_CHECK_BOTTOM} \<rparr>"

definition ex_desktop_alone :: desktop where
  "ex_desktop_alone =
     \<lparr> windows = [ex_terminal, ex_toast 8 1620 880], foreground = 4242,
       uiaAvailable = True \<rparr>"

text \<open>A bottom toast in the middle of its fade, with another toast above it.\<close>

definition ex_fading :: globals where
  "ex_fading =
     initial_globals\<lparr> g_hwnd := 7, myRect := ex_rect 1620 960, shown := True,
                       g_workArea := ex_workArea, g_targetY := 960, g_fadeStep := 4,
                       g_alpha := 130, g_isFading := True, g_isBottomToast := True,
                       timers := {TIMER_FADE} \<rparr>"

text \<open>A toast that is flagged as the bottom toast and paused, on a desktop where a
  toast created at the same moment on a second, lower monitor is closer to the
  taskbar.\<close>

definition ex_paused :: globals where
  "ex_paused =
     initial_globals\<lparr> g_hwnd := 7, myRect := ex_rect 1620 960, shown := True,
                       g_workArea := ex_workArea, g_targetY := 960, g_fadeStep := 4,
                       g_isBottomToast := True \<rparr>"

definition ex_desktop_lower :: desktop where
  "ex_desktop_lower =
     \<lparr> windows = [ex_terminal, ex_toast 7 1620 960, ex_toast 9 3540 1320],
       foreground = 4242, uiaAvailable = True \<rparr>"

definition ex_desktop_two :: desktop where
  "ex_desktop_two =
     \<lparr> windows = [ex_terminal, ex_toast 7 1620 960, ex_toast 8 1620 880],
       foreground = 4242, uiaAvailable = True \<rparr>"

text \<open>Two toasts stacked above a bottom taskbar, and two toasts that were created at
  the same moment on two monitors side by side.\<close>

definition ex_stack :: "window list" where
  "ex_stack = [ex_terminal, ex_toast 8 1620 880, ex_toast 7 1620 960]"

definition ex_tie :: "window list" where
  "ex_tie = [ex_toast 7 1620 960, ex_toast 9 3540 960]"

definition ex_tie_upper :: "window list" where
  "ex_tie_upper = [ex_toast 1 1620 960, ex_toast 7 1620 880, ex_toast 9 3540 880]"

text \<open>Payloads of the record invocation for the session \<open>abc\<close>: with the prompt
  \<open>build finished\<close>, with an empty prompt, and with a prompt of two lines (the escape
  \<open>\n\<close> between \<open>first\<close> and \<open>second\<close>, and as the first character).\<close>

definition ex_payload :: "string \<Rightarrow> string" where
  "ex_payload prompt =
     ''{'' @ [DQUOTE] @ ''session_id'' @ [DQUOTE] @ '': '' @ [DQUOTE] @ ''abc'' @ [DQUOTE] @
     '', '' @ [DQUOTE] @ ''prompt'' @ [DQUOTE] @ '': '' @ [DQUOTE] @ prompt @ [DQUOTE] @ ''}''"

definition ex_click :: "event list" where
  "ex_click = [(ex_desktop, WM_LBUTTONUP 10 40)]"

section \<open>Properties\<close>

subsection \<open>The reposition animation\<close>

lemma KillTimer_fields [simp]:
  "timers (KillTimer t g) = timers g - {t}"
  "myRect (KillTimer t g) = myRect g"
  "g_targetY (KillTimer t g) = g_targetY g"
  by (simp_all add: KillTimer_def)

lemma SetWindowPosY_fields [simp]:
  "timers (SetWindowPosY y g) = timers g"
  "r_top (myRect (SetWindowPosY y g)) = y"
  "g_targetY (SetWindowPosY y g) = g_targetY g"
  by (simp_all add: SetWindowPosY_def)

lemma c_div_5: "c_div a 5 = (if 0 \<le> a then a div 5 else - ((- a) div 5))"
  by (simp add: c_div_def sgn_if)

lemma int32_id: "in_int32 x \<Longrightarrow> int32 x = x"
  by (simp add: int32_def in_int32_def)

lemma int32_diff_right: "int32 (a - int32 b) = int32 (a - b)"
proof -
  have "(a - ((b + 2147483648) mod 4294967296 - 2147483648) + 2147483648) mod 4294967296
      = (a + 4294967296 - (b + 2147483648) mod 4294967296) mod 4294967296"
    by (simp add: algebra_simps)
  also have "\<dots> = (a + 4294967296 - (b + 2147483648)) mod 4294967296"
    by (rule mod_diff_right_eq)
  also have "\<dots> = (a - b + 2147483648) mod 4294967296"
    by (simp add: algebra_simps)
  finally show ?thesis by (simp add: int32_def)
qed

lemma c_abs_id: "\<bar>x\<bar> \<le> 2147483647 \<Longrightarrow> c_abs x = \<bar>x\<bar>"
  unfolding c_abs_def by (rule int32_id) (simp add: in_int32_def)

lemma anim_step_small:
  assumes "\<bar>diff\<bar> < 1073741824"
  shows "anim_step diff =
     (if c_div (diff * 2) 5 = 0 then (if diff > 0 then 2 else - 2) else c_div (diff * 2) 5)"
proof -
  have "int32 (diff * 2) = diff * 2"
    using assms by (intro int32_id [unfolded in_int32_def]) arith
  then show ?thesis by (simp add: anim_step_def Let_def)
qed

lemma anim_step_pos:
  "0 < diff \<Longrightarrow> diff < 1073741824 \<Longrightarrow>
   anim_step diff = (if diff < 3 then 2 else (diff * 2) div 5)"
proof -
  assume a: "0 < diff" "diff < 1073741824"
  then have "int32 (diff * 2) = diff * 2" by (intro int32_id) (simp add: in_int32_def)
  then show ?thesis using a unfolding anim_step_def Let_def c_div_5 by (simp; arith)
qed

lemma anim_step_neg:
  "diff < 0 \<Longrightarrow> - 1073741824 < diff \<Longrightarrow>
   anim_step diff = (if - 3 < diff then - 2 else - ((- diff * 2) div 5))"
proof -
  assume a: "diff < 0" "- 1073741824 < diff"
  then have "int32 (diff * 2) = diff * 2" by (intro int32_id) (simp add: in_int32_def)
  then show ?thesis using a unfolding anim_step_def Let_def c_div_5 by (simp; arith)
qed

lemma anim_step_closer:
  "diff \<noteq> 0 \<Longrightarrow> \<bar>diff\<bar> < 1073741824 \<Longrightarrow>
   \<bar>diff - anim_step diff\<bar> < 4 \<or> \<bar>diff - anim_step diff\<bar> < \<bar>diff\<bar>"
  by (cases "0 < diff") (simp_all add: anim_step_pos anim_step_neg, arith+)

lemma anim_step_far:
  assumes "\<not> \<bar>diff - anim_step diff\<bar> < 4" and small: "\<bar>diff\<bar> < 1073741824"
  shows "anim_step diff = c_div (diff * 2) 5" and "2 \<le> \<bar>c_div (diff * 2) 5\<bar>"
    and "\<bar>diff - anim_step diff\<bar> < \<bar>diff\<bar>"
    and "\<bar>anim_step diff\<bar> \<le> \<bar>diff\<bar>" and "0 < diff \<longleftrightarrow> 0 < anim_step diff"
proof -
  have nz: "diff \<noteq> 0" using assms by (auto simp: anim_step_def c_div_5 int32_def)
  have big: "6 \<le> \<bar>diff\<bar>"
  proof (cases "0 < diff")
    case True
    with assms show ?thesis by (simp add: anim_step_pos split: if_splits; arith)
  next
    case False
    with nz have "diff < 0" by simp
    with assms show ?thesis by (simp add: anim_step_neg split: if_splits; arith)
  qed
  show s: "anim_step diff = c_div (diff * 2) 5"
  proof (cases "0 < diff")
    case True
    with big small show ?thesis by (simp add: anim_step_pos c_div_5)
  next
    case False
    with nz have "diff < 0" by simp
    with big small show ?thesis by (simp add: anim_step_neg c_div_5)
  qed
  show "2 \<le> \<bar>c_div (diff * 2) 5\<bar>"
    using big by (simp add: c_div_5; arith)
  show "\<bar>diff - anim_step diff\<bar> < \<bar>diff\<bar>"
    using anim_step_closer [OF nz small] assms by blast
  show "\<bar>anim_step diff\<bar> \<le> \<bar>diff\<bar>"
    unfolding s using big by (simp add: c_div_5; arith)
  show "0 < diff \<longleftrightarrow> 0 < anim_step diff"
    unfolding s using big by (simp add: c_div_5; arith)
qed

text \<open>The tick where nothing overflows.\<close>

lemma Animate_diff:
  assumes "\<bar>g_targetY g - r_top (myRect g)\<bar> < 1073741824"
  shows "int32 (g_targetY g - r_top (myRect g)) = g_targetY g - r_top (myRect g)"
  using assms unfolding in_int32_def by (intro int32_id [unfolded in_int32_def]) arith

lemma Animate_check:
  assumes "\<bar>T - y - s\<bar> \<le> 2147483647"
  shows "c_abs (int32 (T - int32 (y + s))) < 4 \<longleftrightarrow> \<bar>T - y - s\<bar> < 4"
proof -
  have "int32 (T - int32 (y + s)) = int32 (T - y - s)"
    by (simp add: int32_diff_right algebra_simps)
  also have "\<dots> = T - y - s"
    using assms by (intro int32_id [unfolded in_int32_def]) arith
  finally show ?thesis
    using assms by (simp add: c_abs_id)
qed

lemma Animate_at_target:
  "r_top (myRect g) = g_targetY g \<Longrightarrow> AnimateToPosition g = KillTimer TIMER_REPOSITION g"
  by (simp add: AnimateToPosition_def)

lemma Animate_snap:
  assumes ne: "r_top (myRect g) \<noteq> g_targetY g"
    and near: "\<bar>g_targetY g - r_top (myRect g)\<bar> < 1073741824"
    and snap: "\<bar>g_targetY g - r_top (myRect g) - anim_step (g_targetY g - r_top (myRect g))\<bar> < 4"
  shows "AnimateToPosition g = KillTimer TIMER_REPOSITION (SetWindowPosY (g_targetY g) g)"
proof -
  let ?diff = "g_targetY g - r_top (myRect g)"
  have "c_abs (int32 (g_targetY g - int32 (r_top (myRect g) + anim_step ?diff))) < 4"
    using snap by (subst Animate_check) simp_all
  then show ?thesis
    using ne by (simp add: AnimateToPosition_def Let_def Animate_diff [OF near])
qed

lemma Animate_move:
  assumes ne: "r_top (myRect g) \<noteq> g_targetY g"
    and r: "in_int32 (r_top (myRect g))" "in_int32 (g_targetY g)"
    and near: "\<bar>g_targetY g - r_top (myRect g)\<bar> < 1073741824"
    and far: "\<not> \<bar>g_targetY g - r_top (myRect g) - anim_step (g_targetY g - r_top (myRect g))\<bar> < 4"
  shows "AnimateToPosition g =
     SetWindowPosY (r_top (myRect g) + anim_step (g_targetY g - r_top (myRect g))) g"
    and "in_int32 (r_top (myRect g) + anim_step (g_targetY g - r_top (myRect g)))"
proof -
  let ?diff = "g_targetY g - r_top (myRect g)"
  let ?y' = "r_top (myRect g) + anim_step ?diff"
  note f = anim_step_far [OF far near]
  have b: "\<bar>?diff - anim_step ?diff\<bar> \<le> 2147483647"
    using f(3) near by arith
  have c: "\<not> c_abs (int32 (g_targetY g - int32 (r_top (myRect g) + anim_step ?diff))) < 4"
    using far by (subst Animate_check [OF b]) simp
  show in': "in_int32 ?y'"
    using f(4,5) r unfolding in_int32_def by arith
  have d: "?y' \<noteq> g_targetY g" using far by auto
  show "AnimateToPosition g = SetWindowPosY ?y' g"
    using ne c d by (simp add: AnimateToPosition_def Let_def Animate_diff [OF near] int32_id [OF in'])
qed

lemma animate_run_stopped:
  "TIMER_REPOSITION \<notin> timers g \<Longrightarrow> animate_run n g = Some g"
  by (cases n) simp_all

lemma animate_run_reaches:
  "TIMER_REPOSITION \<in> timers g \<Longrightarrow> in_int32 (r_top (myRect g)) \<Longrightarrow> in_int32 (g_targetY g) \<Longrightarrow>
   \<bar>g_targetY g - r_top (myRect g)\<bar> < 1073741824 \<Longrightarrow>
   nat \<bar>g_targetY g - r_top (myRect g)\<bar> < n \<Longrightarrow>
   \<exists>g'. animate_run n g = Some g' \<and> r_top (myRect g') = g_targetY g \<and>
        TIMER_REPOSITION \<notin> timers g'"
proof (induction n arbitrary: g)
  case 0
  then show ?case by simp
next
  case (Suc n)
  let ?g' = "AnimateToPosition g"
  let ?diff = "g_targetY g - r_top (myRect g)"
  have run: "animate_run (Suc n) g = animate_run n ?g'"
    using Suc.prems(1) by simp
  show ?case
  proof (cases "r_top (myRect g) = g_targetY g")
    case True
    then have "?g' = KillTimer TIMER_REPOSITION g" by (rule Animate_at_target)
    then have "animate_run n ?g' = Some ?g'" "r_top (myRect ?g') = g_targetY g"
      "TIMER_REPOSITION \<notin> timers ?g'"
      using True by (simp_all add: animate_run_stopped)
    with run show ?thesis by simp
  next
    case False
    show ?thesis
    proof (cases "\<bar>?diff - anim_step ?diff\<bar> < 4")
      case True
      with False Suc.prems(4)
      have "?g' = KillTimer TIMER_REPOSITION (SetWindowPosY (g_targetY g) g)"
        by (intro Animate_snap)
      then have "animate_run n ?g' = Some ?g'" "r_top (myRect ?g') = g_targetY g"
        "TIMER_REPOSITION \<notin> timers ?g'"
        by (simp_all add: animate_run_stopped)
      with run show ?thesis by simp
    next
      case far: False
      note mv = Animate_move [OF False Suc.prems(2,3,4) far]
      note f = anim_step_far [OF far Suc.prems(4)]
      have 1: "TIMER_REPOSITION \<in> timers ?g'" and 2: "g_targetY ?g' = g_targetY g"
        and 3: "r_top (myRect ?g') = r_top (myRect g) + anim_step ?diff"
        using mv(1) Suc.prems(1) by simp_all
      have 4: "\<bar>g_targetY ?g' - r_top (myRect ?g')\<bar> < \<bar>?diff\<bar>"
        unfolding 2 3 using f(3) by (simp add: algebra_simps)
      have 5: "in_int32 (r_top (myRect ?g'))" "in_int32 (g_targetY ?g')"
        unfolding 2 3 using mv(2) Suc.prems(3) by simp_all
      have 6: "\<bar>g_targetY ?g' - r_top (myRect ?g')\<bar> < 1073741824"
        using 4 Suc.prems(4) by arith
      have 7: "nat \<bar>g_targetY ?g' - r_top (myRect ?g')\<bar> < n"
        using 4 Suc.prems(5) by arith
      from Suc.IH [OF 1 5 6 7] run 2 show ?thesis by simp
    qed
  qed
qed

lemma animate_run_funpow:
  "animate_run n g = Some g' \<Longrightarrow> \<exists>j \<le> n. g' = (AnimateToPosition ^^ j) g"
proof (induction n arbitrary: g)
  case 0
  then show ?case by (simp split: if_splits)
next
  case (Suc n)
  show ?case
  proof (cases "TIMER_REPOSITION \<in> timers g")
    case True
    with Suc.prems have "animate_run n (AnimateToPosition g) = Some g'" by simp
    from Suc.IH [OF this] obtain j where "j \<le> n" "g' = (AnimateToPosition ^^ j) (AnimateToPosition g)"
      by blast
    then have "Suc j \<le> Suc n" "g' = (AnimateToPosition ^^ Suc j) g"
      by (simp_all add: funpow_swap1)
    then show ?thesis by blast
  next
    case False
    with Suc.prems have "g' = (AnimateToPosition ^^ 0) g" by simp
    then show ?thesis by blast
  qed
qed

text \<open>A target that is too far.\<close>

lemma Animate_tick:
  "r_top (myRect g) = y \<Longrightarrow> g_targetY g = T \<Longrightarrow> y \<noteq> T \<Longrightarrow> int32 (T - y) = d \<Longrightarrow>
   anim_step d = s \<Longrightarrow> int32 (y + s) = y' \<Longrightarrow> \<not> c_abs (int32 (T - y')) < 4 \<Longrightarrow> y' \<noteq> T \<Longrightarrow>
   AnimateToPosition g = SetWindowPosY y' g"
  by (simp add: AnimateToPosition_def Let_def)

lemma SetWindowPosY_twice: "SetWindowPosY y (SetWindowPosY y' g) = SetWindowPosY y g"
  by (simp add: SetWindowPosY_def)

lemma ex_far_steps:
  "anim_step 2147483644 = - 1" "anim_step 2147483645 = - 1" "anim_step 2147483646 = 2"
  by (simp_all add: anim_step_def int32_def c_div_5)

lemma ex_far_cycle:
  "AnimateToPosition ex_far = SetWindowPosY (- 1) ex_far"
  "AnimateToPosition (SetWindowPosY (- 1) ex_far) = SetWindowPosY (- 2) ex_far"
  "AnimateToPosition (SetWindowPosY (- 2) ex_far) = ex_far"
proof -
  have f: "r_top (myRect ex_far) = 0" "g_targetY ex_far = 2147483644"
    by (simp_all add: ex_far_def ex_rect_def)
  show "AnimateToPosition ex_far = SetWindowPosY (- 1) ex_far"
    by (rule Animate_tick [where d = 2147483644 and s = "- 1", OF f])
       (simp_all add: ex_far_steps int32_def c_abs_def)
  have "AnimateToPosition (SetWindowPosY (- 1) ex_far)
      = SetWindowPosY (- 2) (SetWindowPosY (- 1) ex_far)"
    by (rule Animate_tick [where y = "- 1" and T = 2147483644 and d = 2147483645 and s = "- 1"])
       (simp_all add: f ex_far_steps int32_def c_abs_def)
  then show "AnimateToPosition (SetWindowPosY (- 1) ex_far) = SetWindowPosY (- 2) ex_far"
    by (simp add: SetWindowPosY_twice)
  have "AnimateToPosition (SetWindowPosY (- 2) ex_far)
      = SetWindowPosY 0 (SetWindowPosY (- 2) ex_far)"
    by (rule Animate_tick [where y = "- 2" and T = 2147483644 and d = 2147483646 and s = 2])
       (simp_all add: f ex_far_steps int32_def c_abs_def)
  also have "\<dots> = ex_far"
    by (simp add: SetWindowPosY_def ex_far_def ex_rect_def)
  finally show "AnimateToPosition (SetWindowPosY (- 2) ex_far) = ex_far" .
qed

lemma ex_far_runs_forever:
  "animate_run n ex_far = None \<and> animate_run n (SetWindowPosY (- 1) ex_far) = None \<and>
   animate_run n (SetWindowPosY (- 2) ex_far) = None"
proof (induction n)
  case 0
  show ?case by (simp add: ex_far_def)
next
  case (Suc n)
  have t: "TIMER_REPOSITION \<in> timers ex_far" by (simp add: ex_far_def)
  from Suc t show ?case by (simp add: ex_far_cycle)
qed

subsection \<open>What no message changes\<close>

lemma settings_prims [simp]:
  "settings (SetTimer t g) = settings g"
  "settings (KillTimer t g) = settings g"
  "settings (DestroyWindow g) = settings g"
  "settings (SetWindowPosY y g) = settings g"
  "settings (NotifyOtherToastsClosing d g) = settings g"
  "settings (NotifyAllToastsPauseTimer p d g) = settings g"
  by (simp_all add: settings_def SetTimer_def KillTimer_def DestroyWindow_def SetWindowPosY_def
      NotifyOtherToastsClosing_def NotifyAllToastsPauseTimer_def)

lemma settings_upd [simp]:
  "settings (g\<lparr>g_isFading := a\<rparr>) = settings g"
  "settings (g\<lparr>g_alpha := b\<rparr>) = settings g"
  "settings (g\<lparr>g_isBottomToast := c\<rparr>) = settings g"
  "settings (g\<lparr>g_targetY := e\<rparr>) = settings g"
  "settings (g\<lparr>g_clicked := f\<rparr>) = settings g"
  "settings (g\<lparr>shown := h\<rparr>) = settings g"
  "settings (g\<lparr>calls := i\<rparr>) = settings g"
  "settings (g\<lparr>g_mouseInside := j\<rparr>) = settings g"
  by (simp_all add: settings_def)

lemma settings_Animate [simp]: "settings (AnimateToPosition g) = settings g"
  by (simp add: AnimateToPosition_def Let_def)

lemma settings_check [simp]: "settings (check_became_bottom d g) = settings g"
  by (simp add: check_became_bottom_def)

lemma settings_on_timer: "settings (on_timer d t g) = settings g"
  by (simp add: on_timer_def)

lemma settings_on_check_position: "settings (on_check_position d y g) = settings g"
  by (simp add: on_check_position_def Let_def)

lemma settings_on_pause_timer: "settings (on_pause_timer w g) = settings g"
  by (simp add: on_pause_timer_def)

lemma settings_close_toast: "settings (close_toast d g) = settings g"
  by (simp add: close_toast_def)

lemma settings_on_lbuttonup: "settings (on_lbuttonup d x y g) = settings g"
  by (simp add: on_lbuttonup_def Let_def settings_close_toast)

lemma settings_WndProc: "settings (WndProc d msg g) = settings g"
  by (cases msg)
     (simp_all add: settings_on_timer settings_on_check_position settings_on_pause_timer
        settings_close_toast settings_on_lbuttonup on_mousemove_def on_mouseleave_def)

lemma settings_dispatch_all: "settings (dispatch_all evs g) = settings g"
  by (induction evs arbitrary: g) (simp_all add: settings_WndProc)

lemma settings_create_toast: "settings (create_toast m d g) = settings g"
  by (simp add: create_toast_def Let_def settings_def SetTimer_def)

lemma parse_second_phase:
  "parse_args (tl (second_phase_argv b k))
     (\<lparr> saveMode = False, notifyMode = False, inputMode = False, notifyShowMode = False \<rparr>,
      initial_globals) =
   (\<lparr> saveMode = False, notifyMode = False, inputMode = False, notifyShowMode = True \<rparr>,
    second_phase_globals b k)"
  by (simp add: second_phase_argv_def second_phase_globals_def set_flag_def)

lemma sessionId_second_phase [simp]: "g_sessionId (second_phase_globals b k) = k"
  by (simp add: second_phase_globals_def)

lemma WinMain_second_phase:
  "k \<noteq> [] \<Longrightarrow>
   WinMain m d (second_phase_argv b k) stdin evs fs =
     (case ShowToast m d evs
             (normalize_message (choose_message (LoadState m d fs k (second_phase_globals b k)))) of
        None \<Rightarrow> None
      | Some g2 \<Rightarrow>
          Some \<lparr> exitCode = 0, filesAfter = fs((GetStateFilePath m k) := None),
                 spawned = None, atExit = g2 \<rparr>)"
  by (simp add: WinMain_def parse_second_phase Let_def split: option.split)

subsection \<open>Activation calls, and the run of the second-phase process\<close>

lemma calls_prims [simp]:
  "calls (SetTimer t g) = calls g"
  "calls (KillTimer t g) = calls g"
  "calls (DestroyWindow g) = calls g"
  "calls (SetWindowPosY y g) = calls g"
  "calls (NotifyOtherToastsClosing d g) = calls g"
  "calls (NotifyAllToastsPauseTimer p d g) = calls g"
  by (simp_all add: SetTimer_def KillTimer_def DestroyWindow_def SetWindowPosY_def
      NotifyOtherToastsClosing_def NotifyAllToastsPauseTimer_def)

lemma calls_Animate [simp]: "calls (AnimateToPosition g) = calls g"
  by (simp add: AnimateToPosition_def Let_def)

lemma calls_check [simp]: "calls (check_became_bottom d g) = calls g"
  by (simp add: check_became_bottom_def)

lemma calls_close_toast [simp]: "calls (close_toast d g) = calls g"
  by (simp add: close_toast_def)

lemma ActivateWindow_settings:
  "settings g = settings g' \<Longrightarrow> ActivateWindow d g = ActivateWindow d g'"
  by (simp add: settings_def ActivateWindow_def SwitchToWindowsTerminalTab_def)

lemma calls_on_lbuttonup:
  "calls (on_lbuttonup d x y g) =
     (if IsPointInCloseButton x y then calls g else calls g @ ActivateWindow d g)"
proof -
  have "ActivateWindow d
          ((NotifyOtherToastsClosing d
             (KillTimer TIMER_FADE (KillTimer TIMER_START_FADE (g\<lparr>g_clicked := True\<rparr>))))\<lparr>shown := False\<rparr>)
        = ActivateWindow d g"
    by (rule ActivateWindow_settings) simp
  then show ?thesis by (simp add: on_lbuttonup_def Let_def)
qed

lemma calls_WndProc:
  "calls (WndProc d msg g) =
     (case msg of
        WM_LBUTTONUP x y \<Rightarrow>
          if IsPointInCloseButton x y then calls g else calls g @ ActivateWindow d g
      | _ \<Rightarrow> calls g)"
  by (cases msg)
     (simp_all add: calls_on_lbuttonup on_timer_def on_check_position_def Let_def
        on_pause_timer_def on_mousemove_def on_mouseleave_def)

lemma ActivateWindow_no_target:
  "g_targetWindowHandle g = 0 \<Longrightarrow> g_wtWindowHandle g = 0 \<Longrightarrow> ActivateWindow d g = []"
  by (simp add: ActivateWindow_def)

lemma calls_dispatch_all_no_target:
  "g_targetWindowHandle g = 0 \<Longrightarrow> g_wtWindowHandle g = 0 \<Longrightarrow>
   calls (dispatch_all evs g) = calls g"
proof (induction evs arbitrary: g)
  case Nil
  then show ?case by simp
next
  case (Cons ev evs)
  have s: "settings (WndProc (fst ev) (snd ev) g) = settings g" by (rule settings_WndProc)
  then have "g_targetWindowHandle (WndProc (fst ev) (snd ev) g) = 0"
    "g_wtWindowHandle (WndProc (fst ev) (snd ev) g) = 0"
    using Cons.prems by (simp_all add: settings_def)
  then have "calls (dispatch_all evs (WndProc (fst ev) (snd ev) g)) = calls (WndProc (fst ev) (snd ev) g)"
    by (rule Cons.IH)
  also have "\<dots> = calls g"
    using Cons.prems by (simp add: calls_WndProc ActivateWindow_no_target split: message.split)
  finally show ?case by simp
qed

lemma calls_create_toast: "calls (create_toast m d g) = calls g"
  by (simp add: create_toast_def Let_def SetTimer_def)

lemma destroyed_create_toast: "destroyed (create_toast m d g) = destroyed g"
  by (simp add: create_toast_def Let_def SetTimer_def)

lemma destroyed_close_toast [simp]: "destroyed (close_toast d g)"
  by (simp add: close_toast_def DestroyWindow_def)

lemma destroyed_on_lbuttonup [simp]: "destroyed (on_lbuttonup d x y g)"
  by (simp add: on_lbuttonup_def Let_def DestroyWindow_def)

lemma ShowToast_Some:
  "ShowToast m d evs g = Some g2 \<Longrightarrow>
   settings g2 = settings g \<and>
   (g_targetWindowHandle g = 0 \<and> g_wtWindowHandle g = 0 \<longrightarrow> calls g2 = calls g)"
proof -
  assume a: "ShowToast m d evs g = Some g2"
  let ?g1 = "create_toast m d g"
  have s1: "settings ?g1 = settings g" by (rule settings_create_toast)
  have g2: "g2 = ?g1 \<or> g2 = dispatch_all evs ?g1"
    using a by (auto simp: ShowToast_def message_loop_def Let_def split: if_splits)
  then have "settings g2 = settings g"
    using s1 by (auto simp: settings_dispatch_all)
  moreover have "calls g2 = calls g"
    if "g_targetWindowHandle g = 0" "g_wtWindowHandle g = 0"
  proof -
    from that s1 have "g_targetWindowHandle ?g1 = 0" "g_wtWindowHandle ?g1 = 0"
      by (simp_all add: settings_def)
    then have "calls (dispatch_all evs ?g1) = calls ?g1"
      by (rule calls_dispatch_all_no_target)
    with g2 show ?thesis by (auto simp: calls_create_toast)
  qed
  ultimately show ?thesis by blast
qed

lemma ShowToast_click:
  "destroyed g = False \<Longrightarrow> \<exists>g2. ShowToast m d [(d', WM_LBUTTONUP x y)] g = Some g2"
  by (simp add: ShowToast_def message_loop_def Let_def destroyed_create_toast)

lemma LoadState_missing:
  "fs (GetStateFilePath m k) = None \<Longrightarrow> LoadState m d fs k g = g"
  by (simp add: LoadState_def)

lemma settings_default:
  "settings (normalize_message (choose_message (second_phase_globals b k))) =
     ((if b then ''Input Required'' else ''Claude Code''),
      (if b then ''Claude needs your input'' else ''Task completed''), 0, 0, [], b)"
  by (simp add: settings_def normalize_message_def choose_message_def second_phase_globals_def
      initial_globals_def truncate_ellipsis_def replace_newlines_def maxLen_def LF_def CR_def)

subsection \<open>The displayed message\<close>



lemma show_message:
  assumes "k \<noteq> []"
    and "WinMain m d (second_phase_argv b k) stdin evs fs = Some out"
  shows "g_message (atExit out) =
     truncate_ellipsis (replace_newlines
       (g_message (choose_message (LoadState m d fs k (second_phase_globals b k)))))"
    and "filesAfter out (GetStateFilePath m k) = None" and "exitCode out = 0"
proof -
  let ?g = "normalize_message (choose_message (LoadState m d fs k (second_phase_globals b k)))"
  from assms obtain g2 where g2: "ShowToast m d evs ?g = Some g2"
    and out: "out = \<lparr> exitCode = 0, filesAfter = fs((GetStateFilePath m k) := None),
                 spawned = None, atExit = g2 \<rparr>"
    by (auto simp: WinMain_second_phase split: option.splits)
  from ShowToast_Some [OF g2] have "g_message g2 = g_message ?g"
    by (simp add: settings_def)
  with out show "g_message (atExit out) =
     truncate_ellipsis (replace_newlines
       (g_message (choose_message (LoadState m d fs k (second_phase_globals b k)))))"
    by (simp add: normalize_message_def)
  from out show "filesAfter out (GetStateFilePath m k) = None" "exitCode out = 0"
    by simp_all
qed

subsection \<open>Closing broadcast and reflow\<close>

lemma set_GetOtherToasts:
  "set (GetOtherToasts e h ws) = {w \<in> set ws. EnumToastWindows h w}"
  by (simp add: GetOtherToasts_def Let_def)

lemma posted_prims [simp]:
  "posted (SetTimer t g) = posted g"
  "posted (KillTimer t g) = posted g"
  "posted (DestroyWindow g) = posted g"
  "destroyed (DestroyWindow g)"
  "myRect (SetTimer t g) = myRect g"
  "myRect (DestroyWindow g) = myRect g"
  "g_hwnd (KillTimer t g) = g_hwnd g"
  "g_taskbarEdge (KillTimer t g) = g_taskbarEdge g"
  "timers (SetTimer t g) = insert t (timers g)"
  "g_targetY (SetTimer t g) = g_targetY g"
  by (simp_all add: SetTimer_def KillTimer_def DestroyWindow_def)

lemma closing_posted:
  "posted (NotifyOtherToastsClosing d g) =
     posted g @ map (\<lambda>t. (hwnd t, WM_TOAST_CHECK_POSITION (r_top (myRect g))))
                    (GetOtherToasts (g_taskbarEdge g) (g_hwnd g) (windows d))"
  by (simp add: NotifyOtherToastsClosing_def my_peers_def)

lemma close_toast_posted:
  "destroyed (close_toast d g) \<and>
   posted (close_toast d g) =
     posted g @ map (\<lambda>t. (hwnd t, WM_TOAST_CHECK_POSITION (r_top (myRect g))))
                    (GetOtherToasts (g_taskbarEdge g) (g_hwnd g) (windows d))"
  by (simp add: close_toast_def closing_posted)

lemma lbuttonup_posted:
  "destroyed (on_lbuttonup d x y g) \<and>
   posted (on_lbuttonup d x y g) =
     posted g @ map (\<lambda>t. (hwnd t, WM_TOAST_CHECK_POSITION (r_top (myRect g))))
                    (GetOtherToasts (g_taskbarEdge g) (g_hwnd g) (windows d))"
  by (simp add: on_lbuttonup_def Let_def close_toast_posted closing_posted)

lemma fade_end_posted:
  "\<not> g_alpha g > g_fadeStep g \<Longrightarrow>
   destroyed (on_timer d TIMER_FADE g) \<and>
   posted (on_timer d TIMER_FADE g) =
     posted g @ map (\<lambda>t. (hwnd t, WM_TOAST_CHECK_POSITION (r_top (myRect g))))
                    (GetOtherToasts (g_taskbarEdge g) (g_hwnd g) (windows d))"
  by (simp add: on_timer_def closing_posted)

lemma check_became_bottom_geometry [simp]:
  "myRect (check_became_bottom d g) = myRect g"
  "g_targetY (check_became_bottom d g) = g_targetY g"
  "(TIMER_REPOSITION \<in> timers (check_became_bottom d g)) = (TIMER_REPOSITION \<in> timers g)"
  by (simp_all add: check_became_bottom_def)

lemma on_check_position_farther:
  assumes "if g_taskbarEdge p = ABE_TOP then r_top (myRect p) > closedY
           else r_top (myRect p) < closedY"
  shows "g_targetY (on_check_position d closedY p) =
           (if g_taskbarEdge p = ABE_TOP then r_top (myRect p) - g_windowHeight
            else r_top (myRect p) + g_windowHeight)"
    and "TIMER_REPOSITION \<in> timers (on_check_position d closedY p)"
    and "myRect (on_check_position d closedY p) = myRect p"
  using assms by (simp_all add: on_check_position_def Let_def split: if_splits)

lemma on_check_position_not_farther:
  assumes "\<not> (if g_taskbarEdge p = ABE_TOP then r_top (myRect p) > closedY
              else r_top (myRect p) < closedY)"
  shows "g_targetY (on_check_position d closedY p) = g_targetY p"
    and "(TIMER_REPOSITION \<in> timers (on_check_position d closedY p)) =
         (TIMER_REPOSITION \<in> timers p)"
    and "myRect (on_check_position d closedY p) = myRect p"
  using assms by (simp_all add: on_check_position_def Let_def split: if_splits)

subsection \<open>Pause and resume\<close>

lemma on_pause_timer_pause:
  "w \<noteq> 0 \<Longrightarrow> TIMER_START_FADE \<notin> timers (on_pause_timer w p)"
  "w \<noteq> 0 \<Longrightarrow> g_isFading p \<Longrightarrow>
     g_alpha (on_pause_timer w p) = 230 \<and> \<not> g_isFading (on_pause_timer w p) \<and>
     TIMER_FADE \<notin> timers (on_pause_timer w p)"
  "w \<noteq> 0 \<Longrightarrow> \<not> g_isFading p \<Longrightarrow> on_pause_timer w p = KillTimer TIMER_START_FADE p"
  by (simp_all add: on_pause_timer_def KillTimer_def)

lemma on_pause_timer_resume:
  "g_isBottomToast p \<and> \<not> g_mouseInside p \<Longrightarrow>
     on_pause_timer 0 p = SetTimer TIMER_START_FADE p"
  "\<not> (g_isBottomToast p \<and> \<not> g_mouseInside p) \<Longrightarrow> on_pause_timer 0 p = p"
  by (auto simp add: on_pause_timer_def)

lemma parse_one_flag:
  "parse_args (tl [exe, flag]) mg = set_flag flag mg"
  by simp

subsection \<open>Stacking\<close>

lemma highestTop_le_iff:
  "x \<le> foldl (\<lambda>highestTop t. if r_top (rect t) < highestTop then r_top (rect t)
                                else highestTop) b ts
     \<longleftrightarrow> x \<le> b \<and> (\<forall>t \<in> set ts. x \<le> r_top (rect t))"
  by (induction ts arbitrary: b) auto

lemma highestTop_mem:
  "foldl (\<lambda>highestTop t. if r_top (rect t) < highestTop then r_top (rect t) else highestTop) b ts
     \<in> insert b ((\<lambda>t. r_top (rect t)) ` set ts)"
  by (induction ts arbitrary: b) auto

lemma lowestBottom_ge_iff:
  "foldl (\<lambda>lowestBottom t. if r_bottom (rect t) > lowestBottom then r_bottom (rect t)
                              else lowestBottom) b ts \<le> x
     \<longleftrightarrow> b \<le> x \<and> (\<forall>t \<in> set ts. r_bottom (rect t) \<le> x)"
  by (induction ts arbitrary: b) auto

lemma lowestBottom_mem:
  "foldl (\<lambda>lowestBottom t. if r_bottom (rect t) > lowestBottom then r_bottom (rect t)
                              else lowestBottom) b ts
     \<in> insert b ((\<lambda>t. r_bottom (rect t)) ` set ts)"
  by (induction ts arbitrary: b) auto

lemma CalculateStackedY_bottom:
  assumes "e \<noteq> ABE_TOP"
  shows "CalculateStackedY e wa h ws + g_windowHeight \<le> r_bottom wa"
    and "\<forall>t \<in> set (GetOtherToasts e h ws).
           CalculateStackedY e wa h ws + g_windowHeight \<le> r_top (rect t)"
    and "CalculateStackedY e wa h ws + g_windowHeight = r_bottom wa \<or>
         (\<exists>t \<in> set (GetOtherToasts e h ws).
            CalculateStackedY e wa h ws + g_windowHeight = r_top (rect t))"
proof -
  let ?m = "foldl (\<lambda>highestTop t. if r_top (rect t) < highestTop then r_top (rect t)
                                    else highestTop) (r_bottom wa) (GetOtherToasts e h ws)"
  have y: "CalculateStackedY e wa h ws + g_windowHeight = ?m"
    using assms by (simp add: CalculateStackedY_def Let_def GetBaseY_def)
  have m: "?m \<le> r_bottom wa \<and> (\<forall>t \<in> set (GetOtherToasts e h ws). ?m \<le> r_top (rect t))"
    by (rule iffD1 [OF highestTop_le_iff]) simp
  show "CalculateStackedY e wa h ws + g_windowHeight \<le> r_bottom wa"
    unfolding y using m by blast
  show "\<forall>t \<in> set (GetOtherToasts e h ws).
           CalculateStackedY e wa h ws + g_windowHeight \<le> r_top (rect t)"
    unfolding y using m by blast
  show "CalculateStackedY e wa h ws + g_windowHeight = r_bottom wa \<or>
         (\<exists>t \<in> set (GetOtherToasts e h ws).
            CalculateStackedY e wa h ws + g_windowHeight = r_top (rect t))"
    unfolding y using highestTop_mem [of "r_bottom wa" "GetOtherToasts e h ws"] by blast
qed

lemma CalculateStackedY_top:
  shows "r_top wa \<le> CalculateStackedY ABE_TOP wa h ws"
    and "\<forall>t \<in> set (GetOtherToasts ABE_TOP h ws).
           r_bottom (rect t) \<le> CalculateStackedY ABE_TOP wa h ws"
    and "CalculateStackedY ABE_TOP wa h ws = r_top wa \<or>
         (\<exists>t \<in> set (GetOtherToasts ABE_TOP h ws).
            CalculateStackedY ABE_TOP wa h ws = r_bottom (rect t))"
proof -
  let ?m = "foldl (\<lambda>lowestBottom t. if r_bottom (rect t) > lowestBottom then r_bottom (rect t)
                              else lowestBottom) (r_top wa) (GetOtherToasts ABE_TOP h ws)"
  have y: "CalculateStackedY ABE_TOP wa h ws = ?m"
    by (simp add: CalculateStackedY_def Let_def GetBaseY_def)
  have m: "r_top wa \<le> ?m \<and> (\<forall>t \<in> set (GetOtherToasts ABE_TOP h ws). r_bottom (rect t) \<le> ?m)"
    by (rule iffD1 [OF lowestBottom_ge_iff]) simp
  show "r_top wa \<le> CalculateStackedY ABE_TOP wa h ws"
    unfolding y using m by blast
  show "\<forall>t \<in> set (GetOtherToasts ABE_TOP h ws).
           r_bottom (rect t) \<le> CalculateStackedY ABE_TOP wa h ws"
    unfolding y using m by blast
  show "CalculateStackedY ABE_TOP wa h ws = r_top wa \<or>
         (\<exists>t \<in> set (GetOtherToasts ABE_TOP h ws).
            CalculateStackedY ABE_TOP wa h ws = r_bottom (rect t))"
    unfolding y using lowestBottom_mem [of "r_top wa" "GetOtherToasts ABE_TOP h ws"] by blast
qed

lemma ex_stack_peers:
  "GetOtherToasts ABE_BOTTOM 0 ex_stack = [ex_toast 7 1620 960, ex_toast 8 1620 880]"
  by (simp add: GetOtherToasts_def EnumToastWindows_def ex_stack_def ex_terminal_def
      ex_toast_def ex_rect_def TOAST_CLASS_NAME_def)


lemma CalculateStackedY_bottom_value:
  assumes "e \<noteq> ABE_TOP"
  shows "CalculateStackedY e wa h ws =
     Min (insert (r_bottom wa) ((\<lambda>t. r_top (rect t)) ` set (GetOtherToasts e h ws)))
       - g_windowHeight"
proof -
  let ?A = "insert (r_bottom wa) ((\<lambda>t. r_top (rect t)) ` set (GetOtherToasts e h ws))"
  let ?m = "CalculateStackedY e wa h ws + g_windowHeight"
  note c = CalculateStackedY_bottom [OF assms, where wa = wa and h = h and ws = ws]
  have "Min ?A = ?m"
  proof (rule Min_eqI)
    show "finite ?A" by simp
    show "?m \<le> y" if "y \<in> ?A" for y using that c(1,2) by auto
    show "?m \<in> ?A" using c(3) by auto
  qed
  then show ?thesis by simp
qed

lemma CalculateStackedY_top_value:
  "CalculateStackedY ABE_TOP wa h ws =
     Max (insert (r_top wa) ((\<lambda>t. r_bottom (rect t)) ` set (GetOtherToasts ABE_TOP h ws)))"
proof -
  let ?A = "insert (r_top wa) ((\<lambda>t. r_bottom (rect t)) ` set (GetOtherToasts ABE_TOP h ws))"
  let ?m = "CalculateStackedY ABE_TOP wa h ws"
  note c = CalculateStackedY_top [where wa = wa and h = h and ws = ws]
  have "Max ?A = ?m"
  proof (rule Max_eqI)
    show "finite ?A" by simp
    show "y \<le> ?m" if "y \<in> ?A" for y using that c(1,2) by auto
    show "?m \<in> ?A" using c(3) by auto
  qed
  then show ?thesis by simp
qed

subsection \<open>The bottom toast\<close>

lemma IsBottomToast_iff:
  "IsBottomToast e h r ws \<longleftrightarrow>
     \<not> (\<exists>t \<in> set ws. hwnd t \<noteq> h \<and> className t = TOAST_CLASS_NAME \<and> visible t \<and>
           (if e = ABE_TOP then r_top (rect t) < r_top r else r_bottom (rect t) > r_bottom r))"
proof -
  have "set (GetOtherToasts e h ws) =
      {t \<in> set ws. hwnd t \<noteq> h \<and> className t = TOAST_CLASS_NAME \<and> visible t}"
    by (simp add: set_GetOtherToasts EnumToastWindows_def)
  moreover have "IsBottomToast e h r ws \<longleftrightarrow>
      \<not> (\<exists>t \<in> set (GetOtherToasts e h ws).
            (if e = ABE_TOP then r_top (rect t) < r_top r else r_bottom (rect t) > r_bottom r))"
    by (cases "GetOtherToasts e h ws = []") (simp_all add: IsBottomToast_def Let_def list_ex_iff)
  ultimately show ?thesis by auto
qed

lemma anchor_iff:
  "w \<in> set (anchors e ws) \<longleftrightarrow>
     w \<in> set (live_toasts ws) \<and>
     (\<forall>t \<in> set (live_toasts ws). hwnd t \<noteq> hwnd w \<longrightarrow> edge_coordinate e t \<le> edge_coordinate e w)"
  by (auto simp: anchors_def IsBottomToast_iff live_toasts_def edge_coordinate_def
           split: if_splits)

lemma anchor_exists:
  assumes "live_toasts ws \<noteq> []"
  shows "anchors e ws \<noteq> []"
proof -
  let ?C = "edge_coordinate e ` set (live_toasts ws)"
  have fin: "finite ?C" and ne: "?C \<noteq> {}" using assms by simp_all
  from Max_in [OF fin ne] obtain w where w: "w \<in> set (live_toasts ws)"
    and m: "edge_coordinate e w = Max ?C" by auto
  have "\<forall>t \<in> set (live_toasts ws). edge_coordinate e t \<le> edge_coordinate e w"
    using Max_ge [OF fin] m by simp
  with w have "w \<in> set (anchors e ws)" by (simp add: anchor_iff)
  then show ?thesis by auto
qed

lemma anchor_unique:
  assumes dh: "distinct (map hwnd (live_toasts ws))"
    and dc: "distinct (map (edge_coordinate e) (live_toasts ws))"
    and a: "a \<in> set (anchors e ws)" and b: "b \<in> set (anchors e ws)"
  shows "a = b"
proof (rule ccontr)
  assume ne: "a \<noteq> b"
  from a b have la: "a \<in> set (live_toasts ws)" and lb: "b \<in> set (live_toasts ws)"
    by (simp_all add: anchor_iff)
  from dh have ih: "inj_on hwnd (set (live_toasts ws))" by (simp add: distinct_map)
  from dc have ic: "inj_on (edge_coordinate e) (set (live_toasts ws))" by (simp add: distinct_map)
  from ih la lb ne have h: "hwnd a \<noteq> hwnd b" by (auto dest: inj_onD)
  from ic la lb ne have c: "edge_coordinate e a \<noteq> edge_coordinate e b" by (auto dest: inj_onD)
  from a lb h have "edge_coordinate e b \<le> edge_coordinate e a" by (auto simp: anchor_iff)
  moreover from b la h have "edge_coordinate e a \<le> edge_coordinate e b" by (auto simp: anchor_iff)
  ultimately show False using c by simp
qed

lemma single_anchor:
  assumes "live_toasts ws \<noteq> []"
    and dh: "distinct (map hwnd (live_toasts ws))"
    and dc: "distinct (map (edge_coordinate e) (live_toasts ws))"
  shows "\<exists>a. anchors e ws = [a]"
proof -
  from dh have "distinct (live_toasts ws)" by (rule distinct_map [THEN iffD1, THEN conjunct1])
  then have d: "distinct (anchors e ws)" by (simp add: anchors_def)
  from anchor_exists [OF assms(1)] obtain a as where as: "anchors e ws = a # as"
    by (cases "anchors e ws") auto
  have "as = []"
  proof (cases as)
    case Nil
    then show ?thesis .
  next
    case (Cons b bs)
    with as have "a \<in> set (anchors e ws)" "b \<in> set (anchors e ws)" by simp_all
    from anchor_unique [OF dh dc this] have "a = b" .
    with d as Cons show ?thesis by simp
  qed
  with as show ?thesis by simp
qed

lemma ex_stack_live:
  "live_toasts ex_stack = [ex_toast 8 1620 880, ex_toast 7 1620 960]"
  by (simp add: live_toasts_def ex_stack_def ex_terminal_def ex_toast_def TOAST_CLASS_NAME_def)


lemma anchors_extreme:
  assumes dh: "distinct (map hwnd (live_toasts ws))"
  shows "set (anchors e ws) =
     {w \<in> set (live_toasts ws).
        \<forall>t \<in> set (live_toasts ws). edge_coordinate e t \<le> edge_coordinate e w}"
proof -
  from dh have ih: "inj_on hwnd (set (live_toasts ws))" by (simp add: distinct_map)
  have "(\<forall>t \<in> set (live_toasts ws). hwnd t \<noteq> hwnd w \<longrightarrow> edge_coordinate e t \<le> edge_coordinate e w)
      \<longleftrightarrow> (\<forall>t \<in> set (live_toasts ws). edge_coordinate e t \<le> edge_coordinate e w)"
    if "w \<in> set (live_toasts ws)" for w
  proof -
    have "t = w" if "t \<in> set (live_toasts ws)" "hwnd t = hwnd w" for t
      using ih that \<open>w \<in> set (live_toasts ws)\<close> by (auto dest: inj_onD)
    then show ?thesis by auto
  qed
  then show ?thesis by (auto simp: anchor_iff)
qed

subsection \<open>Printing and reading a window handle\<close>

lemma digit_char_props:
  assumes "d < 10"
  shows "is_digit (digit_char d)" and "digit_val (digit_char d) = int d"
    and "digit_char d \<noteq> LF" and "digit_char d \<noteq> CR" and "\<not> is_space (digit_char d)"
    and "digit_char d \<noteq> CHR ''-''" and "digit_char d \<noteq> CHR ''+''"
proof -
  have v: "of_char (digit_char d) = 48 + d"
    using assms by (simp add: digit_char_def)
  show "is_digit (digit_char d)" using assms by (simp add: is_digit_def v)
  show "digit_val (digit_char d) = int d" by (simp add: digit_val_def v)
  have "of_char (digit_char d) \<noteq> (of_char LF :: nat)" "of_char (digit_char d) \<noteq> (of_char CR :: nat)"
    "of_char (digit_char d) \<noteq> (of_char (CHR ''-'') :: nat)"
    "of_char (digit_char d) \<noteq> (of_char (CHR ''+'') :: nat)"
    "of_char (digit_char d) \<noteq> (of_char (CHR '' '') :: nat)"
    unfolding v using assms by (simp_all add: LF_def CR_def)
  then have ne: "digit_char d \<noteq> LF" "digit_char d \<noteq> CR" "digit_char d \<noteq> CHR ''-''"
    "digit_char d \<noteq> CHR ''+''" "digit_char d \<noteq> CHR '' ''"
    by auto
  from ne show "digit_char d \<noteq> LF" "digit_char d \<noteq> CR" "digit_char d \<noteq> CHR ''-''"
    "digit_char d \<noteq> CHR ''+''"
    by simp_all
  show "\<not> is_space (digit_char d)" using ne(5) assms by (simp add: is_space_def v)
qed

lemma to_decimal_digits: "c \<in> set (to_decimal n) \<Longrightarrow> \<exists>d<10. c = digit_char d"
proof (induction n rule: to_decimal.induct)
  case (1 n)
  show ?case
  proof (cases "n < 10")
    case True
    with "1.prems" show ?thesis by (subst (asm) to_decimal.simps) auto
  next
    case False
    with "1.prems" have "c \<in> set (to_decimal (n div 10)) \<or> c = digit_char (n mod 10)"
      by (subst (asm) to_decimal.simps) auto
    with "1.IH" [OF False] show ?thesis by (auto intro: exI [of _ "n mod 10"])
  qed
qed

lemma to_decimal_nonempty: "to_decimal n \<noteq> []"
  by (subst to_decimal.simps) simp

lemma to_decimal_all_digits: "takeWhile is_digit (to_decimal n) = to_decimal n"
  by (rule takeWhile_eq_all_conv [THEN iffD2]) (auto dest: to_decimal_digits simp: digit_char_props)

lemma to_decimal_value:
  "foldl (\<lambda>acc c. acc * 10 + digit_val c) 0 (to_decimal n) = int n"
proof (induction n rule: to_decimal.induct)
  case (1 n)
  show ?case
  proof (cases "n < 10")
    case True
    then show ?thesis by (subst to_decimal.simps) (simp add: digit_char_props)
  next
    case False
    have "foldl (\<lambda>acc c. acc * 10 + digit_val c) 0 (to_decimal n)
        = int (n div 10) * 10 + int (n mod 10)"
      using False "1.IH" [OF False]
      by (subst to_decimal.simps) (simp add: digit_char_props)
    also have "\<dots> = int n" by (simp add: of_nat_div of_nat_mod)
    finally show ?thesis .
  qed
qed

lemma parse_digits_to_decimal: "parse_digits (to_decimal n) = int n"
  by (simp add: parse_digits_def to_decimal_all_digits to_decimal_value)

lemma to_decimal_length: "n < 10 ^ k \<Longrightarrow> 0 < k \<Longrightarrow> length (to_decimal n) \<le> k"
proof (induction n arbitrary: k rule: to_decimal.induct)
  case (1 n)
  show ?case
  proof (cases "n < 10")
    case True
    with "1.prems" show ?thesis by (subst to_decimal.simps) simp
  next
    case False
    with "1.prems" obtain j where k: "k = Suc j" by (cases k) auto
    with False "1.prems" have "0 < j" by (cases j) auto
    moreover from "1.prems" k have "n div 10 < 10 ^ j" by (simp add: less_mult_imp_div_less mult.commute)
    ultimately have "length (to_decimal (n div 10)) \<le> j" using "1.IH" [OF False] by blast
    with False k show ?thesis by (subst to_decimal.simps) simp
  qed
qed

lemma print_lld_chars:
  "c \<in> set (print_lld i) \<Longrightarrow> c = CHR ''-'' \<or> (\<exists>d<10. c = digit_char d)"
  by (auto simp: print_lld_def dest: to_decimal_digits split: if_splits)

lemma print_lld_no_newline: "LF \<notin> set (print_lld i)" "CR \<notin> set (print_lld i)"
proof -
  have "LF \<noteq> CHR ''-''" "CR \<noteq> CHR ''-''" by (simp_all add: LF_def CR_def)
  moreover have "\<not> (\<exists>d<10. LF = digit_char d)" "\<not> (\<exists>d<10. CR = digit_char d)"
    using digit_char_props(3,4) by metis+
  ultimately show "LF \<notin> set (print_lld i)" "CR \<notin> set (print_lld i)"
    using print_lld_chars [of LF i] print_lld_chars [of CR i] by blast+
qed

lemma print_lld_nonempty: "print_lld i \<noteq> []"
  by (simp add: print_lld_def to_decimal_nonempty)

lemma print_lld_length:
  assumes "LLONG_MIN \<le> i" "i \<le> LLONG_MAX"
  shows "length (print_lld i) \<le> 20"
proof -
  have "nat \<bar>i\<bar> < 10 ^ 19" using assms by (simp add: LLONG_MIN_def LLONG_MAX_def)
  then have "length (to_decimal (nat \<bar>i\<bar>)) \<le> 19" by (rule to_decimal_length) simp
  then show ?thesis by (auto simp: print_lld_def abs_if)
qed

lemma hd_to_decimal: "\<exists>d<10. \<exists>cs. to_decimal n = digit_char d # cs"
proof -
  obtain c cs where e: "to_decimal n = c # cs"
    using to_decimal_nonempty [of n] by (cases "to_decimal n") auto
  then have "c \<in> set (to_decimal n)" by simp
  from to_decimal_digits [OF this] e show ?thesis by auto
qed

lemma wtoi64_print_lld:
  assumes "LLONG_MIN \<le> i" "i \<le> LLONG_MAX"
  shows "wtoi64 (print_lld i) = i"
proof (cases "i < 0")
  case True
  then have p: "print_lld i = CHR ''-'' # to_decimal (nat (- i))" by (simp add: print_lld_def)
  have "\<not> is_space (CHR ''-'')" by (simp add: is_space_def)
  then have "wtoi64 (print_lld i) = max LLONG_MIN (- parse_digits (to_decimal (nat (- i))))"
    by (simp add: wtoi64_def p)
  also have "\<dots> = i" using True assms by (simp add: parse_digits_to_decimal)
  finally show ?thesis .
next
  case False
  then have p: "print_lld i = to_decimal (nat i)" by (simp add: print_lld_def)
  from hd_to_decimal [of "nat i"] obtain d cs where d: "d < 10"
    and e: "to_decimal (nat i) = digit_char d # cs" by blast
  have "wtoi64 (digit_char d # cs) = min LLONG_MAX (parse_digits (digit_char d # cs))"
    using d by (simp add: wtoi64_def digit_char_props)
  then have "wtoi64 (print_lld i) = min LLONG_MAX (parse_digits (to_decimal (nat i)))"
    by (simp add: p e)
  also have "\<dots> = i" using False assms by (simp add: parse_digits_to_decimal)
  finally show ?thesis .
qed

lemma sint_64_range: "LLONG_MIN \<le> sint (h :: HWND)" "sint (h :: HWND) \<le> LLONG_MAX"
  using sint_ge [of h] sint_lt [of h] by (simp_all add: LLONG_MIN_def LLONG_MAX_def)

lemma hwnd_roundtrip: "(word_of_int (wtoi64 (print_lld (sint (h :: HWND)))) :: HWND) = h"
  by (simp add: wtoi64_print_lld sint_64_range)

subsection \<open>The state file\<close>

lemma fgetws_chars_line:
  "LF \<notin> set l \<Longrightarrow> length l < n \<Longrightarrow> fgetws_chars n (l @ LF # rest) = (l @ [LF], rest)"
  by (induction l arbitrary: n) auto

lemma strip_eol_append_LF: "strip_eol (l @ [LF]) = strip_eol l"
  by (simp add: strip_eol_def)

lemma strip_eol_id: "l = [] \<or> (last l \<noteq> LF \<and> last l \<noteq> CR) \<Longrightarrow> strip_eol l = l"
  by (cases l rule: rev_cases) (auto simp: strip_eol_def)

lemma strip_eol_no_LF: "LF \<notin> set l \<Longrightarrow> LF \<notin> set (strip_eol l)"
  unfolding strip_eol_def using set_dropWhileD [of LF _ "rev l"] by force

lemma read_line_line:
  assumes "LF \<notin> set l" "length l \<le> 2046"
  shows "read_line (l @ LF # rest) = Some (strip_eol l, rest)"
proof -
  have "fgetws_chars 2047 (l @ LF # rest) = (l @ [LF], rest)"
    using assms by (intro fgetws_chars_line) simp_all
  then show ?thesis
    by (simp add: read_line_def fgetws_def strip_eol_append_LF)
qed

lemma with_line_line:
  assumes "LF \<notin> set l" "length l \<le> 2046"
  shows "with_line f (g, l @ LF # rest) = (f (strip_eol l) g, rest)"
  by (simp add: with_line_def read_line_line [OF assms])

lemma first_line_split: "\<exists>rest. t @ [LF] = first_line t @ LF # rest"
proof -
  have "t @ [LF] = takeWhile (\<lambda>c. c \<noteq> LF) (t @ [LF]) @ dropWhile (\<lambda>c. c \<noteq> LF) (t @ [LF])"
    by simp
  moreover have "takeWhile (\<lambda>c. c \<noteq> LF) (t @ [LF]) = first_line t"
    by (simp add: first_line_def takeWhile_tail)
  moreover have "dropWhile (\<lambda>c. c \<noteq> LF) (t @ [LF]) \<noteq> []"
    by (simp add: dropWhile_eq_Nil_conv)
  moreover have "hd (dropWhile (\<lambda>c. c \<noteq> LF) (t @ [LF])) = LF"
    using hd_dropWhile [of "\<lambda>c. c \<noteq> LF" "t @ [LF]"] calculation(3) by auto
  ultimately show ?thesis
    by (metis list.collapse)
qed

lemma first_line_no_LF: "LF \<notin> set (first_line t)"
  unfolding first_line_def using set_takeWhileD [of LF "\<lambda>c. c \<noteq> LF" t] by blast

lemma first_line_id: "LF \<notin> set t \<Longrightarrow> first_line t = t"
  by (auto simp add: first_line_def takeWhile_eq_all_conv)

lemma first_line_prefix: "LF \<notin> set p \<Longrightarrow> first_line (p @ LF # rest) = p"
  by (auto simp add: first_line_def takeWhile_tail)

lemma GetRuntimeIdString_chars:
  "c \<in> set (foldl (\<lambda>result v. (if result \<noteq> [] then result @ ''.'' else result) @ print_lld v) acc ids)
   \<Longrightarrow> c \<in> set acc \<or> c = CHR ''.'' \<or> (\<exists>v. c \<in> set (print_lld v))"
proof (induction ids arbitrary: acc)
  case Nil
  then show ?case by simp
next
  case (Cons v ids)
  from Cons.IH [of "(if acc \<noteq> [] then acc @ ''.'' else acc) @ print_lld v"] Cons.prems
  have "c \<in> set ((if acc \<noteq> [] then acc @ ''.'' else acc) @ print_lld v) \<or> c = CHR ''.'' \<or>
      (\<exists>v. c \<in> set (print_lld v))"
    by simp
  then show ?case by (auto split: if_splits)
qed

lemma GetRuntimeIdString_no_LF: "LF \<notin> set (GetRuntimeIdString ids)"
proof
  assume "LF \<in> set (GetRuntimeIdString ids)"
  then have "LF = CHR ''.'' \<or> (\<exists>v. LF \<in> set (print_lld v))"
    unfolding GetRuntimeIdString_def by (auto dest: GetRuntimeIdString_chars)
  then show False using print_lld_no_newline(1) by (auto simp: LF_def)
qed

lemma selected_tab_no_LF: "LF \<notin> set (selected_tab ts)"
  by (induction ts) (simp_all add: GetRuntimeIdString_no_LF)

lemma saved_runtimeId_no_LF: "LF \<notin> set (saved_runtimeId d h)"
  by (simp add: saved_runtimeId_def selected_tab_no_LF)

lemma SaveState_file:
  assumes "ExtractJsonStringValue stdin ''session_id'' = k" "k \<noteq> []" "stateFileWritable m"
  shows "SaveState m d stdin fs (GetStateFilePath m k) =
     Some (print_lld (sint (captured_hwnd m d)) @ [LF] @
           saved_runtimeId d (captured_hwnd m d) @ [LF] @
           callerExePath m @ [LF] @
           ExtractJsonStringValue stdin ''prompt'' @ [LF])"
  using assms by (simp add: SaveState_def Let_def)

lemma LoadState_saved:
  assumes stored: "fs (GetStateFilePath m k) =
     Some (print_lld (sint (S :: HWND)) @ [LF] @ rid @ [LF] @ exe @ [LF] @ t @ [LF])"
    and rid: "LF \<notin> set rid" "length rid \<le> 2046"
    and exe: "LF \<notin> set exe" "length exe \<le> 2046"
    and t: "length (first_line t) \<le> 2046"
  shows "LoadState m d fs k g =
     load_userPrompt (strip_eol (first_line t))
       (load_iconPath (strip_eol exe)
         (load_runtimeId (strip_eol rid)
           (load_hwnd d (print_lld (sint S)) g)))"
proof -
  let ?l1 = "print_lld (sint S)"
  have l1: "LF \<notin> set ?l1" "length ?l1 \<le> 2046"
    using print_lld_no_newline(1) [of "sint S"] print_lld_length [OF sint_64_range, of S]
    by simp_all
  have s1: "strip_eol ?l1 = ?l1"
  proof (rule strip_eol_id, rule disjI2)
    have "last ?l1 \<in> set ?l1" using print_lld_nonempty by (rule last_in_set)
    then show "last ?l1 \<noteq> LF \<and> last ?l1 \<noteq> CR"
      using print_lld_no_newline [of "sint S"] by metis
  qed
  obtain rest where r: "t @ [LF] = first_line t @ LF # rest"
    using first_line_split by blast
  have 1: "with_line (load_hwnd d) (g, ?l1 @ [LF] @ rid @ [LF] @ exe @ [LF] @ t @ [LF])
      = (load_hwnd d ?l1 g, rid @ [LF] @ exe @ [LF] @ t @ [LF])"
    using with_line_line [OF l1, of "load_hwnd d" g] s1 by simp
  have 2: "with_line load_runtimeId (g1, rid @ [LF] @ exe @ [LF] @ t @ [LF])
      = (load_runtimeId (strip_eol rid) g1, exe @ [LF] @ t @ [LF])" for g1
    using with_line_line [OF rid, of load_runtimeId g1] by simp
  have 3: "with_line load_iconPath (g2, exe @ [LF] @ t @ [LF])
      = (load_iconPath (strip_eol exe) g2, t @ [LF])" for g2
    using with_line_line [OF exe, of load_iconPath g2] by simp
  have 4: "with_line load_userPrompt (g3, t @ [LF])
      = (load_userPrompt (strip_eol (first_line t)) g3, rest)" for g3
    unfolding r using with_line_line [OF first_line_no_LF t, of load_userPrompt g3 rest] by simp
  show ?thesis
    by (simp only: LoadState_def stored option.case 1 2 3 4 fst_conv)
qed

lemma fgetws_chars_fst:
  "LF \<notin> set l \<Longrightarrow> fst (fgetws_chars n (l @ LF # rest)) = take n (l @ [LF])"
proof (induction l arbitrary: n)
  case Nil
  then show ?case by (cases n) simp_all
next
  case (Cons c l)
  have f: "fst (case p of (x, r) \<Rightarrow> (c # x, r)) = c # fst p" for p :: "string \<times> string"
    by (cases p) simp
  show ?case
  proof (cases n)
    case 0
    then show ?thesis by simp
  next
    case (Suc m)
    from Cons.prems have "c \<noteq> LF" "LF \<notin> set l" by auto
    with Cons.IH [of m] Suc show ?thesis by (simp add: f)
  qed
qed

lemma with_line_fst:
  assumes "LF \<notin> set l"
  shows "fst (with_line f (g, l @ LF # rest)) = f (strip_eol (take 2047 (l @ [LF]))) g"
proof -
  obtain line r where lr: "fgetws_chars 2047 (l @ LF # rest) = (line, r)"
    by (cases "fgetws_chars 2047 (l @ LF # rest)") auto
  with fgetws_chars_fst [OF assms, of 2047 rest] have "line = take 2047 (l @ [LF])" by simp
  with lr show ?thesis
    by (simp add: with_line_def read_line_def fgetws_def)
qed

lemma strip_eol_take_line:
  "length l \<le> 2046 \<Longrightarrow> strip_eol (take 2047 (l @ [LF])) = strip_eol l"
  by (simp add: strip_eol_append_LF)

lemma strip_eol_take_no_LF:
  assumes "LF \<notin> set l"
  shows "LF \<notin> set (strip_eol (take n (l @ [LF])))"
proof (cases "n \<le> length l")
  case True
  then have "take n (l @ [LF]) = take n l" by simp
  moreover have "LF \<notin> set (take n l)" using assms by (auto dest: in_set_takeD)
  ultimately show ?thesis by (simp add: strip_eol_no_LF)
next
  case False
  then have "take n (l @ [LF]) = l @ [LF]" by simp
  then show ?thesis using assms by (simp add: strip_eol_append_LF strip_eol_no_LF)
qed

lemma LoadState_saved_any:
  assumes stored: "fs (GetStateFilePath m k) =
     Some (print_lld (sint (S :: HWND)) @ [LF] @ rid @ [LF] @ exe @ [LF] @ t @ [LF])"
    and rid: "LF \<notin> set rid" "length rid \<le> 2046"
    and exe: "LF \<notin> set exe" "length exe \<le> 2046"
  shows "LoadState m d fs k g =
     load_userPrompt (strip_eol (take 2047 (first_line t @ [LF])))
       (load_iconPath (strip_eol exe)
         (load_runtimeId (strip_eol rid)
           (load_hwnd d (print_lld (sint S)) g)))"
proof -
  let ?l1 = "print_lld (sint S)"
  have l1: "LF \<notin> set ?l1" "length ?l1 \<le> 2046"
    using print_lld_no_newline(1) [of "sint S"] print_lld_length [OF sint_64_range, of S]
    by simp_all
  have s1: "strip_eol ?l1 = ?l1"
  proof (rule strip_eol_id, rule disjI2)
    have "last ?l1 \<in> set ?l1" using print_lld_nonempty by (rule last_in_set)
    then show "last ?l1 \<noteq> LF \<and> last ?l1 \<noteq> CR"
      using print_lld_no_newline [of "sint S"] by metis
  qed
  obtain rest where r: "t @ [LF] = first_line t @ LF # rest"
    using first_line_split by blast
  have 1: "with_line (load_hwnd d) (g, ?l1 @ [LF] @ rid @ [LF] @ exe @ [LF] @ t @ [LF])
      = (load_hwnd d ?l1 g, rid @ [LF] @ exe @ [LF] @ t @ [LF])"
    using with_line_line [OF l1, of "load_hwnd d" g] s1 by simp
  have 2: "with_line load_runtimeId (g1, rid @ [LF] @ exe @ [LF] @ t @ [LF])
      = (load_runtimeId (strip_eol rid) g1, exe @ [LF] @ t @ [LF])" for g1
    using with_line_line [OF rid, of load_runtimeId g1] by simp
  have 3: "with_line load_iconPath (g2, exe @ [LF] @ t @ [LF])
      = (load_iconPath (strip_eol exe) g2, t @ [LF])" for g2
    using with_line_line [OF exe, of load_iconPath g2] by simp
  have 4: "fst (with_line load_userPrompt (g3, t @ [LF]))
      = load_userPrompt (strip_eol (take 2047 (first_line t @ [LF]))) g3" for g3
    unfolding r by (rule with_line_fst [OF first_line_no_LF])
  show ?thesis
    by (simp only: LoadState_def stored option.case 1 2 3 4)
qed

lemma load_hwnd_roundtrip:
  "S \<noteq> 0 \<Longrightarrow> IsWindow d S \<Longrightarrow>
   g_targetWindowHandle (load_hwnd d (print_lld (sint S)) g) = S \<and>
   (g_wtWindowHandle (load_hwnd d (print_lld (sint S)) g) = S \<or>
    g_wtWindowHandle (load_hwnd d (print_lld (sint S)) g) = g_wtWindowHandle g)"
  by (simp add: load_hwnd_def hwnd_roundtrip Let_def)

subsection \<open>Record, then show\<close>

lemma dispatch_all_snoc:
  "dispatch_all (evs @ [ev]) g =
     (if destroyed (dispatch_all evs g) then dispatch_all evs g
      else WndProc (fst ev) (snd ev) (dispatch_all evs g))"
  by (induction evs arbitrary: g) simp_all

lemma ShowToast_None:
  assumes "ShowToast m d evs g = None"
  shows "g_hwnd (create_toast m d g) \<noteq> 0" and "\<not> destroyed (dispatch_all evs (create_toast m d g))"
  using assms by (auto simp: ShowToast_def message_loop_def Let_def split: if_splits)

lemma ShowToast_then_click:
  assumes "ShowToast m d evs g = None"
  shows "ShowToast m d (evs @ [(d3, WM_LBUTTONUP x y)]) g =
     Some (on_lbuttonup d3 x y (dispatch_all evs (create_toast m d g)))"
  using ShowToast_None [OF assms]
  by (simp add: ShowToast_def message_loop_def Let_def dispatch_all_snoc)

lemma ActivateWindow_target:
  assumes "g_targetWindowHandle g = S" "g_wtWindowHandle g = S \<or> g_wtWindowHandle g = 0"
    "S \<noteq> 0" "IsWindow d S"
  shows "SetForegroundWindow S \<in> set (ActivateWindow d g)"
  using assms
  by (auto simp: ActivateWindow_def SwitchToWindowsTerminalTab_def force_foreground_def)

lemma load_keeps:
  "g_targetWindowHandle (load_runtimeId l g) = g_targetWindowHandle g"
  "g_wtWindowHandle (load_runtimeId l g) = g_wtWindowHandle g"
  "g_userPrompt (load_runtimeId l g) = g_userPrompt g"
  "g_inputMode (load_runtimeId l g) = g_inputMode g"
  "g_targetWindowHandle (load_iconPath l g) = g_targetWindowHandle g"
  "g_wtWindowHandle (load_iconPath l g) = g_wtWindowHandle g"
  "g_userPrompt (load_iconPath l g) = g_userPrompt g"
  "g_inputMode (load_iconPath l g) = g_inputMode g"
  "g_targetWindowHandle (load_userPrompt l g) = g_targetWindowHandle g"
  "g_wtWindowHandle (load_userPrompt l g) = g_wtWindowHandle g"
  "g_inputMode (load_userPrompt l g) = g_inputMode g"
  "g_userPrompt (load_userPrompt l g) = (if l = [] then g_userPrompt g else l)"
  "g_userPrompt (load_hwnd d l g) = g_userPrompt g"
  "g_inputMode (load_hwnd d l g) = g_inputMode g"
  by (simp_all add: load_runtimeId_def load_iconPath_def load_userPrompt_def load_hwnd_def Let_def)

lemma second_phase_fields:
  "g_userPrompt (second_phase_globals b k) = []"
  "g_inputMode (second_phase_globals b k) = b"
  "g_targetWindowHandle (second_phase_globals b k) = 0"
  "g_wtWindowHandle (second_phase_globals b k) = 0"
  "calls (second_phase_globals b k) = []"
  "destroyed (second_phase_globals b k) = False"
  by (simp_all add: second_phase_globals_def initial_globals_def)

text \<open>What the second-phase process loads after a record invocation for the same
  session.\<close>

lemma load_after_record:
  assumes key: "ExtractJsonStringValue stdin ''session_id'' = k" "k \<noteq> []"
    and writable: "stateFileWritable m1"
    and env: "tempPath m2 = tempPath m1" "LF \<notin> set (callerExePath m1)"
      "length (callerExePath m1) \<le> 2046"
      "length (saved_runtimeId d1 (captured_hwnd m1 d1)) \<le> 2046"
    and len: "length (first_line (ExtractJsonStringValue stdin ''prompt'')) \<le> 2046"
  shows "LoadState m2 d2 (SaveState m1 d1 stdin fs0) k g =
     load_userPrompt (strip_eol (first_line (ExtractJsonStringValue stdin ''prompt'')))
       (load_iconPath (strip_eol (callerExePath m1))
         (load_runtimeId (strip_eol (saved_runtimeId d1 (captured_hwnd m1 d1)))
           (load_hwnd d2 (print_lld (sint (captured_hwnd m1 d1))) g)))"
proof -
  have p: "GetStateFilePath m2 k = GetStateFilePath m1 k"
    using env(1) by (simp add: GetStateFilePath_def)
  have f: "SaveState m1 d1 stdin fs0 (GetStateFilePath m2 k) =
     Some (print_lld (sint (captured_hwnd m1 d1)) @ [LF] @
           saved_runtimeId d1 (captured_hwnd m1 d1) @ [LF] @
           callerExePath m1 @ [LF] @
           ExtractJsonStringValue stdin ''prompt'' @ [LF])"
    unfolding p by (rule SaveState_file [OF key writable])
  show ?thesis
    by (rule LoadState_saved
          [where fs = "SaveState m1 d1 stdin fs0" and m = m2 and k = k,
           OF f saved_runtimeId_no_LF env(4) env(2) env(3) len])
qed

lemma message_after_record:
  assumes key: "ExtractJsonStringValue stdin ''session_id'' = k" "k \<noteq> []"
    and writable: "stateFileWritable m1"
    and env: "tempPath m2 = tempPath m1" "LF \<notin> set (callerExePath m1)"
      "length (callerExePath m1) \<le> 2046"
      "length (saved_runtimeId d1 (captured_hwnd m1 d1)) \<le> 2046"
    and len: "length (first_line (ExtractJsonStringValue stdin ''prompt'')) \<le> 2046"
    and out: "WinMain m2 d2 (second_phase_argv b k) stdin2 evs (SaveState m1 d1 stdin fs0) = Some out"
  shows "g_message (atExit out) =
     (if strip_eol (first_line (ExtractJsonStringValue stdin ''prompt'')) = []
      then (if b then ''Claude needs your input'' else ''Task completed'')
      else truncate_ellipsis (replace_newlines
             (strip_eol (first_line (ExtractJsonStringValue stdin ''prompt'')))))"
proof -
  let ?p = "strip_eol (first_line (ExtractJsonStringValue stdin ''prompt''))"
  let ?L = "LoadState m2 d2 (SaveState m1 d1 stdin fs0) k (second_phase_globals b k)"
  have L: "g_userPrompt ?L = ?p" "g_inputMode ?L = b"
    unfolding load_after_record [OF key writable env len]
    by (simp_all add: load_keeps second_phase_fields)
  have "g_message (choose_message ?L) =
     (if ?p = [] then (if b then ''Claude needs your input'' else ''Task completed'') else ?p)"
    unfolding choose_message_def L by (cases b) simp_all
  moreover have "truncate_ellipsis (replace_newlines ''Claude needs your input'') = ''Claude needs your input''"
    "truncate_ellipsis (replace_newlines ''Task completed'') = ''Task completed''"
    by (simp_all add: truncate_ellipsis_def replace_newlines_def maxLen_def LF_def CR_def)
  ultimately show ?thesis
    using show_message(1) [OF key(2) out] by simp
qed

lemma load_after_record_any:
  assumes key: "ExtractJsonStringValue stdin ''session_id'' = k" "k \<noteq> []"
    and writable: "stateFileWritable m1"
    and env: "tempPath m2 = tempPath m1" "LF \<notin> set (callerExePath m1)"
      "length (callerExePath m1) \<le> 2046"
      "length (saved_runtimeId d1 (captured_hwnd m1 d1)) \<le> 2046"
  shows "LoadState m2 d2 (SaveState m1 d1 stdin fs0) k g =
     load_userPrompt
       (strip_eol (take 2047 (first_line (ExtractJsonStringValue stdin ''prompt'') @ [LF])))
       (load_iconPath (strip_eol (callerExePath m1))
         (load_runtimeId (strip_eol (saved_runtimeId d1 (captured_hwnd m1 d1)))
           (load_hwnd d2 (print_lld (sint (captured_hwnd m1 d1))) g)))"
proof -
  have p: "GetStateFilePath m2 k = GetStateFilePath m1 k"
    using env(1) by (simp add: GetStateFilePath_def)
  have f: "SaveState m1 d1 stdin fs0 (GetStateFilePath m2 k) =
     Some (print_lld (sint (captured_hwnd m1 d1)) @ [LF] @
           saved_runtimeId d1 (captured_hwnd m1 d1) @ [LF] @
           callerExePath m1 @ [LF] @
           ExtractJsonStringValue stdin ''prompt'' @ [LF])"
    unfolding p by (rule SaveState_file [OF key writable])
  show ?thesis
    by (rule LoadState_saved_any
          [where fs = "SaveState m1 d1 stdin fs0" and m = m2 and k = k,
           OF f saved_runtimeId_no_LF env(4) env(2) env(3)])
qed

lemma message_after_record_any:
  assumes key: "ExtractJsonStringValue stdin ''session_id'' = k" "k \<noteq> []"
    and writable: "stateFileWritable m1"
    and env: "tempPath m2 = tempPath m1" "LF \<notin> set (callerExePath m1)"
      "length (callerExePath m1) \<le> 2046"
      "length (saved_runtimeId d1 (captured_hwnd m1 d1)) \<le> 2046"
    and out: "WinMain m2 d2 (second_phase_argv b k) stdin2 evs (SaveState m1 d1 stdin fs0) = Some out"
  shows "g_message (atExit out) =
     (if strip_eol (take 2047 (first_line (ExtractJsonStringValue stdin ''prompt'') @ [LF])) = []
      then (if b then ''Claude needs your input'' else ''Task completed'')
      else truncate_ellipsis (replace_newlines
             (strip_eol (take 2047 (first_line (ExtractJsonStringValue stdin ''prompt'') @ [LF])))))"
proof -
  let ?p = "strip_eol (take 2047 (first_line (ExtractJsonStringValue stdin ''prompt'') @ [LF]))"
  let ?L = "LoadState m2 d2 (SaveState m1 d1 stdin fs0) k (second_phase_globals b k)"
  have L: "g_userPrompt ?L = ?p" "g_inputMode ?L = b"
    unfolding load_after_record_any [OF key writable env]
    by (simp_all add: load_keeps second_phase_fields)
  have "g_message (choose_message ?L) =
     (if ?p = [] then (if b then ''Claude needs your input'' else ''Task completed'') else ?p)"
    unfolding choose_message_def L by (cases b) simp_all
  moreover have "truncate_ellipsis (replace_newlines ''Claude needs your input'') = ''Claude needs your input''"
    "truncate_ellipsis (replace_newlines ''Task completed'') = ''Task completed''"
    by (simp_all add: truncate_ellipsis_def replace_newlines_def maxLen_def LF_def CR_def)
  ultimately show ?thesis
    using show_message(1) [OF key(2) out] by simp
qed

lemma replace_newlines_id: "LF \<notin> set s \<Longrightarrow> CR \<notin> set s \<Longrightarrow> replace_newlines s = s"
  by (induction s) (auto simp: replace_newlines_def)

lemma strip_eol_plain: "LF \<notin> set s \<Longrightarrow> CR \<notin> set s \<Longrightarrow> strip_eol s = s"
  by (rule strip_eol_id) (cases s rule: rev_cases, auto)

subsection \<open>The example run\<close>

lemma destroyed_with_line:
  assumes "\<And>l g. destroyed (f l g) = destroyed g"
  shows "destroyed (fst (with_line f gs)) = destroyed (fst gs)"
  by (simp add: with_line_def assms split: option.split prod.split)

lemma destroyed_loads:
  "destroyed (load_hwnd d l g) = destroyed g"
  "destroyed (load_runtimeId l g) = destroyed g"
  "destroyed (load_iconPath l g) = destroyed g"
  "destroyed (load_userPrompt l g) = destroyed g"
  by (simp_all add: load_runtimeId_def load_iconPath_def load_userPrompt_def load_hwnd_def Let_def)

lemma destroyed_LoadState: "destroyed (LoadState m d fs k g) = destroyed g"
  by (simp add: LoadState_def destroyed_with_line destroyed_loads split: option.split)

lemma destroyed_prepared:
  "destroyed (normalize_message (choose_message (LoadState m d fs k (second_phase_globals b k))))
     = False"
  by (simp add: normalize_message_def choose_message_def destroyed_LoadState second_phase_fields)

lemma g_hwnd_create_toast: "g_hwnd (create_toast m d g) = createdWindow m"
  by (simp add: create_toast_def Let_def SetTimer_def)

lemma show_alive:
  assumes "k \<noteq> []" "createdWindow m \<noteq> 0"
  shows "WinMain m d (second_phase_argv b k) stdin [] fs = None"
  using assms
  by (simp add: WinMain_second_phase ShowToast_def message_loop_def Let_def g_hwnd_create_toast
      destroyed_create_toast destroyed_prepared)

lemma show_click_completes:
  assumes "k \<noteq> []"
  shows "\<exists>out. WinMain m d (second_phase_argv b k) stdin [(d3, WM_LBUTTONUP x y)] fs = Some out"
  using ShowToast_click [OF destroyed_prepared, of m d d3 x y m d fs k b]
  by (auto simp: WinMain_second_phase [OF assms])

lemma ex_environment:
  "captured_hwnd ex_machine ex_desktop = 4242" "IsWindow ex_desktop 4242"
  "stateFileWritable ex_machine" "LF \<notin> set (callerExePath ex_machine)"
  "length (callerExePath ex_machine) \<le> 2046"
  "saved_runtimeId ex_desktop 4242 = []" "createdWindow ex_machine \<noteq> 0"
  "\<not> IsPointInCloseButton 10 40"
  by (simp_all add: captured_hwnd_def IsWindow_def find_window_def ex_machine_def ex_desktop_def
      ex_terminal_def LF_def saved_runtimeId_def IsWindowsTerminalWindow_def
      IsPointInCloseButton_def g_windowWidth_def CLOSE_BUTTON_MARGIN_def CLOSE_BUTTON_SIZE_def)

lemma ex_payload_session: "ExtractJsonStringValue (ex_payload p) ''session_id'' = ''abc''"
  by (simp add: ExtractJsonStringValue_def ex_payload_def string_find_def DQUOTE_def
      is_json_space_def MultiByteToWideChar_def BACKSLASH_def LF_def CR_def)

lemma ex_payload_prompts:
  "ExtractJsonStringValue (ex_payload ''build finished'') ''prompt'' = ''build finished''"
  "ExtractJsonStringValue (ex_payload []) ''prompt'' = []"
  "ExtractJsonStringValue (ex_payload ([BACKSLASH] @ ''nabc'')) ''prompt'' = LF # ''abc''"
  "ExtractJsonStringValue (ex_payload (''first'' @ [BACKSLASH] @ ''nsecond'')) ''prompt''
     = ''first'' @ LF # ''second''"
  by (simp_all add: ExtractJsonStringValue_def ex_payload_def string_find_def DQUOTE_def
      is_json_space_def MultiByteToWideChar_def BACKSLASH_def LF_def CR_def escape_char_def)

lemma ex_record:
  "WinMain ex_machine ex_desktop [''ToastWindow.exe'', ''--save''] (ex_payload p) [] Map.empty =
     Some \<lparr> exitCode = 0, filesAfter = SaveState ex_machine ex_desktop (ex_payload p) Map.empty,
            spawned = None,
            atExit = initial_globals\<lparr>g_sessionId := ''abc''\<rparr> \<rparr>"
  by (simp add: WinMain_def set_flag_def ex_payload_session)

section \<open>The claims\<close>

text \<open>
  C1, as amended. Let the record invocation (\<open>--save\<close>) receive a payload with a
  non-empty session key \<open>k\<close> and a non-empty prompt \<open>t\<close> of at most 35 characters
  without line feed or carriage return, let it capture the window \<open>S\<close> (not \<open>NULL\<close>)
  and be able to open the state file; let the recorded path of the caller and the
  runtime id of the tab be single lines of at most 2046 characters, and let the
  second-phase show process for \<open>k\<close> run with the same temporary directory while \<open>S\<close>
  still is a window. Then the record invocation exits with 0, and for the show
  process: whatever messages arrive, if it ends, it exits with 0, its message is \<open>t\<close>,
  its target window is \<open>S\<close>, and the state file of \<open>k\<close> is gone, whether or not any
  window was activated; and while it is still running, a click outside the close
  button, with \<open>S\<close> still a window, ends it with \<open>SetForegroundWindow S\<close> among its
  activation calls, the message \<open>t\<close> and no state file for \<open>k\<close>.
\<close>

theorem C1_record_then_show_round_trip:
  assumes key: "ExtractJsonStringValue stdin ''session_id'' = k" "k \<noteq> []"
    and prompt: "ExtractJsonStringValue stdin ''prompt'' = t" "t \<noteq> []"
      "LF \<notin> set t" "CR \<notin> set t" "length t \<le> 35"
    and surface: "captured_hwnd m1 d1 = S" "S \<noteq> 0" "IsWindow d2 S"
    and writable: "stateFileWritable m1"
    and env: "tempPath m2 = tempPath m1" "LF \<notin> set (callerExePath m1)"
      "length (callerExePath m1) \<le> 2046" "length (saved_runtimeId d1 S) \<le> 2046"
    and recorded: "WinMain m1 d1 [exe, ''--save''] stdin evs1 fs0 = Some saved"
  shows "exitCode saved = 0 \<and>
     (\<forall>evs out.
        WinMain m2 d2 (second_phase_argv b k) stdin2 evs (filesAfter saved) = Some out \<longrightarrow>
          exitCode out = 0 \<and> g_message (atExit out) = t \<and>
          g_targetWindowHandle (atExit out) = S \<and>
          filesAfter out (GetStateFilePath m2 k) = None) \<and>
     (\<forall>evs d3 x y.
        WinMain m2 d2 (second_phase_argv b k) stdin2 evs (filesAfter saved) = None \<and>
        IsWindow d3 S \<and> \<not> IsPointInCloseButton x y \<longrightarrow>
          (\<exists>out. WinMain m2 d2 (second_phase_argv b k) stdin2
                   (evs @ [(d3, WM_LBUTTONUP x y)]) (filesAfter saved) = Some out \<and>
                 g_message (atExit out) = t \<and>
                 SetForegroundWindow S \<in> set (calls (atExit out)) \<and>
                 filesAfter out (GetStateFilePath m2 k) = None))"
proof -
  let ?fs = "SaveState m1 d1 stdin fs0"
  from recorded have saved: "exitCode saved = 0" "filesAfter saved = ?fs"
    by (auto simp: WinMain_def set_flag_def)
  have len: "length (first_line (ExtractJsonStringValue stdin ''prompt'')) \<le> 2046"
    using prompt by (simp add: first_line_id)
  have env': "length (saved_runtimeId d1 (captured_hwnd m1 d1)) \<le> 2046"
    using env(4) surface(1) by simp
  have tt: "strip_eol (first_line (ExtractJsonStringValue stdin ''prompt'')) = t"
    using prompt by (simp add: first_line_id strip_eol_plain)
  have norm: "truncate_ellipsis (replace_newlines t) = t"
    using prompt by (simp add: replace_newlines_id truncate_ellipsis_def maxLen_def)
  let ?start = "second_phase_globals b k"
  let ?L = "LoadState m2 d2 ?fs k ?start"
  let ?g = "normalize_message (choose_message ?L)"
  have L: "g_targetWindowHandle ?L = S" "g_wtWindowHandle ?L = S \<or> g_wtWindowHandle ?L = 0"
    unfolding load_after_record [OF key writable env(1-3) env' len]
    using load_hwnd_roundtrip [OF surface(2,3), of ?start]
    by (simp_all add: load_keeps surface(1) second_phase_fields)
  have g: "g_targetWindowHandle ?g = S" "g_wtWindowHandle ?g = S \<or> g_wtWindowHandle ?g = 0"
    "calls ?g = calls ?L"
    using L by (simp_all add: normalize_message_def choose_message_def)
  have W: "WinMain m2 d2 (second_phase_argv b k) stdin2 evs ?fs =
     (case ShowToast m2 d2 evs ?g of
        None \<Rightarrow> None
      | Some g2 \<Rightarrow>
          Some \<lparr> exitCode = 0, filesAfter = ?fs((GetStateFilePath m2 k) := None),
                 spawned = None, atExit = g2 \<rparr>)" for evs
    by (rule WinMain_second_phase [OF key(2)])
  have A: "exitCode out = 0 \<and> g_message (atExit out) = t \<and>
          g_targetWindowHandle (atExit out) = S \<and>
          filesAfter out (GetStateFilePath m2 k) = None"
    if o: "WinMain m2 d2 (second_phase_argv b k) stdin2 evs ?fs = Some out" for evs out
  proof -
    have "g_message (atExit out) = t"
      using message_after_record [OF key writable env(1-3) env' len o] tt norm prompt(2)
      by simp
    moreover from o W [of evs] obtain g2 where g2: "ShowToast m2 d2 evs ?g = Some g2"
      and oo: "atExit out = g2" by (auto split: option.splits)
    from ShowToast_Some [OF g2] g(1) oo have "g_targetWindowHandle (atExit out) = S"
      by (simp add: settings_def)
    ultimately show ?thesis using show_message(2,3) [OF key(2) o] by simp
  qed
  have B: "\<exists>out. WinMain m2 d2 (second_phase_argv b k) stdin2
                   (evs @ [(d3, WM_LBUTTONUP x y)]) ?fs = Some out \<and>
                 g_message (atExit out) = t \<and>
                 SetForegroundWindow S \<in> set (calls (atExit out)) \<and>
                 filesAfter out (GetStateFilePath m2 k) = None"
    if n: "WinMain m2 d2 (second_phase_argv b k) stdin2 evs ?fs = None"
      and w: "IsWindow d3 S" and c: "\<not> IsPointInCloseButton x y" for evs d3 x y
  proof -
    from n W [of evs] have sn: "ShowToast m2 d2 evs ?g = None"
      by (auto split: option.splits)
    let ?g1 = "dispatch_all evs (create_toast m2 d2 ?g)"
    let ?g2 = "on_lbuttonup d3 x y ?g1"
    have st: "ShowToast m2 d2 (evs @ [(d3, WM_LBUTTONUP x y)]) ?g = Some ?g2"
      by (rule ShowToast_then_click [OF sn])
    let ?out = "\<lparr> exitCode = 0, filesAfter = ?fs((GetStateFilePath m2 k) := None),
                 spawned = None, atExit = ?g2 \<rparr>"
    have o: "WinMain m2 d2 (second_phase_argv b k) stdin2 (evs @ [(d3, WM_LBUTTONUP x y)]) ?fs
        = Some ?out"
      using W [of "evs @ [(d3, WM_LBUTTONUP x y)]"] st by simp
    have "settings ?g1 = settings ?g"
      by (simp add: settings_dispatch_all settings_create_toast)
    with g have "g_targetWindowHandle ?g1 = S" "g_wtWindowHandle ?g1 = S \<or> g_wtWindowHandle ?g1 = 0"
      by (simp_all add: settings_def)
    from ActivateWindow_target [OF this surface(2) w]
    have "SetForegroundWindow S \<in> set (calls ?g2)"
      using c by (simp add: calls_on_lbuttonup)
    moreover from A [OF o] have "g_message (atExit ?out) = t"
      "filesAfter ?out (GetStateFilePath m2 k) = None" by blast+
    ultimately show ?thesis using o by (intro exI [of _ ?out]) simp
  qed
  from saved A B show ?thesis by (simp only: saved(2)) blast
qed

text \<open>The session \<open>abc\<close> of the example, recorded with the prompt \<open>build finished\<close>
  from the terminal window 4242, then shown and clicked.\<close>

theorem C1_record_then_show_round_trip_witness:
  "\<exists>out. WinMain ex_machine ex_desktop (second_phase_argv False ''abc'') [] ex_click
            (filesAfter (the (WinMain ex_machine ex_desktop [''ToastWindow.exe'', ''--save'']
                                (ex_payload ''build finished'') [] Map.empty))) = Some out \<and>
         g_message (atExit out) = ''build finished'' \<and>
         SetForegroundWindow 4242 \<in> set (calls (atExit out)) \<and>
         filesAfter out (GetStateFilePath ex_machine ''abc'') = None"
proof -
  let ?stdin = "ex_payload ''build finished''"
  let ?saved = "\<lparr> exitCode = 0, filesAfter = SaveState ex_machine ex_desktop ?stdin Map.empty,
            spawned = None, atExit = initial_globals\<lparr>g_sessionId := ''abc''\<rparr> \<rparr>"
  have t: "''build finished'' \<noteq> ([] :: string)" "LF \<notin> set ''build finished''"
    "CR \<notin> set ''build finished''" "length ''build finished'' \<le> 35"
    by (simp_all add: LF_def CR_def)
  have k: "''abc'' \<noteq> ([] :: string)" and z: "(4242 :: HWND) \<noteq> 0" by simp_all
  have r: "length (saved_runtimeId ex_desktop 4242) \<le> 2046"
    by (simp add: ex_environment(6))
  note C1 = C1_record_then_show_round_trip
    [where ?m1.0 = ex_machine and ?m2.0 = ex_machine and ?d1.0 = ex_desktop
       and ?d2.0 = ex_desktop and b = False and ?stdin2.0 = "[]",
     OF ex_payload_session k ex_payload_prompts(1) t ex_environment(1) z ex_environment(2)
       ex_environment(3) refl ex_environment(4) ex_environment(5) r ex_record]
  have alive: "WinMain ex_machine ex_desktop (second_phase_argv False ''abc'') []
      [] (filesAfter ?saved) = None"
    by (rule show_alive [OF k ex_environment(7)])
  from C1 alive ex_environment(2,8)
  have "\<exists>out. WinMain ex_machine ex_desktop (second_phase_argv False ''abc'') []
            ([] @ [(ex_desktop, WM_LBUTTONUP 10 40)]) (filesAfter ?saved) = Some out \<and>
         g_message (atExit out) = ''build finished'' \<and>
         SetForegroundWindow 4242 \<in> set (calls (atExit out)) \<and>
         filesAfter out (GetStateFilePath ex_machine ''abc'') = None"
    by blast
  then show ?thesis by (simp add: ex_record ex_click_def)
qed

text \<open>The claim as stated fails for the empty text, which is a single line within the
  display cap: the session \<open>abc\<close> recorded with an empty prompt is shown with the
  default message, not with the empty text.\<close>

theorem C1_empty_text_counterexample:
  "ExtractJsonStringValue (ex_payload []) ''session_id'' = ''abc'' \<and>
   ExtractJsonStringValue (ex_payload []) ''prompt'' = [] \<and>
   captured_hwnd ex_machine ex_desktop = 4242 \<and>
   map_option (g_message \<circ> atExit)
     (WinMain ex_machine ex_desktop (second_phase_argv False ''abc'') [] ex_click
        (filesAfter (the (WinMain ex_machine ex_desktop [''ToastWindow.exe'', ''--save'']
                            (ex_payload []) [] Map.empty)))) = Some ''Task completed''"
proof -
  have k: "''abc'' \<noteq> ([] :: string)" by simp
  let ?fs = "SaveState ex_machine ex_desktop (ex_payload []) Map.empty"
  obtain out where out: "WinMain ex_machine ex_desktop (second_phase_argv False ''abc'') []
      [(ex_desktop, WM_LBUTTONUP 10 40)] ?fs = Some out"
    using show_click_completes [OF k] by blast
  have r: "length (saved_runtimeId ex_desktop (captured_hwnd ex_machine ex_desktop)) \<le> 2046"
    by (simp add: ex_environment)
  have l: "length (first_line (ExtractJsonStringValue (ex_payload []) ''prompt'')) \<le> 2046"
    by (simp add: ex_payload_prompts first_line_def)
  have "g_message (atExit out) = ''Task completed''"
    using message_after_record
      [OF ex_payload_session k ex_environment(3) refl ex_environment(4,5) r l out]
    by (simp add: ex_payload_prompts first_line_def strip_eol_def)
  with out show ?thesis
    by (simp add: ex_record ex_click_def ex_payload_session ex_payload_prompts ex_environment)
qed

text \<open>
  C2, as amended. \<open>IsBottomToast\<close> returns true if and only if no peer (no other
  visible window of the toast class) lies strictly closer to the taskbar edge than the
  caller: none with a strictly greater bottom coordinate for a taskbar that is not at
  the top, none with a strictly smaller top coordinate for a top taskbar. Hence, when
  at least one live instance exists, at least one live instance satisfies it. Among
  live instances with distinct handles, those that satisfy it are exactly the ones
  whose coordinate on the side of the edge is the extreme one (the greatest bottom
  coordinate, or the smallest top coordinate for a top taskbar): exactly one instance
  when no two live instances have the same coordinate on the side of the edge, and
  every instance that shares the extreme coordinate otherwise.
\<close>

theorem C2_anchor_exists_unique_without_ties:
  "(IsBottomToast e h r ws \<longleftrightarrow>
      \<not> (\<exists>t \<in> set ws. hwnd t \<noteq> h \<and> className t = TOAST_CLASS_NAME \<and> visible t \<and>
            (if e = ABE_TOP then r_top (rect t) < r_top r
             else r_bottom (rect t) > r_bottom r))) \<and>
   (live_toasts ws \<noteq> [] \<longrightarrow> anchors e ws \<noteq> []) \<and>
   (distinct (map hwnd (live_toasts ws)) \<longrightarrow>
      set (anchors e ws) =
        {w \<in> set (live_toasts ws).
           \<forall>t \<in> set (live_toasts ws). edge_coordinate e t \<le> edge_coordinate e w}) \<and>
   (live_toasts ws \<noteq> [] \<and> distinct (map hwnd (live_toasts ws)) \<and>
    distinct (map (edge_coordinate e) (live_toasts ws)) \<longrightarrow>
      (\<exists>a. anchors e ws = [a]))"
  using IsBottomToast_iff [of e h r ws] anchor_exists [of ws e] single_anchor [of ws e]
    anchors_extreme [of ws e]
  by blast

text \<open>Two stacked toasts: the lower one is the only anchor. Two toasts side by side
  above a third one: the third one is the only anchor.\<close>

theorem C2_anchor_exists_unique_without_ties_witness:
  "live_toasts ex_stack = [ex_toast 8 1620 880, ex_toast 7 1620 960] \<and>
   anchors ABE_BOTTOM ex_stack = [ex_toast 7 1620 960] \<and>
   anchors ABE_BOTTOM ex_tie_upper = [ex_toast 1 1620 960]"
proof -
  have d: "live_toasts ex_stack \<noteq> [] \<and> distinct (map hwnd (live_toasts ex_stack)) \<and>
    distinct (map (edge_coordinate ABE_BOTTOM) (live_toasts ex_stack))"
    by (simp add: ex_stack_live ex_toast_def ex_rect_def edge_coordinate_def)
  with C2_anchor_exists_unique_without_ties [of ABE_BOTTOM 0 "rect ex_terminal" ex_stack]
  obtain a where a: "anchors ABE_BOTTOM ex_stack = [a]" by blast
  have "IsBottomToast ABE_BOTTOM 7 (rect (ex_toast 7 1620 960)) ex_stack"
    by (simp add: IsBottomToast_def GetOtherToasts_def EnumToastWindows_def ex_stack_def
        ex_terminal_def ex_toast_def ex_rect_def TOAST_CLASS_NAME_def)
  then have "ex_toast 7 1620 960 \<in> set (anchors ABE_BOTTOM ex_stack)"
    by (simp add: anchors_def ex_stack_live) (simp add: ex_toast_def)
  moreover have "anchors ABE_BOTTOM ex_tie_upper = [ex_toast 1 1620 960]"
    by (simp add: anchors_def live_toasts_def IsBottomToast_def GetOtherToasts_def
        EnumToastWindows_def ex_tie_upper_def ex_toast_def ex_rect_def TOAST_CLASS_NAME_def)
  ultimately show ?thesis using a by (simp add: ex_stack_live)
qed

text \<open>The claim as stated fails for two instances created at the same moment, each
  having seen no peer, here on two monitors side by side: their rectangles do not
  overlap, their bottom coordinates are equal, and both satisfy \<open>IsBottomToast\<close>.\<close>

theorem C2_two_anchors_counterexample:
  "live_toasts ex_tie = [ex_toast 7 1620 960, ex_toast 9 3540 960] \<and>
   IsBottomToast ABE_BOTTOM 7 (rect (ex_toast 7 1620 960)) ex_tie \<and>
   IsBottomToast ABE_BOTTOM 9 (rect (ex_toast 9 3540 960)) ex_tie \<and>
   anchors ABE_BOTTOM ex_tie = [ex_toast 7 1620 960, ex_toast 9 3540 960]"
  by (simp add: anchors_def live_toasts_def IsBottomToast_def GetOtherToasts_def
      EnumToastWindows_def ex_tie_def ex_toast_def ex_rect_def TOAST_CLASS_NAME_def)

text \<open>
  C3, as amended. \<open>CalculateStackedY\<close> returns \<open>GetBaseY ()\<close> when there is no peer. With
  peers and a taskbar that is not at the top it returns the smallest of the bottom of
  the work area and the peers' top coordinates, less \<open>g_windowHeight\<close>: the new
  rectangle ends at or above the top of every peer, so it overlaps none. When some
  peer's top lies above the bottom of the work area, the new instance is not at the
  edge position and touches, with no gap, the peer farthest from the taskbar (the one
  with the smallest top coordinate), not the one closest to it. When every peer's top
  lies at or below the bottom of the work area (peers on a lower monitor), the result
  is \<open>GetBaseY ()\<close>, the edge position, although there are peers. For a top taskbar the
  same holds mirrored: the result is the largest of the top of the work area and the
  peers' bottom coordinates.
\<close>

theorem C3_stacked_beyond_farthest_peer:
  "(let y = CalculateStackedY e wa h ws; peers = GetOtherToasts e h ws
    in set peers =
         {w \<in> set ws. hwnd w \<noteq> h \<and> className w = TOAST_CLASS_NAME \<and> visible w} \<and>
       (peers = [] \<longrightarrow> y = GetBaseY e wa) \<and>
       (e \<noteq> ABE_TOP \<longrightarrow>
          y = Min (insert (r_bottom wa) ((\<lambda>t. r_top (rect t)) ` set peers)) - g_windowHeight \<and>
          y \<le> GetBaseY e wa \<and>
          (\<forall>t \<in> set peers. y + g_windowHeight \<le> r_top (rect t)) \<and>
          ((\<exists>t \<in> set peers. r_top (rect t) < r_bottom wa) \<longrightarrow>
             y < GetBaseY e wa \<and> (\<exists>t \<in> set peers. y + g_windowHeight = r_top (rect t))) \<and>
          ((\<forall>t \<in> set peers. r_bottom wa \<le> r_top (rect t)) \<longrightarrow> y = GetBaseY e wa)) \<and>
       (e = ABE_TOP \<longrightarrow>
          y = Max (insert (r_top wa) ((\<lambda>t. r_bottom (rect t)) ` set peers)) \<and>
          GetBaseY e wa \<le> y \<and>
          (\<forall>t \<in> set peers. r_bottom (rect t) \<le> y) \<and>
          ((\<exists>t \<in> set peers. r_top wa < r_bottom (rect t)) \<longrightarrow>
             GetBaseY e wa < y \<and> (\<exists>t \<in> set peers. y = r_bottom (rect t))) \<and>
          ((\<forall>t \<in> set peers. r_bottom (rect t) \<le> r_top wa) \<longrightarrow> y = GetBaseY e wa)))"
proof -
  let ?peers = "GetOtherToasts e h ws"
  let ?y = "CalculateStackedY e wa h ws"
  have 0: "set ?peers = {w \<in> set ws. hwnd w \<noteq> h \<and> className w = TOAST_CLASS_NAME \<and> visible w}"
    by (simp add: set_GetOtherToasts EnumToastWindows_def)
  have 1: "?peers = [] \<longrightarrow> ?y = GetBaseY e wa"
    by (simp add: CalculateStackedY_def)
  have 2: "e \<noteq> ABE_TOP \<longrightarrow>
          ?y = Min (insert (r_bottom wa) ((\<lambda>t. r_top (rect t)) ` set ?peers)) - g_windowHeight \<and>
          ?y \<le> GetBaseY e wa \<and>
          (\<forall>t \<in> set ?peers. ?y + g_windowHeight \<le> r_top (rect t)) \<and>
          ((\<exists>t \<in> set ?peers. r_top (rect t) < r_bottom wa) \<longrightarrow>
             ?y < GetBaseY e wa \<and> (\<exists>t \<in> set ?peers. ?y + g_windowHeight = r_top (rect t))) \<and>
          ((\<forall>t \<in> set ?peers. r_bottom wa \<le> r_top (rect t)) \<longrightarrow> ?y = GetBaseY e wa)"
  proof
    assume e: "e \<noteq> ABE_TOP"
    have b: "GetBaseY e wa = r_bottom wa - g_windowHeight"
      using e by (simp add: GetBaseY_def)
    note c = CalculateStackedY_bottom [OF e, where wa = wa and h = h and ws = ws]
    have v: "?y = Min (insert (r_bottom wa) ((\<lambda>t. r_top (rect t)) ` set ?peers)) - g_windowHeight"
      by (rule CalculateStackedY_bottom_value [OF e])
    have le: "?y \<le> GetBaseY e wa" using c(1) b by simp
    have occ: "?y < GetBaseY e wa \<and> (\<exists>t \<in> set ?peers. ?y + g_windowHeight = r_top (rect t))"
      if "\<exists>t \<in> set ?peers. r_top (rect t) < r_bottom wa"
    proof -
      from that obtain t where t: "t \<in> set ?peers" "r_top (rect t) < r_bottom wa" by blast
      with c(2) have lt: "?y + g_windowHeight < r_bottom wa" by force
      with c(3) b show ?thesis by force
    qed
    have free: "?y = GetBaseY e wa" if "\<forall>t \<in> set ?peers. r_bottom wa \<le> r_top (rect t)"
    proof -
      from c(3) show ?thesis
      proof
        assume "?y + g_windowHeight = r_bottom wa"
        then show ?thesis using b by simp
      next
        assume "\<exists>t \<in> set ?peers. ?y + g_windowHeight = r_top (rect t)"
        then obtain t where "t \<in> set ?peers" "?y + g_windowHeight = r_top (rect t)" by blast
        with that have "r_bottom wa \<le> ?y + g_windowHeight" by force
        with c(1) b show ?thesis by simp
      qed
    qed
    from v le occ free c(2) show "?y = Min (insert (r_bottom wa) ((\<lambda>t. r_top (rect t)) ` set ?peers)) - g_windowHeight \<and>
          ?y \<le> GetBaseY e wa \<and>
          (\<forall>t \<in> set ?peers. ?y + g_windowHeight \<le> r_top (rect t)) \<and>
          ((\<exists>t \<in> set ?peers. r_top (rect t) < r_bottom wa) \<longrightarrow>
             ?y < GetBaseY e wa \<and> (\<exists>t \<in> set ?peers. ?y + g_windowHeight = r_top (rect t))) \<and>
          ((\<forall>t \<in> set ?peers. r_bottom wa \<le> r_top (rect t)) \<longrightarrow> ?y = GetBaseY e wa)"
      by blast
  qed
  have 3: "e = ABE_TOP \<longrightarrow>
          ?y = Max (insert (r_top wa) ((\<lambda>t. r_bottom (rect t)) ` set ?peers)) \<and>
          GetBaseY e wa \<le> ?y \<and>
          (\<forall>t \<in> set ?peers. r_bottom (rect t) \<le> ?y) \<and>
          ((\<exists>t \<in> set ?peers. r_top wa < r_bottom (rect t)) \<longrightarrow>
             GetBaseY e wa < ?y \<and> (\<exists>t \<in> set ?peers. ?y = r_bottom (rect t))) \<and>
          ((\<forall>t \<in> set ?peers. r_bottom (rect t) \<le> r_top wa) \<longrightarrow> ?y = GetBaseY e wa)"
  proof
    assume e: "e = ABE_TOP"
    have b: "GetBaseY e wa = r_top wa"
      using e by (simp add: GetBaseY_def)
    note c = CalculateStackedY_top [where wa = wa and h = h and ws = ws, folded e]
    have v: "?y = Max (insert (r_top wa) ((\<lambda>t. r_bottom (rect t)) ` set ?peers))"
      unfolding e by (rule CalculateStackedY_top_value)
    have ge: "GetBaseY e wa \<le> ?y" using c(1) b by simp
    have occ: "GetBaseY e wa < ?y \<and> (\<exists>t \<in> set ?peers. ?y = r_bottom (rect t))"
      if "\<exists>t \<in> set ?peers. r_top wa < r_bottom (rect t)"
    proof -
      from that obtain t where t: "t \<in> set ?peers" "r_top wa < r_bottom (rect t)" by blast
      with c(2) have lt: "r_top wa < ?y" by force
      with c(3) b show ?thesis by force
    qed
    have free: "?y = GetBaseY e wa" if "\<forall>t \<in> set ?peers. r_bottom (rect t) \<le> r_top wa"
    proof -
      from c(3) show ?thesis
      proof
        assume "?y = r_top wa"
        then show ?thesis using b by simp
      next
        assume "\<exists>t \<in> set ?peers. ?y = r_bottom (rect t)"
        then obtain t where "t \<in> set ?peers" "?y = r_bottom (rect t)" by blast
        with that have "?y \<le> r_top wa" by force
        with c(1) b show ?thesis by simp
      qed
    qed
    from v ge occ free c(2) show "?y = Max (insert (r_top wa) ((\<lambda>t. r_bottom (rect t)) ` set ?peers)) \<and>
          GetBaseY e wa \<le> ?y \<and>
          (\<forall>t \<in> set ?peers. r_bottom (rect t) \<le> ?y) \<and>
          ((\<exists>t \<in> set ?peers. r_top wa < r_bottom (rect t)) \<longrightarrow>
             GetBaseY e wa < ?y \<and> (\<exists>t \<in> set ?peers. ?y = r_bottom (rect t))) \<and>
          ((\<forall>t \<in> set ?peers. r_bottom (rect t) \<le> r_top wa) \<longrightarrow> ?y = GetBaseY e wa)"
      by blast
  qed
  from 0 1 2 3 show ?thesis unfolding Let_def by blast
qed

text \<open>Two stacked peers: the new toast goes to 800, directly above the upper one. A
  single peer on a lower monitor: the new toast goes to the edge position.\<close>

theorem C3_stacked_beyond_farthest_peer_witness:
  "CalculateStackedY ABE_BOTTOM ex_workArea 0 ex_stack = 800 \<and>
   CalculateStackedY ABE_BOTTOM ex_workArea 0 ex_stack + g_windowHeight
     = r_top (rect (ex_toast 8 1620 880)) \<and>
   ex_toast 8 1620 880 \<in> set (GetOtherToasts ABE_BOTTOM 0 ex_stack) \<and>
   CalculateStackedY ABE_BOTTOM ex_workArea 0 ex_stack < GetBaseY ABE_BOTTOM ex_workArea \<and>
   CalculateStackedY ABE_TOP ex_workArea 0 [] = GetBaseY ABE_TOP ex_workArea \<and>
   GetOtherToasts ABE_BOTTOM 7 (windows ex_desktop_lower) = [ex_toast 9 3540 1320] \<and>
   CalculateStackedY ABE_BOTTOM ex_workArea 7 (windows ex_desktop_lower) = 960 \<and>
   GetBaseY ABE_BOTTOM ex_workArea = 960"
proof -
  have v: "CalculateStackedY ABE_BOTTOM ex_workArea 0 ex_stack = 800"
    by (simp add: CalculateStackedY_def ex_stack_peers Let_def ex_toast_def ex_rect_def
        ex_workArea_def g_windowHeight_def)
  have occ: "\<exists>t \<in> set (GetOtherToasts ABE_BOTTOM 0 ex_stack). r_top (rect t) < r_bottom ex_workArea"
    by (simp add: ex_stack_peers ex_toast_def ex_rect_def ex_workArea_def)
  have emp: "GetOtherToasts ABE_TOP 0 [] = []"
    by (simp add: GetOtherToasts_def)
  have low: "GetOtherToasts ABE_BOTTOM 7 (windows ex_desktop_lower) = [ex_toast 9 3540 1320]"
    by (simp add: GetOtherToasts_def EnumToastWindows_def ex_desktop_lower_def ex_terminal_def
        ex_toast_def ex_rect_def TOAST_CLASS_NAME_def)
  have b: "GetBaseY ABE_BOTTOM ex_workArea = 960"
    by (simp add: GetBaseY_def ex_workArea_def g_windowHeight_def)
  have far: "\<forall>t \<in> set (GetOtherToasts ABE_BOTTOM 7 (windows ex_desktop_lower)).
      r_bottom ex_workArea \<le> r_top (rect t)"
    unfolding low by (simp add: ex_toast_def ex_rect_def ex_workArea_def)
  from C3_stacked_beyond_farthest_peer [of ABE_BOTTOM ex_workArea 0 ex_stack] occ
  have "CalculateStackedY ABE_BOTTOM ex_workArea 0 ex_stack < GetBaseY ABE_BOTTOM ex_workArea"
    unfolding Let_def by blast
  moreover from C3_stacked_beyond_farthest_peer [of ABE_TOP ex_workArea 0 "[]"] emp
  have "CalculateStackedY ABE_TOP ex_workArea 0 [] = GetBaseY ABE_TOP ex_workArea"
    unfolding Let_def by blast
  moreover from C3_stacked_beyond_farthest_peer [of ABE_BOTTOM ex_workArea 7 "windows ex_desktop_lower"] far
  have "CalculateStackedY ABE_BOTTOM ex_workArea 7 (windows ex_desktop_lower)
      = GetBaseY ABE_BOTTOM ex_workArea"
    unfolding Let_def by blast
  ultimately show ?thesis
    using v low b by (simp add: ex_stack_peers ex_toast_def ex_rect_def g_windowHeight_def)
qed

text \<open>The claim as stated fails for the two stacked peers: the peer closest to the
  taskbar edge is the toast at 960, the coordinate adjacent to it on the side away from
  the edge is 880, and \<open>CalculateStackedY\<close> returns 800.\<close>

theorem C3_not_adjacent_to_closest_peer_counterexample:
  "hd (GetOtherToasts ABE_BOTTOM 0 ex_stack) = ex_toast 7 1620 960 \<and>
   r_bottom (rect (ex_toast 7 1620 960)) = r_bottom ex_workArea \<and>
   r_top (rect (ex_toast 7 1620 960)) - g_windowHeight = 880 \<and>
   CalculateStackedY ABE_BOTTOM ex_workArea 0 ex_stack = 800 \<and>
   CalculateStackedY ABE_BOTTOM ex_workArea 0 ex_stack \<noteq>
     r_top (rect (hd (GetOtherToasts ABE_BOTTOM 0 ex_stack))) - g_windowHeight"
  by (simp add: CalculateStackedY_def ex_stack_peers Let_def ex_toast_def ex_rect_def
      ex_workArea_def g_windowHeight_def)

text \<open>
  C4. Every way of closing an instance posts the same closing broadcast: when the fade
  has reached its floor, on a left click (on the close button or anywhere else) and on
  a right click, the window is destroyed and one \<open>WM_TOAST_CHECK_POSITION\<close> message
  carrying the top coordinate of the closing instance is posted to every peer that
  \<open>GetOtherToasts\<close> discovers, that is to every other visible window of the toast
  class. On receipt, a peer that lies farther from the taskbar edge than the closed
  one (above it for a bottom taskbar, below it for a top taskbar) sets its target
  coordinate to its own top coordinate shifted by \<open>g_windowHeight\<close> towards the edge
  and starts its reposition timer; a peer that is not farther keeps its target
  coordinate and its reposition timer as they were. The message itself moves no window.
\<close>

theorem C4_closing_broadcast_and_reflow:
  "(let broadcast = map (\<lambda>t. (hwnd t, WM_TOAST_CHECK_POSITION (r_top (myRect g))))
                        (GetOtherToasts (g_taskbarEdge g) (g_hwnd g) (windows d))
    in (\<not> g_alpha g > g_fadeStep g \<longrightarrow>
          destroyed (WndProc d (WM_TIMER TIMER_FADE) g) \<and>
          posted (WndProc d (WM_TIMER TIMER_FADE) g) = posted g @ broadcast) \<and>
       (\<forall>x y. destroyed (WndProc d (WM_LBUTTONUP x y) g) \<and>
              posted (WndProc d (WM_LBUTTONUP x y) g) = posted g @ broadcast) \<and>
       destroyed (WndProc d WM_RBUTTONUP g) \<and>
       posted (WndProc d WM_RBUTTONUP g) = posted g @ broadcast \<and>
       fst ` set broadcast =
         hwnd ` {w \<in> set (windows d).
                   hwnd w \<noteq> g_hwnd g \<and> className w = TOAST_CLASS_NAME \<and> visible w}) \<and>
   (let p' = WndProc d' (WM_TOAST_CHECK_POSITION closedY) p;
        farther = (if g_taskbarEdge p = ABE_TOP then r_top (myRect p) > closedY
                   else r_top (myRect p) < closedY)
    in myRect p' = myRect p \<and>
       (farther \<longrightarrow>
          g_targetY p' = (if g_taskbarEdge p = ABE_TOP then r_top (myRect p) - g_windowHeight
                          else r_top (myRect p) + g_windowHeight) \<and>
          TIMER_REPOSITION \<in> timers p') \<and>
       (\<not> farther \<longrightarrow>
          g_targetY p' = g_targetY p \<and>
          (TIMER_REPOSITION \<in> timers p') = (TIMER_REPOSITION \<in> timers p)))"
proof -
  let ?bc = "map (\<lambda>t. (hwnd t, WM_TOAST_CHECK_POSITION (r_top (myRect g))))
                 (GetOtherToasts (g_taskbarEdge g) (g_hwnd g) (windows d))"
  have 1: "\<not> g_alpha g > g_fadeStep g \<longrightarrow>
          destroyed (WndProc d (WM_TIMER TIMER_FADE) g) \<and>
          posted (WndProc d (WM_TIMER TIMER_FADE) g) = posted g @ ?bc"
    using fade_end_posted [of g d] by simp
  have 2: "\<forall>x y. destroyed (WndProc d (WM_LBUTTONUP x y) g) \<and>
              posted (WndProc d (WM_LBUTTONUP x y) g) = posted g @ ?bc"
    using lbuttonup_posted [of d _ _ g] by simp
  have 3: "destroyed (WndProc d WM_RBUTTONUP g) \<and>
       posted (WndProc d WM_RBUTTONUP g) = posted g @ ?bc"
    using close_toast_posted [of d g] by simp
  have 4: "fst ` set ?bc =
         hwnd ` {w \<in> set (windows d).
                   hwnd w \<noteq> g_hwnd g \<and> className w = TOAST_CLASS_NAME \<and> visible w}"
    by (simp add: set_GetOtherToasts EnumToastWindows_def image_image)
  let ?far = "if g_taskbarEdge p = ABE_TOP then r_top (myRect p) > closedY
              else r_top (myRect p) < closedY"
  let ?p' = "WndProc d' (WM_TOAST_CHECK_POSITION closedY) p"
  have 5: "myRect ?p' = myRect p"
    using on_check_position_farther(3) [of p closedY d']
      on_check_position_not_farther(3) [of p closedY d'] by (cases ?far) simp_all
  have 6: "?far \<longrightarrow>
          g_targetY ?p' = (if g_taskbarEdge p = ABE_TOP then r_top (myRect p) - g_windowHeight
                          else r_top (myRect p) + g_windowHeight) \<and>
          TIMER_REPOSITION \<in> timers ?p'"
    using on_check_position_farther(1,2) [of p closedY d'] by simp
  have 7: "\<not> ?far \<longrightarrow>
          g_targetY ?p' = g_targetY p \<and>
          (TIMER_REPOSITION \<in> timers ?p') = (TIMER_REPOSITION \<in> timers p)"
    using on_check_position_not_farther(1,2) [of p closedY d'] by simp
  from 1 2 3 4 5 6 7 show ?thesis unfolding Let_def by blast
qed

text \<open>The bottom toast of the example closes with one toast above it; that toast
  takes the coordinate 960, and a toast that is not farther from the edge stays.\<close>

theorem C4_closing_broadcast_and_reflow_witness:
  "posted (WndProc ex_desktop_two (WM_TIMER TIMER_FADE) (ex_fading\<lparr>g_alpha := 2\<rparr>)) =
     [(8, WM_TOAST_CHECK_POSITION 960)] \<and>
   posted (WndProc ex_desktop_two WM_RBUTTONUP (ex_fading\<lparr>g_alpha := 2\<rparr>)) =
     [(8, WM_TOAST_CHECK_POSITION 960)] \<and>
   g_targetY (WndProc ex_desktop_alone (WM_TOAST_CHECK_POSITION 960) ex_waiting) = 960 \<and>
   TIMER_REPOSITION \<in> timers (WndProc ex_desktop_alone (WM_TOAST_CHECK_POSITION 960) ex_waiting) \<and>
   g_targetY (WndProc ex_desktop_two (WM_TOAST_CHECK_POSITION 880) ex_fading) = 960 \<and>
   TIMER_REPOSITION \<notin> timers (WndProc ex_desktop_two (WM_TOAST_CHECK_POSITION 880) ex_fading)"
proof -
  have peers: "GetOtherToasts ABE_BOTTOM 7 (windows ex_desktop_two) = [ex_toast 8 1620 880]"
    by (simp add: GetOtherToasts_def EnumToastWindows_def ex_desktop_two_def ex_terminal_def
        ex_toast_def TOAST_CLASS_NAME_def)
  have g: "g_taskbarEdge (ex_fading\<lparr>g_alpha := 2\<rparr>) = ABE_BOTTOM"
    "g_hwnd (ex_fading\<lparr>g_alpha := 2\<rparr>) = 7"
    "\<not> g_alpha (ex_fading\<lparr>g_alpha := 2\<rparr>) > g_fadeStep (ex_fading\<lparr>g_alpha := 2\<rparr>)"
    "posted (ex_fading\<lparr>g_alpha := 2\<rparr>) = []"
    "r_top (myRect (ex_fading\<lparr>g_alpha := 2\<rparr>)) = 960"
    by (simp_all add: ex_fading_def initial_globals_def ex_rect_def)
  have w: "g_taskbarEdge ex_waiting = ABE_BOTTOM" "r_top (myRect ex_waiting) = 880"
    "g_taskbarEdge ex_fading = ABE_BOTTOM" "r_top (myRect ex_fading) = 960"
    "g_targetY ex_fading = 960" "TIMER_REPOSITION \<notin> timers ex_fading"
    by (simp_all add: ex_waiting_def ex_fading_def initial_globals_def ex_rect_def)
  from C4_closing_broadcast_and_reflow
         [of "ex_fading\<lparr>g_alpha := 2\<rparr>" ex_desktop_two ex_desktop_alone 960 ex_waiting]
       C4_closing_broadcast_and_reflow
         [of "ex_fading\<lparr>g_alpha := 2\<rparr>" ex_desktop_two ex_desktop_two 880 ex_fading]
  show ?thesis
    unfolding Let_def g peers w
    by (simp add: ex_toast_def g_windowHeight_def ex_fading_def initial_globals_def)
qed

text \<open>
  C5, as amended. When the pointer enters an instance that it was not over, the handler
  of \<open>WM_MOUSEMOVE\<close> posts a pause message (\<open>WM_TOAST_PAUSE_TIMER\<close> with 1) to the
  instance itself and to every peer; when the pointer leaves, the handler of
  \<open>WM_MOUSELEAVE\<close> posts a resume message (with 0) to the same windows. On a pause
  message every instance cancels its display timer, and one that is fading restores
  the opacity 230 and cancels its fade tick. On a resume message an instance restarts
  its display timer exactly when its flag \<open>g_isBottomToast\<close> is set and the pointer is
  not over it; every other instance is left as it is. The flag is what the instance
  last recorded (at creation, on a poll tick or on a closing broadcast): the handler
  does not evaluate \<open>IsBottomToast\<close> again.
\<close>

theorem C5_pause_and_resume_by_flag:
  "(\<not> g_mouseInside g \<longrightarrow>
      g_mouseInside (WndProc d WM_MOUSEMOVE g) \<and>
      posted (WndProc d WM_MOUSEMOVE g) =
        posted g @ (g_hwnd g, WM_TOAST_PAUSE_TIMER 1) #
          map (\<lambda>t. (hwnd t, WM_TOAST_PAUSE_TIMER 1))
              (GetOtherToasts (g_taskbarEdge g) (g_hwnd g) (windows d))) \<and>
   \<not> g_mouseInside (WndProc d WM_MOUSELEAVE g) \<and>
   posted (WndProc d WM_MOUSELEAVE g) =
     posted g @ (g_hwnd g, WM_TOAST_PAUSE_TIMER 0) #
       map (\<lambda>t. (hwnd t, WM_TOAST_PAUSE_TIMER 0))
           (GetOtherToasts (g_taskbarEdge g) (g_hwnd g) (windows d)) \<and>
   TIMER_START_FADE \<notin> timers (WndProc d' (WM_TOAST_PAUSE_TIMER 1) p) \<and>
   (g_isFading p \<longrightarrow>
      g_alpha (WndProc d' (WM_TOAST_PAUSE_TIMER 1) p) = 230 \<and>
      \<not> g_isFading (WndProc d' (WM_TOAST_PAUSE_TIMER 1) p) \<and>
      TIMER_FADE \<notin> timers (WndProc d' (WM_TOAST_PAUSE_TIMER 1) p)) \<and>
   (g_isBottomToast p \<and> \<not> g_mouseInside p \<longrightarrow>
      WndProc d' (WM_TOAST_PAUSE_TIMER 0) p = SetTimer TIMER_START_FADE p \<and>
      TIMER_START_FADE \<in> timers (WndProc d' (WM_TOAST_PAUSE_TIMER 0) p)) \<and>
   (\<not> (g_isBottomToast p \<and> \<not> g_mouseInside p) \<longrightarrow>
      WndProc d' (WM_TOAST_PAUSE_TIMER 0) p = p)"
proof -
  have 1: "\<not> g_mouseInside g \<longrightarrow>
      g_mouseInside (WndProc d WM_MOUSEMOVE g) \<and>
      posted (WndProc d WM_MOUSEMOVE g) =
        posted g @ (g_hwnd g, WM_TOAST_PAUSE_TIMER 1) #
          map (\<lambda>t. (hwnd t, WM_TOAST_PAUSE_TIMER 1))
              (GetOtherToasts (g_taskbarEdge g) (g_hwnd g) (windows d))"
    by (simp add: on_mousemove_def NotifyAllToastsPauseTimer_def my_peers_def)
  have 2: "\<not> g_mouseInside (WndProc d WM_MOUSELEAVE g) \<and>
   posted (WndProc d WM_MOUSELEAVE g) =
     posted g @ (g_hwnd g, WM_TOAST_PAUSE_TIMER 0) #
       map (\<lambda>t. (hwnd t, WM_TOAST_PAUSE_TIMER 0))
           (GetOtherToasts (g_taskbarEdge g) (g_hwnd g) (windows d))"
    by (simp add: on_mouseleave_def NotifyAllToastsPauseTimer_def my_peers_def)
  have 3: "TIMER_START_FADE \<notin> timers (WndProc d' (WM_TOAST_PAUSE_TIMER 1) p)"
    by (simp add: on_pause_timer_pause(1))
  have 4: "g_isFading p \<longrightarrow>
      g_alpha (WndProc d' (WM_TOAST_PAUSE_TIMER 1) p) = 230 \<and>
      \<not> g_isFading (WndProc d' (WM_TOAST_PAUSE_TIMER 1) p) \<and>
      TIMER_FADE \<notin> timers (WndProc d' (WM_TOAST_PAUSE_TIMER 1) p)"
    using on_pause_timer_pause(2) [of 1 p] by simp
  have 5: "g_isBottomToast p \<and> \<not> g_mouseInside p \<longrightarrow>
      WndProc d' (WM_TOAST_PAUSE_TIMER 0) p = SetTimer TIMER_START_FADE p \<and>
      TIMER_START_FADE \<in> timers (WndProc d' (WM_TOAST_PAUSE_TIMER 0) p)"
    by (simp add: on_pause_timer_resume(1))
  have 6: "\<not> (g_isBottomToast p \<and> \<not> g_mouseInside p) \<longrightarrow>
      WndProc d' (WM_TOAST_PAUSE_TIMER 0) p = p"
    using on_pause_timer_resume(2) [of p] by simp
  from 1 2 3 4 5 6 show ?thesis by blast
qed

text \<open>The fading bottom toast of the example is paused and resumed; the toast above
  it stays idle.\<close>

theorem C5_pause_and_resume_by_flag_witness:
  "posted (WndProc ex_desktop_two WM_MOUSEMOVE ex_fading) =
     [(7, WM_TOAST_PAUSE_TIMER 1), (8, WM_TOAST_PAUSE_TIMER 1)] \<and>
   g_alpha (WndProc ex_desktop_two (WM_TOAST_PAUSE_TIMER 1) ex_fading) = 230 \<and>
   timers (WndProc ex_desktop_two (WM_TOAST_PAUSE_TIMER 1) ex_fading) = {} \<and>
   TIMER_START_FADE \<in>
     timers (WndProc ex_desktop_two (WM_TOAST_PAUSE_TIMER 0)
               (WndProc ex_desktop_two (WM_TOAST_PAUSE_TIMER 1) ex_fading)) \<and>
   WndProc ex_desktop_two (WM_TOAST_PAUSE_TIMER 0) ex_waiting = ex_waiting"
proof -
  have peers: "GetOtherToasts ABE_BOTTOM 7 (windows ex_desktop_two) = [ex_toast 8 1620 880]"
    by (simp add: GetOtherToasts_def EnumToastWindows_def ex_desktop_two_def ex_terminal_def
        ex_toast_def TOAST_CLASS_NAME_def)
  have g: "\<not> g_mouseInside ex_fading" "g_isFading ex_fading" "g_isBottomToast ex_fading"
    "g_hwnd ex_fading = 7" "g_taskbarEdge ex_fading = ABE_BOTTOM" "posted ex_fading = []"
    "timers ex_fading = {TIMER_FADE}"
    by (simp_all add: ex_fading_def initial_globals_def)
  let ?paused = "WndProc ex_desktop_two (WM_TOAST_PAUSE_TIMER 1) ex_fading"
  have q: "g_isBottomToast ?paused \<and> \<not> g_mouseInside ?paused"
    "timers ?paused = {}"
    using g by (simp_all add: on_pause_timer_def KillTimer_def)
  have w: "\<not> (g_isBottomToast ex_waiting \<and> \<not> g_mouseInside ex_waiting)"
    by (simp add: ex_waiting_def initial_globals_def)
  from C5_pause_and_resume_by_flag [of ex_fading ex_desktop_two ex_desktop_two ex_fading]
       C5_pause_and_resume_by_flag [of ex_fading ex_desktop_two ex_desktop_two ?paused]
       C5_pause_and_resume_by_flag [of ex_fading ex_desktop_two ex_desktop_two ex_waiting]
  show ?thesis
    using g q w peers by (simp add: ex_toast_def)
qed

text \<open>The claim as stated, with \<open>isAnchor()\<close> read as \<open>IsBottomToast\<close>, fails in both
  directions. The waiting toast of the example has no peer closer to the taskbar any
  more and no pointer over it, but its flag is not yet set, and the resume message
  does not start its display timer. The paused toast of the example is flagged, but a
  peer is closer to the taskbar, and the resume message starts its display timer.\<close>

theorem C5_live_anchor_not_restarted_counterexample:
  "IsBottomToast (g_taskbarEdge ex_waiting) (g_hwnd ex_waiting) (myRect ex_waiting)
     (windows ex_desktop_alone) \<and>
   \<not> g_mouseInside ex_waiting \<and>
   TIMER_START_FADE \<notin> timers (WndProc ex_desktop_alone (WM_TOAST_PAUSE_TIMER 0) ex_waiting) \<and>
   \<not> IsBottomToast (g_taskbarEdge ex_paused) (g_hwnd ex_paused) (myRect ex_paused)
       (windows ex_desktop_lower) \<and>
   TIMER_START_FADE \<notin> timers ex_paused \<and>
   TIMER_START_FADE \<in> timers (WndProc ex_desktop_lower (WM_TOAST_PAUSE_TIMER 0) ex_paused)"
  by (simp add: IsBottomToast_def GetOtherToasts_def EnumToastWindows_def ex_desktop_alone_def
      ex_desktop_lower_def ex_terminal_def ex_toast_def ex_rect_def TOAST_CLASS_NAME_def
      ex_waiting_def ex_paused_def initial_globals_def on_pause_timer_def SetTimer_def)

text \<open>
  C6. An invocation whose payload holds no session key (\<open>ExtractJsonStringValue\<close>
  finds no \<open>session_id\<close>, or the second-phase process is started without
  \<open>--session\<close>) writes no state. The show invocations \<open>--notify\<close>, \<open>--input\<close> and
  \<open>--notify-show\<close> exit with 1 and start no process. The record invocation \<open>--save\<close>
  writes no state file either, but exits with 0: \<open>SaveState\<close> returns nothing and
  \<open>WinMain\<close> returns 0 after it in every case.
\<close>

theorem C6_missing_session_exit_codes:
  assumes "ExtractJsonStringValue stdin ''session_id'' = []"
  shows "(\<exists>out. WinMain m d [exe, ''--notify''] stdin evs fs = Some out \<and>
            exitCode out = 1 \<and> filesAfter out = fs \<and> spawned out = None) \<and>
         (\<exists>out. WinMain m d [exe, ''--input''] stdin evs fs = Some out \<and>
            exitCode out = 1 \<and> filesAfter out = fs \<and> spawned out = None) \<and>
         (\<exists>out. WinMain m d [exe, ''--notify-show''] stdin evs fs = Some out \<and>
            exitCode out = 1 \<and> filesAfter out = fs \<and> spawned out = None) \<and>
         (\<exists>out. WinMain m d [exe, ''--save''] stdin evs fs = Some out \<and>
            exitCode out = 0 \<and> filesAfter out = fs \<and> spawned out = None)"
  using assms
  by (simp add: WinMain_def set_flag_def SaveState_def initial_globals_def)

text \<open>The payload \<open>{}\<close>: the show invocation exits with 1, the record invocation
  with 0.\<close>

theorem C6_missing_session_exit_codes_witness:
  "ExtractJsonStringValue ''{}'' ''session_id'' = [] \<and>
   map_option exitCode
     (WinMain ex_machine ex_desktop [''ToastWindow.exe'', ''--notify''] ''{}'' [] Map.empty) = Some 1 \<and>
   map_option exitCode
     (WinMain ex_machine ex_desktop [''ToastWindow.exe'', ''--save''] ''{}'' [] Map.empty) = Some 0 \<and>
   map_option (\<lambda>out. filesAfter out (GetStateFilePath ex_machine []))
     (WinMain ex_machine ex_desktop [''ToastWindow.exe'', ''--save''] ''{}'' [] Map.empty) = Some None"
proof -
  have e: "ExtractJsonStringValue ''{}'' ''session_id'' = []"
    by (simp add: ExtractJsonStringValue_def string_find_def DQUOTE_def)
  from C6_missing_session_exit_codes [OF e, of ex_machine ex_desktop "''ToastWindow.exe''" "[]" Map.empty]
  show ?thesis using e by auto
qed

text \<open>
  C7. A show invocation (the second-phase process) for a session key with no state
  file does not fail: whatever messages arrive, if the process ends it exits with 0,
  its title and message are the defaults of its mode (\<open>Claude Code\<close> and
  \<open>Task completed\<close>, or \<open>Input Required\<close> and \<open>Claude needs your input\<close> with
  \<open>--input-mode\<close>), its target window and terminal window are unset, and no activation
  call was made, whatever was clicked. A click ends the process.
\<close>

theorem C7_unknown_session_defaults:
  assumes key: "k \<noteq> []" and unknown: "fs (GetStateFilePath m k) = None"
  shows "(\<forall>evs out. WinMain m d (second_phase_argv b k) stdin evs fs = Some out \<longrightarrow>
            exitCode out = 0 \<and>
            g_title (atExit out) = (if b then ''Input Required'' else ''Claude Code'') \<and>
            g_message (atExit out) =
              (if b then ''Claude needs your input'' else ''Task completed'') \<and>
            g_targetWindowHandle (atExit out) = 0 \<and> g_wtWindowHandle (atExit out) = 0 \<and>
            calls (atExit out) = []) \<and>
         (\<forall>d' x y. \<exists>out.
            WinMain m d (second_phase_argv b k) stdin [(d', WM_LBUTTONUP x y)] fs = Some out)"
proof -
  let ?g = "normalize_message (choose_message (second_phase_globals b k))"
  have W: "WinMain m d (second_phase_argv b k) stdin evs fs =
     (case ShowToast m d evs ?g of
        None \<Rightarrow> None
      | Some g2 \<Rightarrow>
          Some \<lparr> exitCode = 0, filesAfter = fs((GetStateFilePath m k) := None),
                 spawned = None, atExit = g2 \<rparr>)" for evs
    using WinMain_second_phase [OF key, of m d b stdin evs fs]
    by (simp add: LoadState_missing [where fs = fs and m = m and k = k, OF unknown])
  have sg: "settings ?g = ((if b then ''Input Required'' else ''Claude Code''),
      (if b then ''Claude needs your input'' else ''Task completed''), 0, 0, [], b)"
    by (rule settings_default)
  have cg: "calls ?g = []" "destroyed ?g = False"
    by (simp_all add: normalize_message_def choose_message_def second_phase_globals_def
        initial_globals_def)
  have 1: "exitCode out = 0 \<and>
            g_title (atExit out) = (if b then ''Input Required'' else ''Claude Code'') \<and>
            g_message (atExit out) =
              (if b then ''Claude needs your input'' else ''Task completed'') \<and>
            g_targetWindowHandle (atExit out) = 0 \<and> g_wtWindowHandle (atExit out) = 0 \<and>
            calls (atExit out) = []"
    if "WinMain m d (second_phase_argv b k) stdin evs fs = Some out" for evs out
  proof -
    from that W [of evs] obtain g2 where g2: "ShowToast m d evs ?g = Some g2"
      and out: "out = \<lparr> exitCode = 0, filesAfter = fs((GetStateFilePath m k) := None),
                 spawned = None, atExit = g2 \<rparr>"
      by (auto split: option.splits)
    from sg have z: "g_targetWindowHandle ?g = 0" "g_wtWindowHandle ?g = 0"
      unfolding settings_def by simp_all
    from ShowToast_Some [OF g2] z cg have "settings g2 = settings ?g" "calls g2 = []"
      by simp_all
    with sg out show ?thesis unfolding settings_def by simp
  qed
  have 2: "\<exists>out. WinMain m d (second_phase_argv b k) stdin [(d', WM_LBUTTONUP x y)] fs = Some out"
    for d' x y
    using ShowToast_click [OF cg(2), of m d d' x y] W [of "[(d', WM_LBUTTONUP x y)]"]
    by auto
  from 1 2 show ?thesis by blast
qed

theorem C7_unknown_session_defaults_witness:
  "\<exists>out. WinMain ex_machine ex_desktop (second_phase_argv False ''abc'') []
            [(ex_desktop, WM_LBUTTONUP 10 40)] Map.empty = Some out \<and>
         g_title (atExit out) = ''Claude Code'' \<and>
         g_message (atExit out) = ''Task completed'' \<and>
         g_targetWindowHandle (atExit out) = 0 \<and> calls (atExit out) = []"
proof -
  have k: "''abc'' \<noteq> ([] :: string)" by simp
  have u: "(Map.empty :: files) (GetStateFilePath ex_machine ''abc'') = None" by simp
  note C7 = C7_unknown_session_defaults
    [where k = "''abc''" and fs = Map.empty and m = ex_machine and d = ex_desktop
       and b = False and stdin = "[]", OF k u]
  from C7 obtain out where
    out: "WinMain ex_machine ex_desktop (second_phase_argv False ''abc'') []
            [(ex_desktop, WM_LBUTTONUP 10 40)] Map.empty = Some out"
    by blast
  with C7 have "g_title (atExit out) = ''Claude Code'' \<and>
         g_message (atExit out) = ''Task completed'' \<and>
         g_targetWindowHandle (atExit out) = 0 \<and> calls (atExit out) = []"
    by force
  with out show ?thesis by blast
qed



text \<open>
  C9, as amended. The reposition animation terminates for every pair of current and
  target coordinates in the range of \<open>int\<close> that are less than \<open>2^30 = 1073741824\<close>
  pixels apart, where \<open>diff * 2\<close> does not overflow. A tick at the target cancels the
  timer and leaves the window where it is. A tick away from the target takes the step
  \<open>diff * 2 / 5\<close> (2 or -2 where that is 0); if the step ends less than 4 pixels from
  the target, the window is put exactly on the target and the timer is cancelled;
  otherwise the window moves by \<open>diff * 2 / 5\<close>, which is then at least 2 pixels, comes
  strictly closer and the timer goes on. The ticks of a running timer therefore end,
  after at most \<open>\<bar>diff\<bar> + 1\<close> of them, with the window exactly on the target and the
  timer cancelled. For a target farther away \<open>diff * 2\<close> can overflow, and then the
  ticks need not reach the target.
\<close>

theorem C9_reposition_animation_terminates:
  assumes running: "TIMER_REPOSITION \<in> timers g"
    and range: "in_int32 (r_top (myRect g))" "in_int32 (g_targetY g)"
    and near: "\<bar>g_targetY g - r_top (myRect g)\<bar> < 1073741824"
  shows "(let y = r_top (myRect g); diff = g_targetY g - y;
              g' = AnimateToPosition g; y' = r_top (myRect g')
          in anim_step diff =
               (if c_div (diff * 2) 5 = 0 then (if diff > 0 then 2 else - 2)
                else c_div (diff * 2) 5) \<and>
             (y = g_targetY g \<longrightarrow> y' = y \<and> TIMER_REPOSITION \<notin> timers g') \<and>
             (y \<noteq> g_targetY g \<and> \<bar>diff - anim_step diff\<bar> < 4 \<longrightarrow>
                y' = g_targetY g \<and> TIMER_REPOSITION \<notin> timers g') \<and>
             (y \<noteq> g_targetY g \<and> \<not> \<bar>diff - anim_step diff\<bar> < 4 \<longrightarrow>
                y' = y + c_div (diff * 2) 5 \<and> 2 \<le> \<bar>c_div (diff * 2) 5\<bar> \<and>
                \<bar>g_targetY g - y'\<bar> < \<bar>diff\<bar> \<and> g_targetY g' = g_targetY g \<and>
                TIMER_REPOSITION \<in> timers g') \<and>
             map_option (\<lambda>g'. (r_top (myRect g'), TIMER_REPOSITION \<in> timers g'))
                 (animate_run (nat \<bar>diff\<bar> + 1 + k) g) = Some (g_targetY g, False) \<and>
             (\<exists>j \<le> nat \<bar>diff\<bar> + 1 + k.
                animate_run (nat \<bar>diff\<bar> + 1 + k) g = Some ((AnimateToPosition ^^ j) g)))"
proof -
  let ?y = "r_top (myRect g)"
  let ?diff = "g_targetY g - ?y"
  let ?g' = "AnimateToPosition g"
  let ?n = "nat \<bar>?diff\<bar> + 1 + k"
  have a: "anim_step ?diff =
      (if c_div (?diff * 2) 5 = 0 then (if ?diff > 0 then 2 else - 2) else c_div (?diff * 2) 5)"
    by (rule anim_step_small [OF near])
  have b: "?y = g_targetY g \<longrightarrow> r_top (myRect ?g') = ?y \<and> TIMER_REPOSITION \<notin> timers ?g'"
    by (simp add: Animate_at_target)
  have c: "?y \<noteq> g_targetY g \<and> \<bar>?diff - anim_step ?diff\<bar> < 4 \<longrightarrow>
      r_top (myRect ?g') = g_targetY g \<and> TIMER_REPOSITION \<notin> timers ?g'"
    using near by (simp add: Animate_snap)
  have d: "?y \<noteq> g_targetY g \<and> \<not> \<bar>?diff - anim_step ?diff\<bar> < 4 \<longrightarrow>
      r_top (myRect ?g') = ?y + c_div (?diff * 2) 5 \<and> 2 \<le> \<bar>c_div (?diff * 2) 5\<bar> \<and>
      \<bar>g_targetY g - r_top (myRect ?g')\<bar> < \<bar>?diff\<bar> \<and> g_targetY ?g' = g_targetY g \<and>
      TIMER_REPOSITION \<in> timers ?g'"
  proof (intro impI, elim conjE)
    assume ne: "?y \<noteq> g_targetY g" and far: "\<not> \<bar>?diff - anim_step ?diff\<bar> < 4"
    from ne range near far have mv: "?g' = SetWindowPosY (?y + anim_step ?diff) g"
      by (rule Animate_move(1))
    note f = anim_step_far [OF far near]
    have "r_top (myRect ?g') = ?y + c_div (?diff * 2) 5"
      using mv f(1) by simp
    moreover have "2 \<le> \<bar>c_div (?diff * 2) 5\<bar>" by (rule f(2))
    moreover have "\<bar>g_targetY g - r_top (myRect ?g')\<bar> < \<bar>?diff\<bar>"
      using mv f(3) by (simp add: algebra_simps)
    moreover have "g_targetY ?g' = g_targetY g" "TIMER_REPOSITION \<in> timers ?g'"
      using mv running by simp_all
    ultimately show "r_top (myRect ?g') = ?y + c_div (?diff * 2) 5 \<and>
      2 \<le> \<bar>c_div (?diff * 2) 5\<bar> \<and> \<bar>g_targetY g - r_top (myRect ?g')\<bar> < \<bar>?diff\<bar> \<and>
      g_targetY ?g' = g_targetY g \<and> TIMER_REPOSITION \<in> timers ?g'"
      by simp
  qed
  have "nat \<bar>?diff\<bar> < ?n" by simp
  from animate_run_reaches [OF running range near this]
  obtain g' where g': "animate_run ?n g = Some g'" "r_top (myRect g') = g_targetY g"
    "TIMER_REPOSITION \<notin> timers g'"
    by blast
  have e: "map_option (\<lambda>g'. (r_top (myRect g'), TIMER_REPOSITION \<in> timers g'))
      (animate_run ?n g) = Some (g_targetY g, False)"
    using g' by simp
  have f: "\<exists>j \<le> ?n. animate_run ?n g = Some ((AnimateToPosition ^^ j) g)"
    using animate_run_funpow [OF g'(1)] g'(1) by blast
  from a b c d e f show ?thesis unfolding Let_def by blast
qed

text \<open>The instance of the example, 80 pixels above its target, arrives exactly.\<close>

theorem C9_reposition_animation_witness:
  "TIMER_REPOSITION \<in> timers ex_moving \<and>
   r_top (myRect ex_moving) = 800 \<and>
   r_top (myRect (AnimateToPosition ex_moving)) = 832 \<and>
   map_option (\<lambda>g'. (r_top (myRect g'), TIMER_REPOSITION \<in> timers g'))
     (animate_run 81 ex_moving) = Some (880, False)"
proof -
  have r: "TIMER_REPOSITION \<in> timers ex_moving"
    by (simp add: ex_moving_def)
  have y: "r_top (myRect ex_moving) = 800" and t: "g_targetY ex_moving = 880"
    by (simp_all add: ex_moving_def ex_rect_def)
  have i: "in_int32 (r_top (myRect ex_moving))" "in_int32 (g_targetY ex_moving)"
    "\<bar>g_targetY ex_moving - r_top (myRect ex_moving)\<bar> < 1073741824"
    unfolding y t by (simp_all add: in_int32_def)
  have far: "\<not> \<bar>(880 - 800) - anim_step (880 - 800)\<bar> < (4 :: int)"
    by (simp add: anim_step_pos)
  have n: "nat \<bar>880 - 800\<bar> + 1 + 0 = 81"
    by simp
  note C9 = C9_reposition_animation_terminates [OF r i, of 0, unfolded Let_def y t n]
  have ne: "(800 :: int) \<noteq> 880" by simp
  from C9 far ne have "r_top (myRect (AnimateToPosition ex_moving)) = 800 + c_div ((880 - 800) * 2) 5"
    by blast
  moreover from C9 have "map_option (\<lambda>g'. (r_top (myRect g'), TIMER_REPOSITION \<in> timers g'))
     (animate_run 81 ex_moving) = Some (880, False)"
    by blast
  ultimately show ?thesis
    using r y by (simp add: c_div_5)
qed

text \<open>The claim as stated fails for a window at 0 with the target 2147483644: the
  doubled distance overflows to -8, the first tick moves the window away from the
  target, to -1, the second to -2, the third back to 0, and the timer never stops.\<close>

theorem C9_far_target_never_reached_counterexample:
  "TIMER_REPOSITION \<in> timers ex_far \<and>
   r_top (myRect ex_far) = 0 \<and> g_targetY ex_far = 2147483644 \<and>
   in_int32 (r_top (myRect ex_far)) \<and> in_int32 (g_targetY ex_far) \<and>
   r_top (myRect (AnimateToPosition ex_far)) = - 1 \<and>
   r_top (myRect (AnimateToPosition (AnimateToPosition ex_far))) = - 2 \<and>
   AnimateToPosition (AnimateToPosition (AnimateToPosition ex_far)) = ex_far \<and>
   animate_run 1000000 ex_far = None"
  using ex_far_runs_forever [of 1000000]
  by (simp add: ex_far_cycle in_int32_def) (simp add: ex_far_def ex_rect_def)

text \<open>
  C10, as amended. Let the recorded prompt \<open>t\<close> contain a line feed, the session key be
  non-empty, the state file be writable, the show invocation use the temporary
  directory of the record invocation, and the caller path (with no line feed) and the
  runtime id be at most 2046 characters long. \<open>SaveState\<close> writes \<open>t\<close> verbatim, line feeds
  included, from the fourth line of the state file on. \<open>LoadState\<close> reads one line of
  it, of at most 2047 characters: the loaded prompt is the first 2047 characters of the
  text up to and including the first line feed, without the line feeds and carriage
  returns at their end. For a first line of at most 2046 characters this is the text
  before the first line feed without the carriage returns at its end. The loaded prompt
  holds no line feed, so the substitution of the show path never sees a recorded line
  feed. The displayed message is the normalisation of the loaded prompt (carriage
  returns inside it replaced by spaces, cut to 35 characters with three dots), or the
  default message of the mode when the loaded prompt is empty; what follows the first
  line feed is never displayed. A click on the toast ends the show invocation, so
  there are runs of which this speaks.
\<close>

theorem C10_only_first_line_survives:
  assumes key: "ExtractJsonStringValue stdin ''session_id'' = k" "k \<noteq> []"
    and prompt: "ExtractJsonStringValue stdin ''prompt'' = t" "LF \<in> set t"
    and writable: "stateFileWritable m1"
    and env: "tempPath m2 = tempPath m1" "LF \<notin> set (callerExePath m1)"
      "length (callerExePath m1) \<le> 2046"
      "length (saved_runtimeId d1 (captured_hwnd m1 d1)) \<le> 2046"
    and recorded: "WinMain m1 d1 [exe, ''--save''] stdin evs1 fs0 = Some saved"
  shows "(let loaded = strip_eol (take 2047 (first_line t @ [LF]))
          in filesAfter saved (GetStateFilePath m1 k) =
               Some (print_lld (sint (captured_hwnd m1 d1)) @ [LF] @
                     saved_runtimeId d1 (captured_hwnd m1 d1) @ [LF] @
                     callerExePath m1 @ [LF] @ t @ [LF]) \<and>
             (\<exists>rest. t = first_line t @ LF # rest) \<and>
             g_userPrompt (LoadState m2 d2 (filesAfter saved) k (second_phase_globals b k))
               = loaded \<and>
             (length (first_line t) \<le> 2046 \<longrightarrow> loaded = strip_eol (first_line t)) \<and>
             LF \<notin> set loaded \<and>
             (\<exists>out. WinMain m2 d2 (second_phase_argv b k) stdin2 [(d3, WM_LBUTTONUP x y)]
                      (filesAfter saved) = Some out) \<and>
             (\<forall>evs out.
                WinMain m2 d2 (second_phase_argv b k) stdin2 evs (filesAfter saved) = Some out \<longrightarrow>
                  g_message (atExit out) =
                    (if loaded = []
                     then (if b then ''Claude needs your input'' else ''Task completed'')
                     else truncate_ellipsis (replace_newlines loaded))))"
proof -
  let ?fs = "SaveState m1 d1 stdin fs0"
  let ?p = "strip_eol (take 2047 (first_line t @ [LF]))"
  from recorded have saved: "filesAfter saved = ?fs"
    by (auto simp: WinMain_def set_flag_def)
  have 1: "?fs (GetStateFilePath m1 k) =
           Some (print_lld (sint (captured_hwnd m1 d1)) @ [LF] @
                 saved_runtimeId d1 (captured_hwnd m1 d1) @ [LF] @
                 callerExePath m1 @ [LF] @ t @ [LF])"
    using SaveState_file [OF key writable, of d1 fs0] prompt(1) by simp
  have 2: "\<exists>rest. t = first_line t @ LF # rest"
  proof -
    have "t = takeWhile (\<lambda>c. c \<noteq> LF) t @ dropWhile (\<lambda>c. c \<noteq> LF) t" by simp
    moreover have "dropWhile (\<lambda>c. c \<noteq> LF) t \<noteq> []"
      using prompt(2) by (auto simp: dropWhile_eq_Nil_conv)
    moreover then have "hd (dropWhile (\<lambda>c. c \<noteq> LF) t) = LF"
      using hd_dropWhile [of "\<lambda>c. c \<noteq> LF" t] by auto
    ultimately show ?thesis unfolding first_line_def by (metis list.collapse)
  qed
  have 3: "g_userPrompt (LoadState m2 d2 ?fs k (second_phase_globals b k)) = ?p"
    unfolding load_after_record_any [OF key writable env]
    by (simp add: load_keeps second_phase_fields prompt(1))
  have 4: "length (first_line t) \<le> 2046 \<longrightarrow> ?p = strip_eol (first_line t)"
    using strip_eol_take_line [of "first_line t"] by blast
  have 5: "LF \<notin> set ?p"
    by (rule strip_eol_take_no_LF [OF first_line_no_LF])
  have 6: "g_message (atExit out) =
                (if ?p = []
                 then (if b then ''Claude needs your input'' else ''Task completed'')
                 else truncate_ellipsis (replace_newlines ?p))"
    if "WinMain m2 d2 (second_phase_argv b k) stdin2 evs ?fs = Some out" for evs out
    using message_after_record_any [OF key writable env that] prompt(1) by simp
  have 7: "\<exists>out. WinMain m2 d2 (second_phase_argv b k) stdin2 [(d3, WM_LBUTTONUP x y)] ?fs
      = Some out"
    by (rule show_click_completes [OF key(2)])
  from 1 2 3 4 5 6 7 show ?thesis unfolding saved Let_def by blast
qed

text \<open>The prompt \<open>first\<close>, line feed, \<open>second\<close>: the file holds both lines, the
  toast shows \<open>first\<close>.\<close>

theorem C10_only_first_line_survives_witness:
  "map_option (g_message \<circ> atExit)
     (WinMain ex_machine ex_desktop (second_phase_argv False ''abc'') [] ex_click
        (filesAfter (the (WinMain ex_machine ex_desktop [''ToastWindow.exe'', ''--save'']
                            (ex_payload (''first'' @ [BACKSLASH] @ ''nsecond'')) [] Map.empty))))
     = Some ''first'' \<and>
   filesAfter (the (WinMain ex_machine ex_desktop [''ToastWindow.exe'', ''--save'']
                      (ex_payload (''first'' @ [BACKSLASH] @ ''nsecond'')) [] Map.empty))
     (GetStateFilePath ex_machine ''abc'')
     = Some (''4242'' @ [LF] @ [LF] @ ''C:/bin/code.exe'' @ [LF] @ ''first'' @ [LF] @ ''second'' @ [LF])"
proof -
  let ?stdin = "ex_payload (''first'' @ [BACKSLASH] @ ''nsecond'')"
  let ?t = "''first'' @ LF # ''second''"
  have k: "''abc'' \<noteq> ([] :: string)" by simp
  have fl: "first_line ?t = ''first''" by (simp add: first_line_def LF_def)
  have p: "LF \<in> set ?t"
    by simp
  have r: "length (saved_runtimeId ex_desktop (captured_hwnd ex_machine ex_desktop)) \<le> 2046"
    by (simp add: ex_environment)
  note C10 = C10_only_first_line_survives
    [where ?m1.0 = ex_machine and ?m2.0 = ex_machine and ?d1.0 = ex_desktop
       and ?d2.0 = ex_desktop and b = False and ?stdin2.0 = "[]",
     OF ex_payload_session k ex_payload_prompts(4) p ex_environment(3) refl
       ex_environment(4,5) r ex_record]
  obtain out where out: "WinMain ex_machine ex_desktop (second_phase_argv False ''abc'') []
      [(ex_desktop, WM_LBUTTONUP 10 40)]
      (SaveState ex_machine ex_desktop ?stdin Map.empty) = Some out"
    using show_click_completes [OF k] by blast
  have s: "strip_eol (take 2047 (''first'' @ [LF])) = ''first''"
    by (simp add: strip_eol_def LF_def CR_def)
  have n: "truncate_ellipsis (replace_newlines ''first'') = ''first''"
    by (simp add: truncate_ellipsis_def replace_newlines_def maxLen_def LF_def CR_def)
  have d: "print_lld (sint (captured_hwnd ex_machine ex_desktop)) = ''4242''"
    unfolding ex_environment(1) by code_simp
  have rid: "saved_runtimeId ex_desktop (captured_hwnd ex_machine ex_desktop) = []"
    unfolding ex_environment(1) by (rule ex_environment(6))
  have exe: "callerExePath ex_machine = ''C:/bin/code.exe''"
    by (simp add: ex_machine_def)
  have sv: "filesAfter \<lparr> exitCode = 0,
        filesAfter = SaveState ex_machine ex_desktop ?stdin Map.empty,
        spawned = None, atExit = initial_globals\<lparr>g_sessionId := ''abc''\<rparr> \<rparr>
      = SaveState ex_machine ex_desktop ?stdin Map.empty"
    by simp
  note C10' = C10 [unfolded Let_def sv d rid exe fl s n]
  from C10' out have m: "g_message (atExit out) = ''first''"
    by simp
  from C10' have f: "SaveState ex_machine ex_desktop ?stdin Map.empty
      (GetStateFilePath ex_machine ''abc'')
     = Some (''4242'' @ [LF] @ [LF] @ ''C:/bin/code.exe'' @ [LF] @ ''first'' @ [LF] @ ''second'' @ [LF])"
    by simp
  from m f out show ?thesis by (simp add: ex_record ex_click_def)
qed

text \<open>The claim as stated fails for a prompt that starts with a line feed: the text up
  to the first line feed is empty, and the message is the default one.\<close>

theorem C10_leading_newline_counterexample:
  "ExtractJsonStringValue (ex_payload ([BACKSLASH] @ ''nabc'')) ''prompt'' = LF # ''abc'' \<and>
   first_line (LF # ''abc'') = [] \<and>
   map_option (g_message \<circ> atExit)
     (WinMain ex_machine ex_desktop (second_phase_argv False ''abc'') [] ex_click
        (filesAfter (the (WinMain ex_machine ex_desktop [''ToastWindow.exe'', ''--save'']
                            (ex_payload ([BACKSLASH] @ ''nabc'')) [] Map.empty))))
     = Some ''Task completed''"
proof -
  let ?stdin = "ex_payload ([BACKSLASH] @ ''nabc'')"
  have k: "''abc'' \<noteq> ([] :: string)" by simp
  have fl: "first_line (LF # ''abc'') = []" by (simp add: first_line_def)
  obtain out where out: "WinMain ex_machine ex_desktop (second_phase_argv False ''abc'') []
      [(ex_desktop, WM_LBUTTONUP 10 40)]
      (SaveState ex_machine ex_desktop ?stdin Map.empty) = Some out"
    using show_click_completes [OF k] by blast
  have r: "length (saved_runtimeId ex_desktop (captured_hwnd ex_machine ex_desktop)) \<le> 2046"
    by (simp add: ex_environment)
  have e: "ExtractJsonStringValue ?stdin ''prompt'' = LF # ''abc''"
    by (rule ex_payload_prompts(3))
  have l: "length (first_line (ExtractJsonStringValue ?stdin ''prompt'')) \<le> 2046"
    unfolding e fl by simp
  have "g_message (atExit out) = ''Task completed''"
    using message_after_record
      [OF ex_payload_session k ex_environment(3) refl ex_environment(4,5) r l out]
    unfolding e fl by (simp add: strip_eol_def)
  with out e fl show ?thesis
    by (simp add: ex_record ex_click_def)
qed

end
